(* ===== verification/Prelude.thy ===== *)
theory Prelude
  imports Main "HOL-Library.Multiset"
begin

text \<open>
  Shared vocabulary of the development: the collections its component proofs draw on, the
  JavaScript array, string and number operations the sources use, and the generic lemmas about
  them.

  Strings are \<^typ>\<open>string\<close>; a JavaScript number that counts or measures is \<^typ>\<open>nat\<close> or
  \<^typ>\<open>int\<close>; \<open>undefined\<close> is \<^term>\<open>None\<close>; a thrown error is the left side of a sum.
\<close>

named_theorems queue_simps \<open>effect of the queue operations on the fields of a queue\<close>
named_theorems bus_simps \<open>effect of the bus operations on the fields of the bus\<close>
named_theorems live_simps \<open>effect of the bus operations on the messages it holds\<close>

section \<open>Arrays\<close>

text \<open>\<open>js_nth xs i\<close> is \<open>xs[i]\<close>: reading past the end gives \<open>undefined\<close>.\<close>

definition js_nth :: "'a list \<Rightarrow> nat \<Rightarrow> 'a option" where
  "js_nth xs i = (if i < length xs then Some (xs ! i) else None)"

lemma js_nth_in [simp]: "i < length xs \<Longrightarrow> js_nth xs i = Some (xs ! i)"
  by (simp add: js_nth_def)

lemma js_nth_out [simp]: "length xs \<le> i \<Longrightarrow> js_nth xs i = None"
  by (simp add: js_nth_def)

text \<open>\<open>splice1 i xs\<close> is what \<open>xs.splice(i, 1)\<close> leaves in the array.\<close>

definition splice1 :: "nat \<Rightarrow> 'a list \<Rightarrow> 'a list" where
  "splice1 i xs = take i xs @ drop (Suc i) xs"

lemma mset_splice1: "i < length xs \<Longrightarrow> add_mset (xs ! i) (mset (splice1 i xs)) = mset xs"
proof -
  assume i: "i < length xs"
  have "mset xs = mset (take i xs @ xs ! i # drop (Suc i) xs)"
    using id_take_nth_drop [OF i] by simp
  then show ?thesis by (simp add: splice1_def)
qed

lemma length_splice1 [simp]: "i < length xs \<Longrightarrow> length (splice1 i xs) = length xs - 1"
  by (simp add: splice1_def)

lemma set_splice1_subset: "set (splice1 i xs) \<subseteq> set xs"
  by (auto simp: splice1_def dest: in_set_takeD in_set_dropD)

lemma map_splice1: "map f (splice1 i xs) = splice1 i (map f xs)"
  by (simp add: splice1_def take_map drop_map)

lemma distinct_splice1: "distinct xs \<Longrightarrow> distinct (splice1 i xs)"
proof -
  assume d: "distinct xs"
  have "set (take i xs) \<inter> set (drop (Suc i) xs) = {}"
    using d by (rule set_take_disj_set_drop_if_distinct) simp
  with d show ?thesis by (simp add: splice1_def)
qed

lemma nth_update_if: "j < length xs \<Longrightarrow> xs[i := y] ! j = (if i = j then y else xs ! j)"
  by auto

text \<open>Removing the first occurrence is \<open>splice(indexOf(x), 1)\<close> guarded by \<open>indexOf(x) >= 0\<close>.\<close>

lemma set_remove1_or: "y \<in> set (remove1 x xs) \<or> y = x" if "y \<in> set xs"
  using that by (induction xs) auto

section \<open>Ordered maps\<close>

text \<open>
  A JavaScript \<open>Map\<close> iterates in insertion order and \<open>set\<close> on a present key keeps its
  position. Where the order matters the map is an association list with these operations.
\<close>

fun js_map_get :: "('k \<times> 'v) list \<Rightarrow> 'k \<Rightarrow> 'v option" where
  "js_map_get [] k = None"
| "js_map_get ((k', v) # xs) k = (if k' = k then Some v else js_map_get xs k)"

fun js_map_set :: "('k \<times> 'v) list \<Rightarrow> 'k \<Rightarrow> 'v \<Rightarrow> ('k \<times> 'v) list" where
  "js_map_set [] k v = [(k, v)]"
| "js_map_set ((k', v') # xs) k v =
     (if k' = k then (k', v) # xs else (k', v') # js_map_set xs k v)"

definition js_map_delete :: "('k \<times> 'v) list \<Rightarrow> 'k \<Rightarrow> ('k \<times> 'v) list" where
  "js_map_delete xs k = filter (\<lambda>(k', v). k' \<noteq> k) xs"

lemma js_map_get_map_of: "js_map_get xs k = map_of xs k"
  by (induction xs) auto

lemma js_map_get_set [simp]:
  "js_map_get (js_map_set xs k v) k' = (if k' = k then Some v else js_map_get xs k')"
  by (induction xs) auto

lemma js_map_get_delete [simp]:
  "js_map_get (js_map_delete xs k) k' = (if k' = k then None else js_map_get xs k')"
  by (induction xs) (auto simp: js_map_delete_def)

lemma set_js_map_set: "set (js_map_set xs k v) \<subseteq> insert (k, v) (set xs)"
  by (induction xs) (auto split: if_splits)

lemma distinct_js_map_set: "distinct (map fst xs) \<Longrightarrow> distinct (map fst (js_map_set xs k v))"
proof (induction xs)
  case (Cons x xs)
  have "fst ` set (js_map_set xs k v) \<subseteq> insert k (fst ` set xs)"
    using set_js_map_set [of xs k v] by force
  with Cons show ?case by (cases x) auto
qed simp

lemma js_map_get_None_iff: "js_map_get xs k = None \<longleftrightarrow> k \<notin> fst ` set xs"
  by (simp add: js_map_get_map_of map_of_eq_None_iff)

lemma js_map_set_fresh: "js_map_get xs k = None \<Longrightarrow> js_map_set xs k v = xs @ [(k, v)]"
  by (induction xs) (auto split: if_splits)

lemma js_map_get_in_set: "js_map_get xs k = Some v \<Longrightarrow> (k, v) \<in> set xs"
  by (induction xs) (auto split: if_splits)

lemma distinct_js_map_delete: "distinct (map fst xs) \<Longrightarrow> distinct (map fst (js_map_delete xs k))"
  by (simp add: js_map_delete_def distinct_map_filter)

section \<open>Decimal rendering\<close>

text \<open>Template literals such as \<open>`mem-${n}`\<close> render a number in decimal.\<close>

definition digit_char :: "nat \<Rightarrow> char" where
  "digit_char d = char_of (48 + d)"

fun show_nat :: "nat \<Rightarrow> string" where
  "show_nat n = (if n < 10 then [digit_char n] else show_nat (n div 10) @ [digit_char (n mod 10)])"

declare show_nat.simps [simp del]

definition read_digits :: "string \<Rightarrow> nat" where
  "read_digits s = foldl (\<lambda>acc c. acc * 10 + (of_char c - 48)) 0 s"

lemma of_char_digit_char: "d < 10 \<Longrightarrow> (of_char (digit_char d) :: nat) = 48 + d"
  by (simp add: digit_char_def)

lemma read_show_nat: "read_digits (show_nat n) = n"
proof (induction n rule: show_nat.induct)
  case (1 n)
  show ?case
  proof (cases "n < 10")
    case True
    then show ?thesis
      by (subst show_nat.simps) (simp add: read_digits_def of_char_digit_char)
  next
    case False
    with "1.IH" have "read_digits (show_nat (n div 10)) = n div 10" by simp
    with False show ?thesis
      by (subst show_nat.simps) (simp add: read_digits_def of_char_digit_char)
  qed
qed

lemma show_nat_inject [simp]: "show_nat m = show_nat n \<longleftrightarrow> m = n"
  by (metis read_show_nat)

section \<open>Splitting and joining strings\<close>

text \<open>\<open>split_on c s\<close> is \<open>s.split(c)\<close> for a one-character separator.\<close>

fun split_on :: "char \<Rightarrow> string \<Rightarrow> string list" where
  "split_on c [] = [[]]"
| "split_on c (x # xs) =
     (if x = c then [] # split_on c xs
      else (case split_on c xs of [] \<Rightarrow> [[x]] | w # ws \<Rightarrow> (x # w) # ws))"

fun join_with :: "char \<Rightarrow> string list \<Rightarrow> string" where
  "join_with c [] = []"
| "join_with c [w] = w"
| "join_with c (w # v # ws) = w @ c # join_with c (v # ws)"

lemma split_on_neq_Nil [simp]: "split_on c s \<noteq> []"
  by (induction s) (auto split: list.splits)

lemma join_split [simp]: "join_with c (split_on c s) = s"
proof (induction s)
  case Nil
  then show ?case by simp
next
  case (Cons x xs)
  obtain w ws where ws: "split_on c xs = w # ws"
    by (cases "split_on c xs") auto
  with Cons.IH show ?case by (cases ws) auto
qed

lemma split_on_inject [simp]: "split_on c s = split_on c t \<longleftrightarrow> s = t"
  by (metis join_split)

lemma split_on_append:
  "c \<notin> set w \<Longrightarrow> split_on c (w @ c # s) = w # split_on c s"
  by (induction w) auto

lemma split_on_no_sep: "c \<notin> set w \<Longrightarrow> split_on c w = [w]"
  by (induction w) auto

lemma set_split_on: "w \<in> set (split_on c s) \<Longrightarrow> set w \<subseteq> set s"
  by (induction s arbitrary: w) (fastforce split: if_splits list.splits)+

section \<open>Sums over lists of parts\<close>

text \<open>
  The messages of a bus are the union over its queues. Updating one queue of the store
  exchanges that queue's share and leaves the others alone.
\<close>

lemma sum_list_update_mset:
  fixes f :: "'a \<Rightarrow> 'b multiset"
  assumes "i < length xs"
  shows "sum_list (map f (xs[i := y])) + f (xs ! i) = sum_list (map f xs) + f y"
  using assms
proof (induction xs arbitrary: i)
  case Nil
  then show ?case by simp
next
  case (Cons x xs)
  then show ?case by (cases i) (auto simp: ac_simps)
qed

lemma sum_list_update_same:
  fixes f :: "'a \<Rightarrow> 'b multiset"
  assumes "i < length xs" and "f y = f (xs ! i)"
  shows "sum_list (map f (xs[i := y])) = sum_list (map f xs)"
  using sum_list_update_mset [OF assms(1), of f y] assms(2) by simp

lemma sum_list_update_add:
  fixes f :: "'a \<Rightarrow> 'b multiset"
  assumes "i < length xs" and "f y = add_mset z (f (xs ! i))"
  shows "sum_list (map f (xs[i := y])) = add_mset z (sum_list (map f xs))"
  using sum_list_update_mset [OF assms(1), of f y] assms(2) by simp

lemma sum_list_update_remove:
  fixes f :: "'a \<Rightarrow> 'b multiset"
  assumes "i < length xs" and "f (xs ! i) = add_mset z (f y)"
  shows "add_mset z (sum_list (map f (xs[i := y]))) = sum_list (map f xs)"
  using sum_list_update_mset [OF assms(1), of f y] assms(2) by simp

lemma sum_list_splice1:
  fixes f :: "'a \<Rightarrow> 'b multiset"
  assumes "i < length xs"
  shows "sum_list (map f xs) = sum_list (map f (splice1 i xs)) + f (xs ! i)"
proof -
  have "sum_list (map f xs) = sum_list (map f (take i xs @ xs ! i # drop (Suc i) xs))"
    using id_take_nth_drop [OF assms] by simp
  then show ?thesis by (simp add: splice1_def del: append_take_drop_id)
qed

lemma distinct_occurs_once: "distinct xs \<Longrightarrow> length (filter (\<lambda>x. x = y) xs) \<le> 1"
  by (induction xs) (auto simp: filter_empty_conv)

end
