(* ===== verification/Abstractions.thy ===== *)
theory Abstractions
  imports Prelude
begin

text \<open>
  The types, errors and address conventions every adapter shares
  (\<open>typescript/src/abstractions/\<close>). A message handler is a JavaScript function compared by
  identity, so a handler is the number of its function object. Optional properties are option
  values, header records are association lists in insertion order, and dates are milliseconds
  since the epoch.
\<close>

type_synonym destination = string
type_synonym handler = nat
type_synonym millis = int
type_synonym headers = "(string \<times> string) list"

section \<open>Core types\<close>

record ScheduleHandle =
  sh_id :: string
  sh_destination :: destination
  sh_deliverAt :: millis

record ReceivedMessage =
  rm_id :: string
  rm_destination :: destination
  rm_body :: string
  rm_headers :: headers

record ScheduledInfo =
  si_id :: string
  si_destination :: destination
  si_deliverAt :: "millis option"

datatype TopologyKind = Topic | Fanout

text \<open>The data part of an \<open>IncomingMessage\<close>; its \<open>ack\<close> and \<open>nack\<close> are operations of
  the adapter that created it.\<close>

record IncomingMessage = ReceivedMessage +
  im_deliveryCount :: "nat option"
  im_replyTo :: "string option"
  im_correlationId :: "string option"
  im_groupId :: "string option"
  im_priority :: "int option"

record PublishOptions =
  po_priority :: "int option"
  po_groupId :: "string option"
  po_dedupId :: "string option"
  po_replyTo :: "string option"
  po_correlationId :: "string option"
  po_ttlMs :: "millis option"
  po_headers :: "headers option"

record SubscribeOptions =
  so_kind :: "TopologyKind option"
  so_routingKey :: "string option"
  so_subscriberId :: "string option"
  so_deadLetter :: "bool option"
  so_maxDeliveries :: "nat option"
  so_retryDelayMs :: "millis option"
  so_partitionByGroup :: "bool option"
  so_singleActiveConsumer :: "bool option"
  so_streamReplay :: "bool option"
  so_transient :: "bool option"
  so_priorityQueue :: "bool option"
  so_ttlMs :: "millis option"

record BusCapabilities =
  supportsTopic :: bool
  supportsFanout :: bool
  supportsManualAck :: bool
  supportsDeadLetter :: bool
  reportsDeliveryCount :: bool
  supportsDedup :: bool
  supportsStreamReplay :: bool
  supportsMessageGroups :: "bool option"

record Capabilities =
  cap_protocol :: string
  cap_nativeScheduling :: bool
  cap_supportsCancel :: bool
  cap_supportsList :: bool
  cap_bus :: "BusCapabilities option"

text \<open>\<open>options?.f\<close> on an optional options object, and the empty objects.\<close>

definition opt_field :: "('o \<Rightarrow> 'a option) \<Rightarrow> 'o option \<Rightarrow> 'a option" where
  "opt_field f options = (case options of None \<Rightarrow> None | Some opts \<Rightarrow> f opts)"

lemma opt_field_simps [simp]:
  "opt_field f None = None"
  "opt_field f (Some opts) = f opts"
  by (simp_all add: opt_field_def)

definition coalesce :: "'a option \<Rightarrow> 'a \<Rightarrow> 'a" where
  "coalesce v d = (case v of None \<Rightarrow> d | Some x \<Rightarrow> x)"

lemma coalesce_simps [simp]:
  "coalesce None d = d"
  "coalesce (Some x) d = x"
  by (simp_all add: coalesce_def)

text \<open>
  Grouping into a \<open>Map\<close> of arrays by a key: the loop that reads the array of the key, or a new one, and pushes.
\<close>

definition group_into :: "('a \<Rightarrow> 'k) \<Rightarrow> ('a \<Rightarrow> 'v) \<Rightarrow> 'a list \<Rightarrow> ('k \<times> 'v list) list" where
  "group_into key val xs =
     foldl (\<lambda>acc x. js_map_set acc (key x) (coalesce (js_map_get acc (key x)) [] @ [val x])) [] xs"

lemma group_into_simps [simp]:
  "group_into key val [] = []"
  "group_into key val (xs @ [x]) =
     js_map_set (group_into key val xs) (key x) (coalesce (js_map_get (group_into key val xs) (key x)) [] @ [val x])"
  by (simp_all add: group_into_def)

lemma group_into_get:
  "js_map_get (group_into key val xs) k =
     (let vs = map val (filter (\<lambda>x. key x = k) xs) in if vs = [] then None else Some vs)"
  by (induction xs rule: rev_induct) (auto simp: Let_def filter_empty_conv)

lemma group_into_distinct: "distinct (map fst (group_into key val xs))"
  by (induction xs rule: rev_induct) (simp_all add: distinct_js_map_set)

lemma in_group_into: "(k, vs) \<in> set (group_into key val xs) \<longleftrightarrow> vs = map val (filter (\<lambda>x. key x = k) xs) \<and> vs \<noteq> []"
  using group_into_get [of key val xs k] map_of_eq_Some_iff [OF group_into_distinct, of key val xs k vs]
  by (auto simp: js_map_get_map_of Let_def split: if_splits)

definition no_publish_options :: PublishOptions where
  "no_publish_options = \<lparr>po_priority = None, po_groupId = None, po_dedupId = None,
     po_replyTo = None, po_correlationId = None, po_ttlMs = None, po_headers = None\<rparr>"

definition no_subscribe_options :: SubscribeOptions where
  "no_subscribe_options = \<lparr>so_kind = None, so_routingKey = None, so_subscriberId = None,
     so_deadLetter = None, so_maxDeliveries = None, so_retryDelayMs = None,
     so_partitionByGroup = None, so_singleActiveConsumer = None, so_streamReplay = None,
     so_transient = None, so_priorityQueue = None, so_ttlMs = None\<rparr>"

section \<open>Conventional addresses\<close>

definition DEFAULT_MAX_DELIVERIES :: nat where
  "DEFAULT_MAX_DELIVERIES = 3"

definition deadLetterAddress :: "destination \<Rightarrow> destination" where
  "deadLetterAddress topic = topic @ ''.dlq''"

definition expiryAddress :: "destination \<Rightarrow> destination" where
  "expiryAddress topic = topic @ ''.expiry''"

lemma deadLetterAddress_inject [simp]:
  "deadLetterAddress t = deadLetterAddress t' \<longleftrightarrow> t = t'"
  by (simp add: deadLetterAddress_def)

lemma expiryAddress_inject [simp]: "expiryAddress t = expiryAddress t' \<longleftrightarrow> t = t'"
  by (simp add: expiryAddress_def)

lemma rev_append_eq_last: "xs @ [x] = ys @ [y] \<longleftrightarrow> xs = ys \<and> x = y"
  by simp

lemma deadLetterAddress_neq_expiryAddress: "deadLetterAddress t \<noteq> expiryAddress t'"
proof
  assume "deadLetterAddress t = expiryAddress t'"
  then have "last (t @ ''.dlq'') = last (t' @ ''.expiry'')"
    by (simp only: deadLetterAddress_def expiryAddress_def)
  then show False by simp
qed

lemma deadLetterAddress_neq_self: "deadLetterAddress t \<noteq> t"
  by (simp add: deadLetterAddress_def)

lemma expiryAddress_neq_self: "expiryAddress t \<noteq> t"
  by (simp add: expiryAddress_def)

section \<open>Errors\<close>

datatype js_error =
    NotSupportedError string string "string option"
  | IdempotencyStoreDownError string "string option"
  | TransientFault string
  | Error string

definition quoted :: "string \<Rightarrow> string" where
  "quoted s = CHR 0x27 # s @ [CHR 0x27]"

definition reason_suffix :: "string option \<Rightarrow> string" where
  "reason_suffix r = (case r of None \<Rightarrow> [] | Some s \<Rightarrow> if s = [] then [] else '': '' @ s)"

text \<open>The \<open>message\<close> property each constructor passes to \<open>super\<close>.\<close>

fun error_message :: "js_error \<Rightarrow> string" where
  "error_message (NotSupportedError op brk r) =
     ''Operation '' @ quoted op @ '' is not supported by '' @ brk @ reason_suffix r"
| "error_message (IdempotencyStoreDownError st r) =
     quoted st @ '' Idempotency Store is down or not present'' @ reason_suffix r"
| "error_message (TransientFault m) = m"
| "error_message (Error m) = m"

definition is_NotSupported :: "js_error \<Rightarrow> bool" where
  "is_NotSupported e = (case e of NotSupportedError _ _ _ \<Rightarrow> True | _ \<Rightarrow> False)"

lemma is_NotSupported_simps [simp]:
  "is_NotSupported (NotSupportedError a b c)"
  "\<not> is_NotSupported (IdempotencyStoreDownError x y)"
  "\<not> is_NotSupported (TransientFault m)"
  "\<not> is_NotSupported (Error m)"
  by (simp_all add: is_NotSupported_def)

section \<open>Sequencing\<close>

text \<open>
  \<open>await\<close> of a step followed by the rest: an error ends the operation, and what was done before it stays
  done.
\<close>

definition and_then :: "('s \<Rightarrow> (js_error + 'a) \<times> 's) \<Rightarrow> ('a \<Rightarrow> 's \<Rightarrow> (js_error + 'b) \<times> 's) \<Rightarrow>
    's \<Rightarrow> (js_error + 'b) \<times> 's" where
  "and_then m f s = (case m s of (Inl e, s') \<Rightarrow> (Inl e, s') | (Inr x, s') \<Rightarrow> f x s')"

text \<open>\<open>try { await m } catch {}\<close>: the failure of a step is ignored, its effect stays.\<close>

definition swallow :: "('s \<Rightarrow> (js_error + 'a) \<times> 's) \<Rightarrow> 's \<Rightarrow> (js_error + unit) \<times> 's" where
  "swallow m s = (Inr (), snd (m s))"

lemma and_then_simps [simp]:
  "m s = (Inr x, s') \<Longrightarrow> and_then m f s = f x s'"
  "m s = (Inl e, s') \<Longrightarrow> and_then m f s = (Inl e, s')"
  by (simp_all add: and_then_def)

end
