(* ===== verification/Topic_Match.thy ===== *)
theory Topic_Match
  imports Abstractions
begin

text \<open>
  Routing-key matching of \<open>adapters/in-memory-bus.ts\<close> (\<open>topicMatch\<close> and the recursive
  \<open>match\<close>), with the language it decides: \<open>*\<close> stands for one dot-delimited word and \<open>#\<close>
  for any number of words.
\<close>

section \<open>The matcher\<close>

text \<open>
  \<open>match_at p pi k ki\<close> is \<open>match(p, pi, k, ki)\<close>. Array reads are \<^const>\<open>js_nth\<close>; the
  second test makes the function total where the index has run past the pattern, which no call
  from \<open>topicMatch\<close> does (JavaScript would compare \<open>undefined\<close> there and return false).
\<close>

function match_at :: "string list \<Rightarrow> nat \<Rightarrow> string list \<Rightarrow> nat \<Rightarrow> bool" where
  "match_at p pi k ki =
     (if pi = length p then ki = length k
      else if pi > length p then False
      else if js_nth p pi = Some ''#'' then
        list_ex (\<lambda>n. match_at p (Suc pi) k n) [ki ..< Suc (length k)]
      else if ki = length k then False
      else if js_nth p pi = Some ''*'' \<or> js_nth p pi = js_nth k ki then
        match_at p (Suc pi) k (Suc ki)
      else False)"
  by pat_completeness auto
termination
  by (relation "measure (\<lambda>(p, pi, k, ki). length p - pi)") auto

declare match_at.simps [simp del]

definition topicMatch :: "string \<Rightarrow> string \<Rightarrow> bool" where
  "topicMatch pattern key = match_at (split_on CHR ''.'' pattern) 0 (split_on CHR ''.'' key) 0"

section \<open>The language of a pattern\<close>

inductive matches_words :: "string list \<Rightarrow> string list \<Rightarrow> bool" where
  nil: "matches_words [] []"
| hash: "matches_words ps ws \<Longrightarrow> matches_words (''#'' # ps) (us @ ws)"
| star: "matches_words ps ws \<Longrightarrow> matches_words (''*'' # ps) (w # ws)"
| word: "matches_words ps ws \<Longrightarrow> w \<noteq> ''#'' \<Longrightarrow> matches_words (w # ps) (w # ws)"

inductive_cases matches_words_NilE: "matches_words [] ws"
inductive_cases matches_words_ConsE: "matches_words (p # ps) ws"

lemma matches_words_Nil [simp]: "matches_words [] ws \<longleftrightarrow> ws = []"
  by (auto intro: matches_words.nil elim: matches_words_NilE)

lemma matches_words_hash:
  "matches_words (''#'' # ps) ws \<longleftrightarrow> (\<exists>n \<le> length ws. matches_words ps (drop n ws))"
proof
  assume "matches_words (''#'' # ps) ws"
  then obtain us vs where "ws = us @ vs" and "matches_words ps vs"
    by (auto elim: matches_words_ConsE)
  then show "\<exists>n \<le> length ws. matches_words ps (drop n ws)"
    by (intro exI [of _ "length us"]) simp
next
  assume "\<exists>n \<le> length ws. matches_words ps (drop n ws)"
  then obtain n where "matches_words ps (drop n ws)" by blast
  from matches_words.hash [OF this, of "take n ws"]
  show "matches_words (''#'' # ps) ws" by simp
qed

lemma matches_words_step:
  assumes "p \<noteq> ''#''"
  shows "matches_words (p # ps) ws \<longleftrightarrow>
    (\<exists>w vs. ws = w # vs \<and> (p = ''*'' \<or> p = w) \<and> matches_words ps vs)"
  using assms by (auto intro: matches_words.star matches_words.word elim: matches_words_ConsE)

lemma list_ex_upt_iff: "list_ex P [a ..< Suc b] \<longleftrightarrow> (\<exists>n. a \<le> n \<and> n \<le> b \<and> P n)"
  by (auto simp: list_ex_iff)

lemma ex_between_offset:
  fixes a b :: nat
  assumes "a \<le> b"
  shows "(\<exists>n. a \<le> n \<and> n \<le> b \<and> P n) \<longleftrightarrow> (\<exists>n \<le> b - a. P (n + a))"
proof
  assume "\<exists>n. a \<le> n \<and> n \<le> b \<and> P n"
  then obtain n where "a \<le> n" "n \<le> b" "P n" by blast
  then show "\<exists>n \<le> b - a. P (n + a)" by (intro exI [of _ "n - a"]) auto
next
  assume "\<exists>n \<le> b - a. P (n + a)"
  then obtain n where "n \<le> b - a" "P (n + a)" by blast
  with assms show "\<exists>n. a \<le> n \<and> n \<le> b \<and> P n" by (intro exI [of _ "n + a"]) auto
qed

lemma match_at_drop:
  "pi \<le> length p \<Longrightarrow> ki \<le> length k \<Longrightarrow>
   match_at p pi k ki \<longleftrightarrow> matches_words (drop pi p) (drop ki k)"
proof (induction p pi k ki rule: match_at.induct)
  case (1 p pi k ki)
  show ?case
  proof (cases "pi = length p")
    case True
    with "1.prems" show ?thesis by (subst match_at.simps) auto
  next
    case False
    with "1.prems" have pi: "pi < length p" by simp
    then have d: "drop pi p = p ! pi # drop (Suc pi) p"
      by (simp add: Cons_nth_drop_Suc)
    show ?thesis
    proof (cases "p ! pi = ''#''")
      case True
      have IH: "match_at p (Suc pi) k n \<longleftrightarrow> matches_words (drop (Suc pi) p) (drop n k)"
        if "ki \<le> n" and "n \<le> length k" for n
        using "1.IH"(1) pi True that by (simp del: upt_Suc)
      have "match_at p pi k ki \<longleftrightarrow> (\<exists>n. ki \<le> n \<and> n \<le> length k \<and> match_at p (Suc pi) k n)"
        using pi True by (subst match_at.simps) (simp add: list_ex_upt_iff del: upt_Suc)
      also have "\<dots> \<longleftrightarrow> (\<exists>n. ki \<le> n \<and> n \<le> length k \<and> matches_words (drop (Suc pi) p) (drop n k))"
        using IH by blast
      also have "\<dots> \<longleftrightarrow> (\<exists>n \<le> length (drop ki k). matches_words (drop (Suc pi) p) (drop n (drop ki k)))"
        using ex_between_offset [OF "1.prems"(2)] by simp
      finally show ?thesis using d True by (simp add: matches_words_hash)
    next
      case False
      show ?thesis
      proof (cases "ki = length k")
        case True
        with pi False show ?thesis
          by (subst match_at.simps) (simp add: d matches_words_step)
      next
        case ki: False
        with "1.prems" have "ki < length k" by simp
        then have dk: "drop ki k = k ! ki # drop (Suc ki) k"
          by (simp add: Cons_nth_drop_Suc)
        show ?thesis
          using "1.IH"(2) pi False ki \<open>ki < length k\<close>
          by (subst match_at.simps) (auto simp: d dk matches_words_step)
      qed
    qed
  qed
qed

lemma topicMatch_words:
  "topicMatch pattern key \<longleftrightarrow>
   matches_words (split_on CHR ''.'' pattern) (split_on CHR ''.'' key)"
  by (simp add: topicMatch_def match_at_drop)

text \<open>
  C1. The index-based backtracking matcher decides exactly the wildcard language of the pattern's
  words: \<open>*\<close> stands for exactly one word and \<open>#\<close> for any number of them, also none.
\<close>

theorem topicMatch_iff:
  "topicMatch pattern key \<longleftrightarrow>
   matches_words (split_on CHR ''.'' pattern) (split_on CHR ''.'' key)"
  by (rule topicMatch_words)

section \<open>Consequences the routing relies on\<close>

definition wildcard_free :: "string \<Rightarrow> bool" where
  "wildcard_free s \<longleftrightarrow> ''*'' \<notin> set (split_on CHR ''.'' s) \<and> ''#'' \<notin> set (split_on CHR ''.'' s)"

lemma matches_words_literal:
  "''*'' \<notin> set ps \<Longrightarrow> ''#'' \<notin> set ps \<Longrightarrow> matches_words ps ws \<longleftrightarrow> ps = ws"
proof (induction ps arbitrary: ws)
  case Nil
  then show ?case by auto
next
  case (Cons p ps)
  then have "p \<noteq> ''#''" and "p \<noteq> ''*''" by auto
  moreover have "matches_words ps vs \<longleftrightarrow> ps = vs" for vs
    using Cons by simp
  ultimately show ?case by (auto simp: matches_words_step)
qed

lemma topicMatch_literal: "wildcard_free p \<Longrightarrow> topicMatch p k \<longleftrightarrow> p = k"
  by (simp add: topicMatch_words wildcard_free_def matches_words_literal)

lemma topicMatch_hash: "topicMatch ''#'' k"
  by (simp add: topicMatch_words matches_words_hash) (metis order_refl)

end
