(* ===== verification/Bus_Queue.thy ===== *)
theory Bus_Queue
  imports Topic_Match
begin

text \<open>
  The subscriber queue of \<open>adapters/in-memory-bus.ts\<close>: class \<open>BusQueue\<close> with its round-robin,
  single-active, priority and group-affinity selection, and the loop of \<open>pump\<close> that hands
  pending messages to free consumers.

  Messages are compared by object identity in the source (they are the keys of \<open>inflight\<close>), so a
  message carries the number \<open>bm_ref\<close> of its object. The string \<open>bm_id\<close> is not an
  identity: every replay of the stream log copies it.
\<close>

section \<open>Messages and queues\<close>

record BusMessage =
  bm_ref :: nat
  bm_id :: string
  bm_topic :: destination
  bm_body :: string
  bm_routingKey :: string
  bm_deliveryCount :: nat
  bm_priority :: "int option"
  bm_groupId :: "string option"
  bm_dedupId :: "string option"
  bm_replyTo :: "string option"
  bm_correlationId :: "string option"
  bm_ttlMs :: "millis option"
  bm_headers :: "headers option"

record BusQueue =
  bq_pending :: "BusMessage list"
  bq_inflight :: "(BusMessage \<times> handler) list"
  bq_consumers :: "handler list"
  bq_rr :: nat
  bq_groupAffinity :: "string \<rightharpoonup> handler"
  bq_topic :: destination
  bq_kind :: TopologyKind
  bq_routingKey :: "string option"
  bq_maxDeliveries :: nat
  bq_deadLetter :: bool
  bq_retryDelayMs :: "millis option"
  bq_partitionByGroup :: bool
  bq_singleActiveConsumer :: bool

definition mk_queue :: "destination \<Rightarrow> TopologyKind \<Rightarrow> string option \<Rightarrow> nat \<Rightarrow> bool \<Rightarrow>
    millis option \<Rightarrow> bool \<Rightarrow> bool \<Rightarrow> BusQueue" where
  "mk_queue topic kind routingKey maxDeliveries deadLetter retryDelayMs byGroup sac =
     \<lparr>bq_pending = [], bq_inflight = [], bq_consumers = [], bq_rr = 0,
      bq_groupAffinity = Map.empty, bq_topic = topic, bq_kind = kind,
      bq_routingKey = routingKey, bq_maxDeliveries = maxDeliveries,
      bq_deadLetter = deadLetter, bq_retryDelayMs = retryDelayMs,
      bq_partitionByGroup = byGroup, bq_singleActiveConsumer = sac\<rparr>"

definition bq_busy :: "BusQueue \<Rightarrow> handler set" where
  "bq_busy q = set (map snd (bq_inflight q))"

text \<open>An absent or empty filter string takes every key of a topic queue.\<close>

definition matches :: "BusQueue \<Rightarrow> string \<Rightarrow> bool" where
  "matches q messageKey =
     (if bq_kind q = Fanout then True
      else case bq_routingKey q of
        None \<Rightarrow> True
      | Some rk \<Rightarrow> if rk = [] then True else topicMatch rk messageKey)"

section \<open>Choosing a free consumer\<close>

text \<open>
  The loop shared by \<open>nextConsumer\<close> and \<open>pickFreeConsumer\<close>: at most \<open>n\<close> probes of
  \<open>consumers[rr % consumers.length]\<close>, advancing \<open>rr\<close> at each.
\<close>

fun rr_scan :: "nat \<Rightarrow> handler list \<Rightarrow> handler set \<Rightarrow> nat \<Rightarrow> nat \<times> handler option" where
  "rr_scan 0 cs busy rr = (rr, None)"
| "rr_scan (Suc n) cs busy rr =
     (let c = cs ! (rr mod length cs)
      in if c \<notin> busy then (Suc rr, Some c) else rr_scan n cs busy (Suc rr))"

definition pickFreeConsumer :: "handler list \<Rightarrow> handler set \<Rightarrow> nat \<Rightarrow> nat \<times> handler option" where
  "pickFreeConsumer cs busy rr = rr_scan (length cs) cs busy rr"

definition nextConsumer :: "BusQueue \<Rightarrow> BusQueue \<times> handler option" where
  "nextConsumer q =
     (if bq_consumers q = [] then (q, None)
      else if bq_singleActiveConsumer q then
        (q, if bq_inflight q = [] then Some (hd (bq_consumers q)) else None)
      else
        (let (rr', c) = rr_scan (length (bq_consumers q)) (bq_consumers q) (bq_busy q) (bq_rr q)
         in (q\<lparr>bq_rr := rr'\<rparr>, c)))"

lemma rr_scan_Some:
  "rr_scan n cs busy rr = (rr', Some c) \<Longrightarrow> cs \<noteq> [] \<Longrightarrow> c \<in> set cs \<and> c \<notin> busy"
  by (induction n arbitrary: rr) (auto simp: Let_def split: if_splits)

lemma rr_scan_None_probes:
  "rr_scan n cs busy rr = (rr', None) \<Longrightarrow> i < n \<Longrightarrow> cs ! ((rr + i) mod length cs) \<in> busy"
proof (induction n arbitrary: rr i)
  case 0
  then show ?case by simp
next
  case (Suc n)
  from Suc.prems(1) have head: "cs ! (rr mod length cs) \<in> busy"
    and rest: "rr_scan n cs busy (Suc rr) = (rr', None)"
    by (auto simp: Let_def split: if_splits)
  show ?case
  proof (cases i)
    case 0
    with head show ?thesis by simp
  next
    case (Suc j)
    with Suc.prems(2) have "j < n" by simp
    from Suc.IH [OF rest this] Suc show ?thesis by simp
  qed
qed

lemma mod_offset_onto:
  fixes j n rr :: nat
  assumes "j < n"
  shows "\<exists>i < n. (rr + i) mod n = j"
proof (cases "rr mod n \<le> j")
  case True
  have "(rr + (j - rr mod n)) mod n = (rr mod n + (j - rr mod n)) mod n"
    by (simp add: mod_add_left_eq)
  with True assms show ?thesis by (intro exI [of _ "j - rr mod n"]) auto
next
  case False
  have r: "rr mod n < n" using assms by simp
  have "(rr + (n + j - rr mod n)) mod n = (rr mod n + (n + j - rr mod n)) mod n"
    by (simp add: mod_add_left_eq)
  also have "rr mod n + (n + j - rr mod n) = n + j" using r by linarith
  also have "(n + j) mod n = j" using assms by simp
  finally show ?thesis using False r by (intro exI [of _ "n + j - rr mod n"]) auto
qed

lemma rr_scan_None_iff:
  "snd (rr_scan (length cs) cs busy rr) = None \<longleftrightarrow> set cs \<subseteq> busy"
proof
  assume none: "snd (rr_scan (length cs) cs busy rr) = None"
  show "set cs \<subseteq> busy"
  proof
    fix c assume "c \<in> set cs"
    then obtain j where j: "j < length cs" "cs ! j = c" by (auto simp: in_set_conv_nth)
    from mod_offset_onto [OF j(1), of rr] obtain i
      where i: "i < length cs" "(rr + i) mod length cs = j" by blast
    from none obtain rr' where "rr_scan (length cs) cs busy rr = (rr', None)"
      by (cases "rr_scan (length cs) cs busy rr") auto
    from rr_scan_None_probes [OF this i(1)] i(2) j(2) show "c \<in> busy" by simp
  qed
next
  assume sub: "set cs \<subseteq> busy"
  show "snd (rr_scan (length cs) cs busy rr) = None"
  proof (cases "snd (rr_scan (length cs) cs busy rr)")
    case None
    then show ?thesis .
  next
    case (Some c)
    then obtain rr' where eq: "rr_scan (length cs) cs busy rr = (rr', Some c)"
      by (cases "rr_scan (length cs) cs busy rr") auto
    then have "cs \<noteq> []" by (cases cs) auto
    from rr_scan_Some [OF eq this] sub show ?thesis by auto
  qed
qed

section \<open>Choosing a message\<close>

definition prio :: "BusMessage \<Rightarrow> int" where
  "prio m = coalesce (bm_priority m) 0"

text \<open>The loop \<open>for (let i = 1; i < pending.length; i++)\<close> that keeps the best index so far.\<close>

definition best_index :: "BusMessage list \<Rightarrow> nat" where
  "best_index ps =
     foldl (\<lambda>best i. if prio (ps ! i) > prio (ps ! best) then i else best) 0 [1 ..< length ps]"

definition nextPending :: "BusQueue \<Rightarrow> BusQueue \<times> BusMessage option" where
  "nextPending q =
     (if bq_pending q = [] then (q, None)
      else (q\<lparr>bq_pending := splice1 (best_index (bq_pending q)) (bq_pending q)\<rparr>,
            Some (bq_pending q ! best_index (bq_pending q))))"

text \<open>The best index after \<open>n\<close> messages: leftmost among those of highest priority.\<close>

definition leftmost_best :: "BusMessage list \<Rightarrow> nat \<Rightarrow> nat \<Rightarrow> bool" where
  "leftmost_best ps n b \<longleftrightarrow> b < n \<and> (\<forall>j < n. prio (ps ! j) \<le> prio (ps ! b)) \<and>
     (\<forall>j < b. prio (ps ! j) < prio (ps ! b))"

lemma leftmost_best_fold:
  "leftmost_best ps (Suc n)
     (foldl (\<lambda>best i. if prio (ps ! i) > prio (ps ! best) then i else best) 0 [1 ..< Suc n])"
proof (induction n)
  case 0
  then show ?case by (simp add: leftmost_best_def)
next
  case (Suc n)
  let ?b = "foldl (\<lambda>best i. if prio (ps ! i) > prio (ps ! best) then i else best) 0 [1 ..< Suc n]"
  have "[1 ..< Suc (Suc n)] = [1 ..< Suc n] @ [Suc n]" by simp
  then have "foldl (\<lambda>best i. if prio (ps ! i) > prio (ps ! best) then i else best) 0 [1 ..< Suc (Suc n)]
      = (if prio (ps ! Suc n) > prio (ps ! ?b) then Suc n else ?b)"
    by (simp only: foldl_append) simp
  with Suc.IH show ?case
    by (auto simp: leftmost_best_def less_Suc_eq intro: order.strict_trans1 less_imp_le)
qed

lemma best_index_leftmost: "ps \<noteq> [] \<Longrightarrow> leftmost_best ps (length ps) (best_index ps)"
  using leftmost_best_fold [of ps "length ps - 1"] by (simp add: best_index_def)

lemma best_index_less: "ps \<noteq> [] \<Longrightarrow> best_index ps < length ps"
  using best_index_leftmost by (auto simp: leftmost_best_def)

lemma best_index_const:
  assumes "ps \<noteq> []" and "\<forall>m \<in> set ps. prio m = k"
  shows "best_index ps = 0"
proof (rule ccontr)
  assume "best_index ps \<noteq> 0"
  with best_index_leftmost [OF assms(1)] have "prio (ps ! 0) < prio (ps ! best_index ps)"
    by (simp add: leftmost_best_def)
  moreover have "ps ! 0 \<in> set ps" and "ps ! best_index ps \<in> set ps"
    using assms(1) best_index_less by auto
  ultimately show False using assms(2) by simp
qed

section \<open>Group affinity\<close>

definition group_of :: "BusMessage \<Rightarrow> string" where
  "group_of m = coalesce (bm_groupId m) []"

text \<open>
  The body of \<open>nextGroupDelivery\<close>'s loop over \<open>pending\<close>, from index \<open>i\<close> on. The affinity
  map and \<open>rr\<close> change while the scan runs, also in iterations that deliver nothing: a group whose
  owner has left is unpinned, and every failed search for a free consumer advances \<open>rr\<close>.
\<close>

fun group_scan :: "handler list \<Rightarrow> handler set \<Rightarrow> nat \<Rightarrow> BusMessage list \<Rightarrow> (string \<rightharpoonup> handler) \<Rightarrow>
    nat \<Rightarrow> (string \<rightharpoonup> handler) \<times> nat \<times> (nat \<times> BusMessage \<times> handler) option" where
  "group_scan cs busy i [] aff rr = (aff, rr, None)"
| "group_scan cs busy i (msg # rest) aff rr =
     (let g = group_of msg;
          aff' = (case aff g of
                    Some c \<Rightarrow> if c \<notin> set cs then aff(g := None) else aff
                  | None \<Rightarrow> aff)
      in case aff' g of
           Some c \<Rightarrow>
             if c \<in> busy then group_scan cs busy (Suc i) rest aff' rr
             else (aff', rr, Some (i, msg, c))
         | None \<Rightarrow>
             (case pickFreeConsumer cs busy rr of
                (rr', None) \<Rightarrow> group_scan cs busy (Suc i) rest aff' rr'
              | (rr', Some c) \<Rightarrow> (aff'(g \<mapsto> c), rr', Some (i, msg, c))))"

definition nextGroupDelivery :: "BusQueue \<Rightarrow> BusQueue \<times> (BusMessage \<times> handler) option" where
  "nextGroupDelivery q =
     (if bq_consumers q = [] \<or> bq_pending q = [] then (q, None)
      else case group_scan (bq_consumers q) (bq_busy q) 0 (bq_pending q)
                  (bq_groupAffinity q) (bq_rr q) of
        (aff, rr, None) \<Rightarrow> (q\<lparr>bq_groupAffinity := aff, bq_rr := rr\<rparr>, None)
      | (aff, rr, Some (i, msg, c)) \<Rightarrow>
          (q\<lparr>bq_groupAffinity := aff, bq_rr := rr,
             bq_pending := splice1 i (bq_pending q)\<rparr>, Some (msg, c)))"


text \<open>
  The owner that counts: an affinity entry whose consumer is no longer attached is as good as
  none. A group is blocked when its owner holds a message, or when it has no owner and every
  consumer holds one.
\<close>

definition owner_of :: "handler list \<Rightarrow> (string \<rightharpoonup> handler) \<Rightarrow> string \<rightharpoonup> handler" where
  "owner_of cs aff g =
     (case aff g of None \<Rightarrow> None | Some c \<Rightarrow> if c \<in> set cs then Some c else None)"

definition blocked :: "handler list \<Rightarrow> handler set \<Rightarrow> (string \<rightharpoonup> handler) \<Rightarrow> string \<Rightarrow> bool" where
  "blocked cs busy aff g =
     (case owner_of cs aff g of None \<Rightarrow> set cs \<subseteq> busy | Some c \<Rightarrow> c \<in> busy)"

lemma owner_of_unpin: "aff g = Some c \<Longrightarrow> c \<notin> set cs \<Longrightarrow> owner_of cs (aff(g := None)) = owner_of cs aff"
  by (rule ext) (simp add: owner_of_def)

lemma owner_of_pin: "c \<in> set cs \<Longrightarrow> owner_of cs (aff(g \<mapsto> c)) = (owner_of cs aff)(g \<mapsto> c)"
  by (rule ext) (simp add: owner_of_def)

lemma owner_of_in: "owner_of cs aff g = Some c \<Longrightarrow> c \<in> set cs \<and> aff g = Some c"
  by (simp add: owner_of_def split: option.splits if_splits)

definition scan_result :: "handler list \<Rightarrow> handler set \<Rightarrow> nat \<Rightarrow> BusMessage list \<Rightarrow>
    (string \<rightharpoonup> handler) \<Rightarrow> (string \<rightharpoonup> handler) \<Rightarrow> (nat \<times> BusMessage \<times> handler) option \<Rightarrow> bool" where
  "scan_result cs busy i ms aff aff' r =
     (case r of
        None \<Rightarrow> (\<forall>m \<in> set ms. blocked cs busy aff (group_of m)) \<and>
                owner_of cs aff' = owner_of cs aff
      | Some (k, m, c) \<Rightarrow>
          (\<exists>pre post. ms = pre @ m # post \<and> k = i + length pre \<and>
             (\<forall>x \<in> set pre. blocked cs busy aff (group_of x))) \<and>
          \<not> blocked cs busy aff (group_of m) \<and> c \<in> set cs \<and> c \<notin> busy \<and>
          owner_of cs aff (group_of m) \<in> {None, Some c} \<and>
          owner_of cs aff' = (owner_of cs aff)(group_of m \<mapsto> c))"

lemma scan_result_skip:
  assumes "scan_result cs busy (Suc i) ms aff1 aff' r"
    and "owner_of cs aff1 = owner_of cs aff"
    and "blocked cs busy aff (group_of m)"
  shows "scan_result cs busy i (m # ms) aff aff' r"
proof -
  have b: "blocked cs busy aff1 g = blocked cs busy aff g" for g
    using assms(2) by (simp add: blocked_def)
  show ?thesis
  proof (cases r)
    case None
    with assms b show ?thesis by (simp add: scan_result_def)
  next
    case (Some x)
    obtain k m' c where x: "x = (k, m', c)" by (cases x) auto
    from assms(1) Some x b obtain pre post
      where pp: "ms = pre @ m' # post" "k = Suc i + length pre"
        "\<forall>y \<in> set pre. blocked cs busy aff (group_of y)"
      by (auto simp: scan_result_def)
    then have "m # ms = (m # pre) @ m' # post" and "k = i + length (m # pre)"
      and "\<forall>y \<in> set (m # pre). blocked cs busy aff (group_of y)"
      using assms(3) by simp_all
    then have "\<exists>pre post. m # ms = pre @ m' # post \<and> k = i + length pre \<and>
        (\<forall>y \<in> set pre. blocked cs busy aff (group_of y))"
      by (intro exI [of _ "m # pre"] exI [of _ post] conjI)
    then show ?thesis
      using assms(1,2) b Some x by (simp add: scan_result_def)
  qed
qed

lemma scan_result_hit:
  assumes "c \<in> set cs" "c \<notin> busy" "owner_of cs aff (group_of m) \<in> {None, Some c}"
    and "owner_of cs aff' = (owner_of cs aff)(group_of m \<mapsto> c)"
  shows "scan_result cs busy i (m # ms) aff aff' (Some (i, m, c))"
proof -
  have "\<exists>pre post. m # ms = pre @ m # post \<and> i = i + length pre \<and>
      (\<forall>x \<in> set pre. blocked cs busy aff (group_of x))"
    by (intro exI [of _ "[]"] exI [of _ ms]) simp
  moreover have "\<not> blocked cs busy aff (group_of m)"
    using assms(1-3) by (auto simp: blocked_def split: option.splits)
  ultimately show ?thesis using assms by (simp add: scan_result_def)
qed

lemma pickFreeConsumer_None_iff:
  "snd (pickFreeConsumer cs busy rr) = None \<longleftrightarrow> set cs \<subseteq> busy"
  by (simp add: pickFreeConsumer_def rr_scan_None_iff)

lemma pickFreeConsumer_Some:
  "pickFreeConsumer cs busy rr = (rr', Some c) \<Longrightarrow> c \<in> set cs \<and> c \<notin> busy"
  unfolding pickFreeConsumer_def by (cases "cs = []") (auto dest: rr_scan_Some)

lemma group_scan_result:
  "group_scan cs busy i ms aff rr = (aff', rr', r) \<Longrightarrow> scan_result cs busy i ms aff aff' r"
proof (induction ms arbitrary: i aff rr)
  case Nil
  then show ?case by (simp add: scan_result_def)
next
  case (Cons m ms)
  let ?g = "group_of m"
  let ?aff = "case aff ?g of Some c \<Rightarrow> if c \<notin> set cs then aff(?g := None) else aff | None \<Rightarrow> aff"
  have own: "owner_of cs ?aff = owner_of cs aff"
    by (auto split: option.splits simp: owner_of_unpin)
  have eff: "?aff ?g = owner_of cs aff ?g"
    by (auto simp: owner_of_def split: option.splits)
  show ?case
  proof (cases "?aff ?g")
    case None
    show ?thesis
    proof (cases "pickFreeConsumer cs busy rr")
      case (Pair rr1 found)
      show ?thesis
      proof (cases found)
        case None': None
        with Pair pickFreeConsumer_None_iff [of cs busy rr] have "set cs \<subseteq> busy" by simp
        then have "blocked cs busy aff ?g" using None eff by (simp add: blocked_def)
        moreover have "group_scan cs busy (Suc i) ms ?aff rr1 = (aff', rr', r)"
          using Cons.prems None Pair None' by (simp add: Let_def)
        ultimately show ?thesis using Cons.IH own scan_result_skip by blast
      next
        case (Some c)
        with Pair have c: "c \<in> set cs" "c \<notin> busy" by (auto dest: pickFreeConsumer_Some)
        have "r = Some (i, m, c)" and "aff' = ?aff(?g \<mapsto> c)"
          using Cons.prems None Pair Some by (auto simp: Let_def)
        have "owner_of cs aff' = (owner_of cs aff)(?g \<mapsto> c)"
          unfolding \<open>aff' = _\<close> owner_of_pin [OF c(1)] own ..
        moreover have "owner_of cs aff ?g = None" using eff None by simp
        ultimately show ?thesis
          unfolding \<open>r = _\<close> using c by (intro scan_result_hit) simp_all
      qed
    qed
  next
    case (Some c)
    with eff have own_g: "owner_of cs aff ?g = Some c" by simp
    show ?thesis
    proof (cases "c \<in> busy")
      case True
      then have "blocked cs busy aff ?g" using own_g by (simp add: blocked_def)
      moreover have "group_scan cs busy (Suc i) ms ?aff rr = (aff', rr', r)"
        using Cons.prems Some True by (simp add: Let_def)
      ultimately show ?thesis using Cons.IH own scan_result_skip by blast
    next
      case False
      have "r = Some (i, m, c)" and "aff' = ?aff"
        using Cons.prems Some False by (auto simp: Let_def)
      moreover have "(owner_of cs aff)(?g \<mapsto> c) = owner_of cs aff" using own_g by auto
      ultimately show ?thesis
        using False own own_g owner_of_in [OF own_g] by (auto intro!: scan_result_hit)
    qed
  qed
qed

end
