(* ===== verification/Queue_Pump.thy ===== *)
theory Queue_Pump
  imports Bus_Queue
begin

text \<open>
  The delivery loop of \<open>InMemoryBus.pump\<close> on one queue, the interface its two selection
  policies share, and the invariant of a queue.
\<close>

section \<open>In-flight messages\<close>

text \<open>\<open>inflight\<close> is a \<open>Map\<close> keyed by the message object.\<close>

definition inflight_get :: "nat \<Rightarrow> (BusMessage \<times> handler) list \<Rightarrow> (BusMessage \<times> handler) option" where
  "inflight_get r xs = find (\<lambda>(m, c). bm_ref m = r) xs"

definition inflight_set :: "BusMessage \<Rightarrow> handler \<Rightarrow> (BusMessage \<times> handler) list \<Rightarrow>
    (BusMessage \<times> handler) list" where
  "inflight_set m c xs =
     (if \<exists>x \<in> set xs. bm_ref (fst x) = bm_ref m
      then map (\<lambda>(m', c'). if bm_ref m' = bm_ref m then (m, c) else (m', c')) xs
      else xs @ [(m, c)])"

definition inflight_delete :: "nat \<Rightarrow> (BusMessage \<times> handler) list \<Rightarrow> (BusMessage \<times> handler) list" where
  "inflight_delete r xs = filter (\<lambda>(m, c). bm_ref m \<noteq> r) xs"

section \<open>The pump\<close>

definition plainDelivery :: "BusQueue \<Rightarrow> BusQueue \<times> (BusMessage \<times> handler) option" where
  "plainDelivery q =
     (case nextConsumer q of
        (q1, None) \<Rightarrow> (q1, None)
      | (q1, Some c) \<Rightarrow>
          (case nextPending q1 of
             (q2, None) \<Rightarrow> (q2, None)
           | (q2, Some m) \<Rightarrow> (q2, Some (m, c))))"

definition nextDelivery :: "BusQueue \<Rightarrow> BusQueue \<times> (BusMessage \<times> handler) option" where
  "nextDelivery q = (if bq_partitionByGroup q then nextGroupDelivery q else plainDelivery q)"

text \<open>\<open>msg.deliveryCount += 1; queue.inflight.set(msg, consumer)\<close>.\<close>

definition count_delivery :: "BusMessage \<Rightarrow> BusMessage" where
  "count_delivery m = m\<lparr>bm_deliveryCount := Suc (bm_deliveryCount m)\<rparr>"

definition hand_out :: "BusQueue \<Rightarrow> BusMessage \<Rightarrow> handler \<Rightarrow> BusQueue" where
  "hand_out q m c = q\<lparr>bq_inflight := inflight_set (count_delivery m) c (bq_inflight q)\<rparr>"

section \<open>What a selection policy promises\<close>

text \<open>The fields fixed when the queue is created, and a message without its attempt counter.\<close>

definition config :: "BusQueue \<Rightarrow> BusQueue" where
  "config q = q\<lparr>bq_pending := [], bq_inflight := [], bq_consumers := [], bq_rr := 0,
     bq_groupAffinity := Map.empty\<rparr>"

definition bare :: "BusMessage \<Rightarrow> BusMessage" where
  "bare m = m\<lparr>bm_deliveryCount := 0\<rparr>"

lemma bare_simps [simp]:
  "bm_ref (bare m) = bm_ref m" "bm_body (bare m) = bm_body m"
  "bm_routingKey (bare m) = bm_routingKey m" "bm_topic (bare m) = bm_topic m"
  "bare (bare m) = bare m" "bare (count_delivery m) = bare m"
  "bm_ref (count_delivery m) = bm_ref m" "group_of (count_delivery m) = group_of m"
  by (simp_all add: bare_def count_delivery_def group_of_def)

text \<open>No free consumer for this message now.\<close>

definition stuck :: "BusQueue \<Rightarrow> BusMessage \<Rightarrow> bool" where
  "stuck q m =
     (if bq_partitionByGroup q then
        blocked (bq_consumers q) (bq_busy q) (bq_groupAffinity q) (group_of m)
      else if bq_singleActiveConsumer q then bq_inflight q \<noteq> []
      else set (bq_consumers q) \<subseteq> bq_busy q)"

definition saturated :: "BusQueue \<Rightarrow> bool" where
  "saturated q \<longleftrightarrow> bq_consumers q = [] \<or> (\<forall>m \<in> set (bq_pending q). stuck q m)"

text \<open>
  The messages a queue holds, counted once wherever they are: waiting or in flight.
\<close>

definition held :: "BusQueue \<Rightarrow> BusMessage multiset" where
  "held q = mset (map bare (bq_pending q)) + mset (map (bare \<circ> fst) (bq_inflight q))"

text \<open>
  The invariant of a queue: no message object is in two places, only attached consumers hold
  messages, each holds at most one (prefetch 1), a single-active queue has at most one message
  out, and a partitioned queue hands every message to the owner of its group.
\<close>

definition queue_ok :: "BusQueue \<Rightarrow> bool" where
  "queue_ok q \<longleftrightarrow>
     distinct (map bm_ref (bq_pending q) @ map (bm_ref \<circ> fst) (bq_inflight q)) \<and>
     bq_busy q \<subseteq> set (bq_consumers q) \<and>
     distinct (map snd (bq_inflight q)) \<and>
     (bq_singleActiveConsumer q \<and> \<not> bq_partitionByGroup q \<longrightarrow> length (bq_inflight q) \<le> 1) \<and>
     (bq_partitionByGroup q \<longrightarrow>
        (\<forall>(m, c) \<in> set (bq_inflight q).
           owner_of (bq_consumers q) (bq_groupAffinity q) (group_of m) = Some c))"

lemma config_sel:
  "bq_topic (config q) = bq_topic q" "bq_kind (config q) = bq_kind q"
  "bq_routingKey (config q) = bq_routingKey q" "bq_maxDeliveries (config q) = bq_maxDeliveries q"
  "bq_deadLetter (config q) = bq_deadLetter q" "bq_retryDelayMs (config q) = bq_retryDelayMs q"
  "bq_partitionByGroup (config q) = bq_partitionByGroup q"
  "bq_singleActiveConsumer (config q) = bq_singleActiveConsumer q"
  by (simp_all add: config_def)

lemma config_fields:
  assumes "config q' = config q"
  shows "bq_topic q' = bq_topic q" "bq_kind q' = bq_kind q" "bq_routingKey q' = bq_routingKey q"
    "bq_maxDeliveries q' = bq_maxDeliveries q" "bq_deadLetter q' = bq_deadLetter q"
    "bq_retryDelayMs q' = bq_retryDelayMs q" "bq_partitionByGroup q' = bq_partitionByGroup q"
    "bq_singleActiveConsumer q' = bq_singleActiveConsumer q"
proof -
  show "bq_topic q' = bq_topic q" by (metis assms config_sel(1))
  show "bq_kind q' = bq_kind q" by (metis assms config_sel(2))
  show "bq_routingKey q' = bq_routingKey q" by (metis assms config_sel(3))
  show "bq_maxDeliveries q' = bq_maxDeliveries q" by (metis assms config_sel(4))
  show "bq_deadLetter q' = bq_deadLetter q" by (metis assms config_sel(5))
  show "bq_retryDelayMs q' = bq_retryDelayMs q" by (metis assms config_sel(6))
  show "bq_partitionByGroup q' = bq_partitionByGroup q" by (metis assms config_sel(7))
  show "bq_singleActiveConsumer q' = bq_singleActiveConsumer q" by (metis assms config_sel(8))
qed

lemma config_upd [simp]:
  "config (q\<lparr>bq_pending := ps\<rparr>) = config q" "config (q\<lparr>bq_inflight := xs\<rparr>) = config q"
  "config (q\<lparr>bq_consumers := cs\<rparr>) = config q" "config (q\<lparr>bq_rr := n\<rparr>) = config q"
  "config (q\<lparr>bq_groupAffinity := aff\<rparr>) = config q"
  by (simp_all add: config_def)

lemma config_matches: "config q' = config q \<Longrightarrow> matches q' k = matches q k"
  using config_fields(2,3) [of q' q] by (simp add: matches_def)

lemma bq_busy_upd [simp]:
  "bq_busy (q\<lparr>bq_pending := ps\<rparr>) = bq_busy q" "bq_busy (q\<lparr>bq_consumers := cs\<rparr>) = bq_busy q"
  "bq_busy (q\<lparr>bq_rr := n\<rparr>) = bq_busy q" "bq_busy (q\<lparr>bq_groupAffinity := aff\<rparr>) = bq_busy q"
  by (simp_all add: bq_busy_def)

text \<open>
  The interface between the pump and the policy that picks the next (message, consumer) pair:
  the policy takes one waiting message out of the queue, gives it to an attached consumer that
  holds nothing, leaves the rest alone, and fails only when every waiting message is stuck.
\<close>

locale delivery_source =
  fixes pick :: "BusQueue \<Rightarrow> BusQueue \<times> (BusMessage \<times> handler) option"
    and applies :: "BusQueue \<Rightarrow> bool"
  assumes frame: "applies q \<Longrightarrow> pick q = (q', r) \<Longrightarrow>
      config q' = config q \<and> bq_consumers q' = bq_consumers q \<and> bq_inflight q' = bq_inflight q"
    and takes: "applies q \<Longrightarrow> pick q = (q', Some (m, c)) \<Longrightarrow>
      \<exists>pre post. bq_pending q = pre @ m # post \<and> bq_pending q' = pre @ post"
    and free: "applies q \<Longrightarrow> pick q = (q', Some (m, c)) \<Longrightarrow>
      c \<in> set (bq_consumers q) \<and> c \<notin> bq_busy q"
    and single: "applies q \<Longrightarrow> pick q = (q', Some (m, c)) \<Longrightarrow>
      bq_singleActiveConsumer q \<Longrightarrow> \<not> bq_partitionByGroup q \<Longrightarrow> bq_inflight q = []"
    and pinned: "applies q \<Longrightarrow> pick q = (q', Some (m, c)) \<Longrightarrow> bq_partitionByGroup q \<Longrightarrow>
      owner_of (bq_consumers q) (bq_groupAffinity q') (group_of m) = Some c"
    and keeps_owner: "applies q \<Longrightarrow> pick q = (q', r) \<Longrightarrow>
      owner_of (bq_consumers q) (bq_groupAffinity q) g = Some d \<Longrightarrow>
      owner_of (bq_consumers q) (bq_groupAffinity q') g = Some d"
    and refuses: "applies q \<Longrightarrow> pick q = (q', None) \<Longrightarrow>
      bq_pending q' = bq_pending q \<and> saturated q'"
begin

lemma shortens:
  "applies q \<Longrightarrow> pick q = (q', Some (m, c)) \<Longrightarrow> length (bq_pending q') < length (bq_pending q)"
  using takes by fastforce

lemma fresh_ref:
  assumes "applies q" "pick q = (q', Some (m, c))" "queue_ok q"
  shows "bm_ref m \<notin> (bm_ref \<circ> fst) ` set (bq_inflight q)"
  using takes [OF assms(1,2)] assms(3) by (auto simp: queue_ok_def)

lemma hand_out_inflight:
  assumes "applies q" "pick q = (q', Some (m, c))" "queue_ok q"
  shows "bq_inflight (hand_out q' m c) = bq_inflight q @ [(count_delivery m, c)]"
  using fresh_ref [OF assms] frame [OF assms(1,2)]
  by (auto simp: hand_out_def inflight_set_def image_iff)

lemma hand_out_held:
  assumes "applies q" "pick q = (q', Some (m, c))" "queue_ok q"
  shows "held (hand_out q' m c) = held q"
proof -
  obtain pre post where "bq_pending q = pre @ m # post" "bq_pending q' = pre @ post"
    using takes [OF assms(1,2)] by blast
  moreover have "bq_pending (hand_out q' m c) = bq_pending q'" by (simp add: hand_out_def)
  ultimately show ?thesis
    using hand_out_inflight [OF assms] by (simp add: held_def)
qed

lemma hand_out_ok:
  assumes ap: "applies q" and pk: "pick q = (q', Some (m, c))" and ok: "queue_ok q"
  shows "queue_ok (hand_out q' m c)"
proof -
  obtain pre post where pp: "bq_pending q = pre @ m # post" "bq_pending q' = pre @ post"
    using takes [OF ap pk] by blast
  note fr = frame [OF ap pk] and inf = hand_out_inflight [OF ap pk ok]
  have same: "bq_pending (hand_out q' m c) = bq_pending q'"
    "bq_consumers (hand_out q' m c) = bq_consumers q"
    "bq_groupAffinity (hand_out q' m c) = bq_groupAffinity q'"
    "bq_singleActiveConsumer (hand_out q' m c) = bq_singleActiveConsumer q"
    "bq_partitionByGroup (hand_out q' m c) = bq_partitionByGroup q"
    using fr config_fields [of q' q] by (simp_all add: hand_out_def)
  have "distinct (map bm_ref (bq_pending q') @ map (bm_ref \<circ> fst) (bq_inflight q @ [(count_delivery m, c)]))"
    using ok pp by (auto simp: queue_ok_def)
  moreover have "bq_busy (hand_out q' m c) = insert c (bq_busy q)"
    using inf by (simp add: bq_busy_def)
  moreover have "distinct (map snd (bq_inflight q @ [(count_delivery m, c)]))"
    using ok free [OF ap pk] by (simp add: queue_ok_def bq_busy_def)
  moreover have "bq_partitionByGroup q \<longrightarrow>
      (\<forall>(x, d) \<in> set (bq_inflight q @ [(count_delivery m, c)]).
         owner_of (bq_consumers q) (bq_groupAffinity q') (group_of x) = Some d)"
    using ok keeps_owner [OF ap pk] pinned [OF ap pk] by (auto simp: queue_ok_def)
  ultimately show ?thesis
    using ok free [OF ap pk] single [OF ap pk] inf same by (auto simp: queue_ok_def)
qed

end


section \<open>Both policies keep the promise\<close>

lemma nextConsumer_frame:
  "nextConsumer q = (q', r) \<Longrightarrow>
     config q' = config q \<and> bq_consumers q' = bq_consumers q \<and> bq_inflight q' = bq_inflight q \<and>
     bq_pending q' = bq_pending q \<and> bq_groupAffinity q' = bq_groupAffinity q"
  by (auto simp: nextConsumer_def Let_def split: if_splits prod.splits)

lemma nextConsumer_Some:
  assumes "nextConsumer q = (q', Some c)"
  shows "c \<in> set (bq_consumers q) \<and> c \<notin> bq_busy q \<and>
    (bq_singleActiveConsumer q \<longrightarrow> bq_inflight q = [])"
  using assms rr_scan_Some
  by (auto simp: nextConsumer_def bq_busy_def Let_def split: if_splits prod.splits)

lemma nextConsumer_None:
  assumes "nextConsumer q = (q', None)"
  shows "bq_consumers q = [] \<or>
    (if bq_singleActiveConsumer q then bq_inflight q \<noteq> [] else set (bq_consumers q) \<subseteq> bq_busy q)"
  using assms rr_scan_None_iff [of "bq_consumers q" "bq_busy q" "bq_rr q"]
  by (auto simp: nextConsumer_def Let_def split: if_splits prod.splits)

lemma nextPending_Some:
  assumes "nextPending q = (q', Some m)"
  shows "\<exists>pre post. bq_pending q = pre @ m # post \<and> bq_pending q' = pre @ post \<and>
    q' = q\<lparr>bq_pending := pre @ post\<rparr> \<and>
    (\<forall>x \<in> set pre. prio x < prio m) \<and> (\<forall>x \<in> set post. prio x \<le> prio m)"
proof -
  let ?ps = "bq_pending q" and ?b = "best_index (bq_pending q)"
  have ne: "?ps \<noteq> []" and q': "q' = q\<lparr>bq_pending := splice1 ?b ?ps\<rparr>" and m: "m = ?ps ! ?b"
    using assms by (auto simp: nextPending_def split: if_splits)
  have lb: "leftmost_best ?ps (length ?ps) ?b" by (rule best_index_leftmost [OF ne])
  then have b: "?b < length ?ps" by (simp add: leftmost_best_def)
  have "?ps = take ?b ?ps @ m # drop (Suc ?b) ?ps"
    unfolding m by (rule id_take_nth_drop [OF b])
  moreover have "\<forall>x \<in> set (take ?b ?ps). prio x < prio m"
    using lb unfolding m by (auto simp: leftmost_best_def in_set_conv_nth)
  moreover have "\<forall>x \<in> set (drop (Suc ?b) ?ps). prio x \<le> prio m"
    using lb unfolding m leftmost_best_def by (auto dest!: in_set_dropD simp: in_set_conv_nth)
  ultimately show ?thesis
    unfolding q' splice1_def by (intro exI [of _ "take ?b ?ps"] exI [of _ "drop (Suc ?b) ?ps"]) simp
qed

lemma nextPending_None: "nextPending q = (q', None) \<Longrightarrow> q' = q \<and> bq_pending q = []"
  by (auto simp: nextPending_def split: if_splits)

text \<open>A successful plain pick, taken apart.\<close>

lemma plainDelivery_Some:
  assumes "plainDelivery q = (q', Some (m, c))"
  shows "\<exists>q1. nextConsumer q = (q1, Some c) \<and> nextPending q1 = (q', Some m)"
  using assms by (auto simp: plainDelivery_def split: prod.splits option.splits)

interpretation plain: delivery_source plainDelivery "\<lambda>q. \<not> bq_partitionByGroup q"
proof
  fix q q' r assume np: "\<not> bq_partitionByGroup q" and pk: "plainDelivery q = (q', r)"
  show "config q' = config q \<and> bq_consumers q' = bq_consumers q \<and> bq_inflight q' = bq_inflight q"
    using pk by (auto simp: plainDelivery_def nextPending_def dest!: nextConsumer_frame
        split: prod.splits option.splits if_splits)
next
  fix q q' m c assume "\<not> bq_partitionByGroup q" and pk: "plainDelivery q = (q', Some (m, c))"
  from plainDelivery_Some [OF pk] obtain q1
    where q1: "nextConsumer q = (q1, Some c)" "nextPending q1 = (q', Some m)" by blast
  show "\<exists>pre post. bq_pending q = pre @ m # post \<and> bq_pending q' = pre @ post"
    using nextConsumer_frame [OF q1(1)] nextPending_Some [OF q1(2)] by auto
  show "c \<in> set (bq_consumers q) \<and> c \<notin> bq_busy q"
    using nextConsumer_Some [OF q1(1)] by simp
  show "bq_inflight q = []" if "bq_singleActiveConsumer q" "\<not> bq_partitionByGroup q"
    using nextConsumer_Some [OF q1(1)] that by simp
next
  fix q q' m c
  assume "\<not> bq_partitionByGroup q" "plainDelivery q = (q', Some (m, c))" "bq_partitionByGroup q"
  then show "owner_of (bq_consumers q) (bq_groupAffinity q') (group_of m) = Some c" by simp
next
  fix q q' r g d assume "\<not> bq_partitionByGroup q" and pk: "plainDelivery q = (q', r)"
    and "owner_of (bq_consumers q) (bq_groupAffinity q) g = Some d"
  moreover have "bq_groupAffinity q' = bq_groupAffinity q"
    using pk by (auto simp: plainDelivery_def nextPending_def dest!: nextConsumer_frame
        split: prod.splits option.splits if_splits)
  ultimately show "owner_of (bq_consumers q) (bq_groupAffinity q') g = Some d" by simp
next
  fix q q' assume np: "\<not> bq_partitionByGroup q" and pk: "plainDelivery q = (q', None)"
  then consider (busy) "nextConsumer q = (q', None)"
    | (empty) q1 c where "nextConsumer q = (q1, Some c)" "nextPending q1 = (q', None)"
    by (auto simp: plainDelivery_def split: prod.splits option.splits)
  then show "bq_pending q' = bq_pending q \<and> saturated q'"
  proof cases
    case busy
    from nextConsumer_frame [OF this] nextConsumer_None [OF this] config_fields [of q' q] np
    show ?thesis by (auto simp: saturated_def stuck_def bq_busy_def)
  next
    case empty
    from nextConsumer_frame [OF empty(1)] nextPending_None [OF empty(2)]
    show ?thesis by (simp add: saturated_def)
  qed
qed

lemma nextGroupDelivery_cases:
  assumes "nextGroupDelivery q = (q', r)"
  obtains (idle) "bq_consumers q = [] \<or> bq_pending q = []" "q' = q" "r = None"
  | (none) aff rr where
      "scan_result (bq_consumers q) (bq_busy q) 0 (bq_pending q) (bq_groupAffinity q) aff None"
      "q' = q\<lparr>bq_groupAffinity := aff, bq_rr := rr\<rparr>" "r = None"
  | (hit) aff rr i m c where
      "scan_result (bq_consumers q) (bq_busy q) 0 (bq_pending q) (bq_groupAffinity q) aff (Some (i, m, c))"
      "q' = q\<lparr>bq_groupAffinity := aff, bq_rr := rr, bq_pending := splice1 i (bq_pending q)\<rparr>"
      "r = Some (m, c)"
proof (cases "bq_consumers q = [] \<or> bq_pending q = []")
  case True
  with assms show ?thesis by (intro idle) (auto simp: nextGroupDelivery_def)
next
  case False
  obtain aff rr s where sc: "group_scan (bq_consumers q) (bq_busy q) 0 (bq_pending q)
      (bq_groupAffinity q) (bq_rr q) = (aff, rr, s)"
    by (metis prod_cases3)
  note res = group_scan_result [OF sc]
  show ?thesis
  proof (cases s)
    case None
    with assms False sc res show ?thesis by (intro none [of aff rr]) (auto simp: nextGroupDelivery_def)
  next
    case (Some x)
    obtain i m c where "x = (i, m, c)" by (cases x) auto
    with Some assms False sc res show ?thesis
      by (intro hit [of aff i m c rr]) (auto simp: nextGroupDelivery_def)
  qed
qed

text \<open>A successful group pick skips only blocked groups, so it never overtakes its own group.\<close>

lemma nextGroupDelivery_Some:
  assumes "nextGroupDelivery q = (q', Some (m, c))"
  obtains pre post where "bq_pending q = pre @ m # post" "bq_pending q' = pre @ post"
    "\<forall>x \<in> set pre. group_of x \<noteq> group_of m"
    "\<forall>x \<in> set pre. blocked (bq_consumers q) (bq_busy q) (bq_groupAffinity q) (group_of x)"
    "c \<in> set (bq_consumers q)" "c \<notin> bq_busy q"
    "owner_of (bq_consumers q) (bq_groupAffinity q') =
       (owner_of (bq_consumers q) (bq_groupAffinity q))(group_of m \<mapsto> c)"
    "owner_of (bq_consumers q) (bq_groupAffinity q) (group_of m) \<in> {None, Some c}"
  using assms
proof (cases rule: nextGroupDelivery_cases)
  case (hit aff rr i m' c')
  then have mc: "m' = m" "c' = c" by simp_all
  from hit(1) mc obtain pre post where pp: "bq_pending q = pre @ m # post" "i = length pre"
      "\<forall>x \<in> set pre. blocked (bq_consumers q) (bq_busy q) (bq_groupAffinity q) (group_of x)"
    and rest: "\<not> blocked (bq_consumers q) (bq_busy q) (bq_groupAffinity q) (group_of m)"
      "c \<in> set (bq_consumers q)" "c \<notin> bq_busy q"
      "owner_of (bq_consumers q) aff = (owner_of (bq_consumers q) (bq_groupAffinity q))(group_of m \<mapsto> c)"
      "owner_of (bq_consumers q) (bq_groupAffinity q) (group_of m) \<in> {None, Some c}"
    by (auto simp: scan_result_def)
  have "bq_pending q' = pre @ post" using hit(2) pp by (simp add: splice1_def)
  moreover have "\<forall>x \<in> set pre. group_of x \<noteq> group_of m" using pp(3) rest(1) by metis
  moreover have "bq_groupAffinity q' = aff" using hit(2) by simp
  ultimately show ?thesis using that pp rest by simp
qed simp_all

interpretation grouped: delivery_source nextGroupDelivery bq_partitionByGroup
proof
  fix q q' r assume "bq_partitionByGroup q" and pk: "nextGroupDelivery q = (q', r)"
  from pk show "config q' = config q \<and> bq_consumers q' = bq_consumers q \<and> bq_inflight q' = bq_inflight q"
    by (cases rule: nextGroupDelivery_cases) simp_all
next
  fix q q' m c assume "bq_partitionByGroup q" and pk: "nextGroupDelivery q = (q', Some (m, c))"
  show "\<exists>pre post. bq_pending q = pre @ m # post \<and> bq_pending q' = pre @ post"
    by (rule nextGroupDelivery_Some [OF pk]) blast
  show "c \<in> set (bq_consumers q) \<and> c \<notin> bq_busy q"
    by (rule nextGroupDelivery_Some [OF pk]) blast
  show "owner_of (bq_consumers q) (bq_groupAffinity q') (group_of m) = Some c"
    by (rule nextGroupDelivery_Some [OF pk]) simp
  show "bq_inflight q = []" if "bq_singleActiveConsumer q" "\<not> bq_partitionByGroup q"
    using \<open>bq_partitionByGroup q\<close> that by simp
next
  fix q q' r g d assume "bq_partitionByGroup q" and pk: "nextGroupDelivery q = (q', r)"
    and own: "owner_of (bq_consumers q) (bq_groupAffinity q) g = Some d"
  from pk show "owner_of (bq_consumers q) (bq_groupAffinity q') g = Some d"
  proof (cases rule: nextGroupDelivery_cases)
    case (hit aff rr i m c)
    then show ?thesis using own by (auto simp: scan_result_def)
  qed (use own in \<open>auto simp: scan_result_def\<close>)
next
  fix q q' assume part: "bq_partitionByGroup q" and pk: "nextGroupDelivery q = (q', None)"
  from pk show "bq_pending q' = bq_pending q \<and> saturated q'"
  proof (cases rule: nextGroupDelivery_cases)
    case idle
    then show ?thesis by (auto simp: saturated_def)
  next
    case (none aff rr)
    then have "owner_of (bq_consumers q) aff = owner_of (bq_consumers q) (bq_groupAffinity q)"
      and "\<forall>m \<in> set (bq_pending q). blocked (bq_consumers q) (bq_busy q) (bq_groupAffinity q) (group_of m)"
      by (simp_all add: scan_result_def)
    with none(2) part show ?thesis by (simp add: saturated_def stuck_def blocked_def)
  qed simp
qed

text \<open>The policy the pump uses chooses between the two by the queue's flag.\<close>

interpretation any: delivery_source nextDelivery "\<lambda>_. True"
proof
  fix q q' r assume pk: "nextDelivery q = (q', r)"
  show "config q' = config q \<and> bq_consumers q' = bq_consumers q \<and> bq_inflight q' = bq_inflight q"
    using pk plain.frame [of q] grouped.frame [of q]
    by (cases "bq_partitionByGroup q") (simp_all add: nextDelivery_def)
next
  fix q q' m c assume pk: "nextDelivery q = (q', Some (m, c))"
  show "\<exists>pre post. bq_pending q = pre @ m # post \<and> bq_pending q' = pre @ post"
    using pk plain.takes [of q] grouped.takes [of q]
    by (cases "bq_partitionByGroup q") (simp_all add: nextDelivery_def)
  show "c \<in> set (bq_consumers q) \<and> c \<notin> bq_busy q"
    using pk plain.free [of q] grouped.free [of q]
    by (cases "bq_partitionByGroup q") (simp_all add: nextDelivery_def)
  show "bq_inflight q = []" if "bq_singleActiveConsumer q" "\<not> bq_partitionByGroup q"
    using pk plain.single [of q] that by (simp add: nextDelivery_def)
  show "owner_of (bq_consumers q) (bq_groupAffinity q') (group_of m) = Some c" if "bq_partitionByGroup q"
    using pk grouped.pinned [of q] that by (simp add: nextDelivery_def)
next
  fix q q' r g d assume pk: "nextDelivery q = (q', r)"
    and own: "owner_of (bq_consumers q) (bq_groupAffinity q) g = Some d"
  show "owner_of (bq_consumers q) (bq_groupAffinity q') g = Some d"
  proof (cases "bq_partitionByGroup q")
    case True
    with pk have "nextGroupDelivery q = (q', r)" by (simp add: nextDelivery_def)
    from grouped.keeps_owner [OF True this own] show ?thesis .
  next
    case False
    with pk have "plainDelivery q = (q', r)" by (simp add: nextDelivery_def)
    from plain.keeps_owner [OF False this own] show ?thesis .
  qed
next
  fix q q' assume pk: "nextDelivery q = (q', None)"
  show "bq_pending q' = bq_pending q \<and> saturated q'"
  proof (cases "bq_partitionByGroup q")
    case True
    with pk have "nextGroupDelivery q = (q', None)" by (simp add: nextDelivery_def)
    from grouped.refuses [OF True this] show ?thesis .
  next
    case False
    with pk have "plainDelivery q = (q', None)" by (simp add: nextDelivery_def)
    from plain.refuses [OF False this] show ?thesis .
  qed
qed


section \<open>The pump loop\<close>

text \<open>
  \<open>while (pending.length > 0 && consumers.length > 0)\<close>: the result is the queue and, in order,
  the pairs for which a delivery microtask is queued.
\<close>

function pump_queue :: "BusQueue \<Rightarrow> BusQueue \<times> (BusMessage \<times> handler) list" where
  "pump_queue q =
     (if bq_pending q \<noteq> [] \<and> bq_consumers q \<noteq> [] then
        (case nextDelivery q of
           (q', None) \<Rightarrow> (q', [])
         | (q', Some (msg, consumer)) \<Rightarrow>
             (case pump_queue (hand_out q' msg consumer) of
                (q'', ds) \<Rightarrow> (q'', (count_delivery msg, consumer) # ds)))
      else (q, []))"
  by pat_completeness auto
termination
proof (relation "measure (\<lambda>q. length (bq_pending q))")
  show "wf (measure (\<lambda>q. length (bq_pending q)))" by simp
next
  fix q q' r x m c
  assume "(q', r) = nextDelivery q" "r = Some x" "(m, c) = x"
  then have "nextDelivery q = (q', Some (m, c))" by simp
  from any.shortens [OF TrueI this]
  show "(hand_out q' m c, q) \<in> measure (\<lambda>q. length (bq_pending q))" by (simp add: hand_out_def)
qed

declare pump_queue.simps [simp del]

lemma pump_queue_cases:
  obtains (idle) "bq_pending q = [] \<or> bq_consumers q = []" "pump_queue q = (q, [])"
  | (refused) q' where "nextDelivery q = (q', None)" "pump_queue q = (q', [])"
  | (delivered) q' m c q'' ds where "nextDelivery q = (q', Some (m, c))"
      "pump_queue (hand_out q' m c) = (q'', ds)" "pump_queue q = (q'', (count_delivery m, c) # ds)"
proof (cases "bq_pending q \<noteq> [] \<and> bq_consumers q \<noteq> []")
  case False
  then show ?thesis by (intro idle) (auto simp: pump_queue.simps [of q])
next
  case True
  obtain q' r where nd: "nextDelivery q = (q', r)" by (cases "nextDelivery q") auto
  show ?thesis
  proof (cases r)
    case None
    with True nd show ?thesis by (intro refused [of q']) (auto simp: pump_queue.simps [of q])
  next
    case (Some x)
    obtain m c where x: "x = (m, c)" by (cases x) auto
    obtain q'' ds where rec: "pump_queue (hand_out q' m c) = (q'', ds)"
      by (cases "pump_queue (hand_out q' m c)") auto
    show ?thesis using True nd Some x rec
      by (intro delivered [of q' m c q'' ds]) (auto simp: pump_queue.simps [of q])
  qed
qed

text \<open>
  Induction along the loop: what a refused pick and a hand-out establish carries over to the
  whole pump.
\<close>

lemma pump_queue_induct [consumes 1, case_names idle refused delivered]:
  assumes run: "pump_queue q0 = (q1, ds0)"
    and when_idle: "\<And>q. bq_pending q = [] \<or> bq_consumers q = [] \<Longrightarrow> P q q []"
    and when_refused: "\<And>q q'. nextDelivery q = (q', None) \<Longrightarrow> P q q' []"
    and when_delivered: "\<And>q q' m c q'' ds. nextDelivery q = (q', Some (m, c)) \<Longrightarrow>
      P (hand_out q' m c) q'' ds \<Longrightarrow> P q q'' ((count_delivery m, c) # ds)"
  shows "P q0 q1 ds0"
  using run
proof (induction "length (bq_pending q0)" arbitrary: q0 ds0 rule: less_induct)
  case less
  show ?case
  proof (cases rule: pump_queue_cases [of q0])
    case idle
    then show ?thesis using when_idle idle less.prems by simp
  next
    case (refused q')
    then show ?thesis using when_refused refused less.prems by simp
  next
    case (delivered q' m c q3 ds3)
    have "length (bq_pending (hand_out q' m c)) < length (bq_pending q0)"
      using any.shortens [OF TrueI delivered(1)] by (simp add: hand_out_def)
    moreover have "pump_queue (hand_out q' m c) = (q1, ds3)" using delivered less.prems by simp
    ultimately have "P (hand_out q' m c) q1 ds3" by (rule less.hyps)
    then show ?thesis using when_delivered [OF delivered(1)] delivered less.prems by simp
  qed
qed

lemma config_hand_out [simp]: "config (hand_out q m c) = config q"
  by (simp add: hand_out_def)

lemma hand_out_sel [simp]:
  "bq_consumers (hand_out q m c) = bq_consumers q" "bq_pending (hand_out q m c) = bq_pending q"
  by (simp_all add: hand_out_def)

lemma pump_queue_config:
  "pump_queue q = (q', ds) \<Longrightarrow> config q' = config q \<and> bq_consumers q' = bq_consumers q"
  by (induction rule: pump_queue_induct) (auto dest: any.frame [OF TrueI])

lemma pump_queue_ok: "pump_queue q = (q', ds) \<Longrightarrow> queue_ok q \<longrightarrow> queue_ok q'"
proof (induction rule: pump_queue_induct)
  case (refused q q')
  show ?case
  proof
    assume ok: "queue_ok q"
    have "bq_partitionByGroup q \<longrightarrow> (\<forall>(m, c) \<in> set (bq_inflight q).
        owner_of (bq_consumers q) (bq_groupAffinity q') (group_of m) = Some c)"
      using ok any.keeps_owner [OF TrueI refused] by (auto simp: queue_ok_def)
    with ok any.frame [OF TrueI refused] any.refuses [OF TrueI refused] config_fields [of q' q]
    show "queue_ok q'" by (simp add: queue_ok_def bq_busy_def)
  qed
next
  case (delivered q q' m c q'' ds)
  then show ?case using any.hand_out_ok [OF TrueI] by blast
qed simp

lemma pump_queue_held: "pump_queue q = (q', ds) \<Longrightarrow> queue_ok q \<longrightarrow> held q' = held q"
proof (induction rule: pump_queue_induct)
  case (refused q q')
  then show ?case using any.frame [OF TrueI refused] any.refuses [OF TrueI refused]
    by (simp add: held_def)
next
  case (delivered q q' m c q'' ds)
  then show ?case using any.hand_out_ok [OF TrueI] any.hand_out_held [OF TrueI] by metis
qed simp

lemma pump_queue_inflight:
  "pump_queue q = (q', ds) \<Longrightarrow> queue_ok q \<longrightarrow> bq_inflight q' = bq_inflight q @ ds"
proof (induction rule: pump_queue_induct)
  case (refused q q')
  then show ?case using any.frame [OF TrueI refused] by simp
next
  case (delivered q q' m c q'' ds)
  then show ?case using any.hand_out_ok [OF TrueI] any.hand_out_inflight [OF TrueI] by auto
qed simp

lemma pump_queue_saturates: "pump_queue q = (q', ds) \<Longrightarrow> saturated q'"
proof (induction rule: pump_queue_induct)
  case (idle q)
  then show ?case by (auto simp: saturated_def)
next
  case (refused q q')
  then show ?case using any.refuses [OF TrueI] by blast
next
  case (delivered q q' m c q'' ds)
  then show ?case by simp
qed

text \<open>Every pending message left over was already waiting, and so was every one handed out.\<close>

lemma pump_queue_pending:
  "pump_queue q = (q', ds) \<Longrightarrow>
     set (bq_pending q') \<subseteq> set (bq_pending q) \<and> bare ` fst ` set ds \<subseteq> bare ` set (bq_pending q)"
proof (induction rule: pump_queue_induct)
  case (refused q q')
  then show ?case using any.refuses [OF TrueI refused] by auto
next
  case (delivered q q' m c q'' ds)
  obtain pre post where "bq_pending q = pre @ m # post" "bq_pending q' = pre @ post"
    using any.takes [OF TrueI delivered(1)] by blast
  with delivered.IH show ?case by auto
qed auto

end
