(* ===== verification/In_Memory_Bus.thy ===== *)
theory In_Memory_Bus
  imports Queue_Pump
begin

text \<open>
  The in-process pub/sub engine: class \<open>InMemoryBus\<close> of \<open>adapters/in-memory-bus.ts\<close>.

  Queue objects live in the store \<open>b_objs\<close> and are referred to by their index, because the maps,
  the subscription closures, the settle closures and the timers all share them and \<open>dispose\<close>
  clears only the maps. Asynchrony is explicit: \<open>queueMicrotask\<close> appends to \<open>b_microtasks\<close>,
  \<open>setTimeout\<close> to \<open>b_timers\<close>, and a message handed to a handler is recorded in \<open>b_delivered\<close>,
  through which the handler may settle it at any later time. The clock \<open>b_now\<close> is \<open>Date.now()\<close>.
\<close>

section \<open>State\<close>

text \<open>What the delivery microtask closes over: the queue, the wrapped message, its consumer.\<close>

record Delivery =
  dl_queue :: nat
  dl_message :: BusMessage
  dl_consumer :: handler

datatype timer_action =
    Expire nat nat string string
  | Redeliver nat BusMessage

record Timer =
  tm_due :: millis
  tm_action :: timer_action

record Bus =
  b_objs :: "BusQueue list"
  b_queues :: "string \<rightharpoonup> nat"
  b_byTopic :: "destination \<rightharpoonup> nat list"
  b_seenDedupIds :: "string set"
  b_streamLog :: "destination \<rightharpoonup> BusMessage list"
  b_seq :: nat
  b_nextRef :: nat
  b_now :: millis
  b_microtasks :: "Delivery list"
  b_delivered :: "Delivery list"
  b_settled :: "nat set"
  b_timers :: "Timer list"

definition empty_bus :: Bus where
  "empty_bus = \<lparr>b_objs = [], b_queues = Map.empty, b_byTopic = Map.empty, b_seenDedupIds = {},
     b_streamLog = Map.empty, b_seq = 0, b_nextRef = 0, b_now = 0, b_microtasks = [],
     b_delivered = [], b_settled = {}, b_timers = []\<rparr>"

definition bus_key :: "destination \<Rightarrow> string \<Rightarrow> string" where
  "bus_key topic subscriberId = topic @ '' '' @ subscriberId"

definition q_at :: "Bus \<Rightarrow> nat \<Rightarrow> BusQueue" where
  "q_at b qr = b_objs b ! qr"

definition set_queue :: "nat \<Rightarrow> BusQueue \<Rightarrow> Bus \<Rightarrow> Bus" where
  "set_queue qr q b = b\<lparr>b_objs := (b_objs b)[qr := q]\<rparr>"

text \<open>
  Node's \<open>setTimeout\<close>: a delay below 1 or above the 32-bit limit becomes 1 millisecond.
\<close>

definition timeout_delay :: "millis \<Rightarrow> millis" where
  "timeout_delay ms = (if ms < 1 \<or> 2147483647 < ms then 1 else ms)"

definition set_timeout :: "timer_action \<Rightarrow> millis \<Rightarrow> Bus \<Rightarrow> Bus" where
  "set_timeout action ms b =
     b\<lparr>b_timers := b_timers b @ [\<lparr>tm_due = b_now b + timeout_delay ms, tm_action = action\<rparr>]\<rparr>"

section \<open>Delivery\<close>

definition pump :: "nat \<Rightarrow> Bus \<Rightarrow> Bus" where
  "pump qr b =
     (case pump_queue (q_at b qr) of
        (q', ds) \<Rightarrow>
          (set_queue qr q' b)
            \<lparr>b_microtasks := b_microtasks b @
               map (\<lambda>(m, c). \<lparr>dl_queue = qr, dl_message = m, dl_consumer = c\<rparr>) ds\<rparr>)"

text \<open>The fields the handler sees (\<open>wrap\<close>), copied when the message is handed out.\<close>

definition wrap :: "BusMessage \<Rightarrow> IncomingMessage" where
  "wrap m = \<lparr>rm_id = bm_id m, rm_destination = bm_topic m, rm_body = bm_body m,
     rm_headers = coalesce (bm_headers m) [], im_deliveryCount = Some (bm_deliveryCount m),
     im_replyTo = bm_replyTo m, im_correlationId = bm_correlationId m,
     im_groupId = bm_groupId m, im_priority = bm_priority m\<rparr>"

section \<open>Publishing\<close>

definition mk_message :: "nat \<Rightarrow> string \<Rightarrow> destination \<Rightarrow> string \<Rightarrow> string \<Rightarrow>
    PublishOptions option \<Rightarrow> BusMessage" where
  "mk_message ref mid topic body key options =
     \<lparr>bm_ref = ref, bm_id = mid, bm_topic = topic, bm_body = body, bm_routingKey = key,
      bm_deliveryCount = 0, bm_priority = opt_field po_priority options,
      bm_groupId = opt_field po_groupId options, bm_dedupId = opt_field po_dedupId options,
      bm_replyTo = opt_field po_replyTo options,
      bm_correlationId = opt_field po_correlationId options,
      bm_ttlMs = opt_field po_ttlMs options, bm_headers = opt_field po_headers options\<rparr>"

definition append_log :: "destination \<Rightarrow> string \<Rightarrow> string \<Rightarrow> PublishOptions option \<Rightarrow> Bus \<Rightarrow> Bus" where
  "append_log topic body key options b =
     (let seq = Suc (b_seq b);
          msg = mk_message (b_nextRef b) (''mem-stream-'' @ show_nat seq) topic body key options
      in b\<lparr>b_seq := seq, b_nextRef := Suc (b_nextRef b),
           b_streamLog := (b_streamLog b)(topic \<mapsto> coalesce (b_streamLog b topic) [] @ [msg])\<rparr>)"

text \<open>\<open>queue.pending.push(msg)\<close>.\<close>

definition push_pending :: "nat \<Rightarrow> BusMessage \<Rightarrow> Bus \<Rightarrow> Bus" where
  "push_pending qr msg b =
     set_queue qr ((q_at b qr)\<lparr>bq_pending := bq_pending (q_at b qr) @ [msg]\<rparr>) b"

text \<open>The TTL timer closes over the queue, the message object and the body and key it republishes.\<close>

definition arm_ttl :: "PublishOptions option \<Rightarrow> nat \<Rightarrow> BusMessage \<Rightarrow> Bus \<Rightarrow> Bus" where
  "arm_ttl options qr msg b =
     (case opt_field po_ttlMs options of
        None \<Rightarrow> b
      | Some ttl \<Rightarrow>
          if 0 \<le> ttl then
            set_timeout (Expire qr (bm_ref msg) (bm_body msg) (bm_routingKey msg)) ttl b
          else b)"

text \<open>One iteration of the loop over the topic's queues.\<close>

definition enqueue :: "destination \<Rightarrow> string \<Rightarrow> string \<Rightarrow> PublishOptions option \<Rightarrow> nat \<Rightarrow>
    Bus \<Rightarrow> Bus" where
  "enqueue topic body key options qr b =
     (if \<not> matches (q_at b qr) key then b
      else
        let seq = Suc (b_seq b);
            msg = mk_message (b_nextRef b) (''mem-bus-'' @ show_nat seq) topic body key options
        in pump qr (arm_ttl options qr msg
             (push_pending qr msg (b\<lparr>b_seq := seq, b_nextRef := Suc (b_nextRef b)\<rparr>))))"

definition publish :: "destination \<Rightarrow> string \<Rightarrow> string option \<Rightarrow> PublishOptions option \<Rightarrow>
    Bus \<Rightarrow> Bus" where
  "publish topic body routingKey options b =
     (case opt_field po_dedupId options of
        Some d \<Rightarrow>
          if d \<in> b_seenDedupIds b then b
          else
            let b0 = b\<lparr>b_seenDedupIds := insert d (b_seenDedupIds b)\<rparr>;
                key = coalesce routingKey topic;
                b1 = append_log topic body key options b0
            in fold (enqueue topic body key options) (coalesce (b_byTopic b1 topic) []) b1
      | None \<Rightarrow>
          let key = coalesce routingKey topic;
              b1 = append_log topic body key options b
          in fold (enqueue topic body key options) (coalesce (b_byTopic b1 topic) []) b1)"

section \<open>Settlement\<close>

datatype resolution = Ack | Requeue | Dead

definition deadLetter :: "nat \<Rightarrow> BusMessage \<Rightarrow> Bus \<Rightarrow> Bus" where
  "deadLetter qr msg b =
     (if \<not> bq_deadLetter (q_at b qr) then b
      else publish (deadLetterAddress (bq_topic (q_at b qr))) (bm_body msg)
             (Some (bm_routingKey msg)) None b)"

definition take_inflight :: "nat \<Rightarrow> nat \<Rightarrow> Bus \<Rightarrow> Bus" where
  "take_inflight qr ref b =
     set_queue qr ((q_at b qr)\<lparr>bq_inflight := inflight_delete ref (bq_inflight (q_at b qr))\<rparr>) b"

text \<open>
  The closure \<open>settle\<close> of \<open>wrap(queue, msg, consumer)\<close>. Its only guard is that \<open>inflight\<close> still
  maps the message object to this consumer.
\<close>

definition settle :: "resolution \<Rightarrow> nat \<Rightarrow> nat \<Rightarrow> handler \<Rightarrow> Bus \<Rightarrow> Bus" where
  "settle resolved qr ref consumer b =
     (case inflight_get ref (bq_inflight (q_at b qr)) of
        None \<Rightarrow> b
      | Some (msg, c) \<Rightarrow>
          if c \<noteq> consumer then b
          else
            let q = q_at b qr;
                b1 = take_inflight qr ref b
            in case resolved of
                 Ack \<Rightarrow> pump qr b1
               | Dead \<Rightarrow> pump qr (deadLetter qr msg b1)
               | Requeue \<Rightarrow>
                   if bq_maxDeliveries q \<le> bm_deliveryCount msg then pump qr (deadLetter qr msg b1)
                   else
                     (case bq_retryDelayMs q of
                        None \<Rightarrow> pump qr (push_pending qr msg b1)
                      | Some ms \<Rightarrow>
                          if 0 < ms then pump qr (set_timeout (Redeliver qr msg) ms b1)
                          else pump qr (push_pending qr msg b1)))"

text \<open>
  The wrappers installed by the delivery microtask: they settle and then raise the per-delivery
  flag, which only the handler's \<open>catch\<close> reads.
\<close>

definition settle_delivery :: "resolution \<Rightarrow> nat \<Rightarrow> Bus \<Rightarrow> Bus" where
  "settle_delivery resolved i b =
     (let d = b_delivered b ! i;
          b1 = settle resolved (dl_queue d) (bm_ref (dl_message d)) (dl_consumer d) b
      in b1\<lparr>b_settled := insert i (b_settled b1)\<rparr>)"

definition ack :: "nat \<Rightarrow> Bus \<Rightarrow> Bus" where
  "ack i b = settle_delivery Ack i b"

definition nack :: "nat \<Rightarrow> bool \<Rightarrow> Bus \<Rightarrow> Bus" where
  "nack i requeue b = settle_delivery (if requeue then Requeue else Dead) i b"

definition handler_throws :: "nat \<Rightarrow> Bus \<Rightarrow> Bus" where
  "handler_throws i b = (if i \<in> b_settled b then b else nack i True b)"

definition run_microtask :: "Bus \<Rightarrow> Bus" where
  "run_microtask b =
     (case b_microtasks b of
        [] \<Rightarrow> b
      | d # ds \<Rightarrow> b\<lparr>b_microtasks := ds, b_delivered := b_delivered b @ [d]\<rparr>)"

section \<open>Timers\<close>

text \<open>\<open>pending.splice(pending.indexOf(msg), 1)\<close>: the first occurrence of the object goes.\<close>

fun remove_ref :: "nat \<Rightarrow> BusMessage list \<Rightarrow> BusMessage list" where
  "remove_ref ref [] = []"
| "remove_ref ref (m # ms) = (if bm_ref m = ref then ms else m # remove_ref ref ms)"

definition drop_pending :: "nat \<Rightarrow> nat \<Rightarrow> Bus \<Rightarrow> Bus" where
  "drop_pending qr ref b =
     set_queue qr ((q_at b qr)
       \<lparr>bq_pending := remove_ref ref (bq_pending (q_at b qr))\<rparr>) b"

definition expire :: "nat \<Rightarrow> nat \<Rightarrow> string \<Rightarrow> string \<Rightarrow> Bus \<Rightarrow> Bus" where
  "expire qr ref body key b =
     (let q = q_at b qr
      in if \<exists>m \<in> set (bq_pending q). bm_ref m = ref then
           publish (expiryAddress (bq_topic q)) body (Some key) None (drop_pending qr ref b)
         else if inflight_get ref (bq_inflight q) \<noteq> None then
           publish (expiryAddress (bq_topic q)) body (Some key) None (take_inflight qr ref b)
         else b)"

fun run_timer :: "timer_action \<Rightarrow> Bus \<Rightarrow> Bus" where
  "run_timer (Expire qr ref body key) b = expire qr ref body key b"
| "run_timer (Redeliver qr msg) b = pump qr (push_pending qr msg b)"

definition fire_timer :: "nat \<Rightarrow> Bus \<Rightarrow> Bus" where
  "fire_timer i b = run_timer (tm_action (b_timers b ! i)) (b\<lparr>b_timers := splice1 i (b_timers b)\<rparr>)"

section \<open>Subscriptions\<close>

text \<open>Seeding a new stream queue with a fresh copy of every logged message it matches.\<close>

definition seed_one :: "nat \<Rightarrow> BusMessage \<Rightarrow> Bus \<Rightarrow> Bus" where
  "seed_one qr logged b =
     (if matches (q_at b qr) (bm_routingKey logged) then
        push_pending qr (logged\<lparr>bm_ref := b_nextRef b, bm_deliveryCount := 0\<rparr>)
          (b\<lparr>b_nextRef := Suc (b_nextRef b)\<rparr>)
      else b)"

definition create_queue :: "destination \<Rightarrow> string \<Rightarrow> SubscribeOptions \<Rightarrow> Bus \<Rightarrow> Bus" where
  "create_queue topic k options b =
     (let qr = length (b_objs b);
          q = mk_queue topic (coalesce (so_kind options) Topic) (so_routingKey options)
                (coalesce (so_maxDeliveries options) DEFAULT_MAX_DELIVERIES)
                (coalesce (so_deadLetter options) False) (so_retryDelayMs options)
                (coalesce (so_partitionByGroup options) False)
                (coalesce (so_singleActiveConsumer options) False);
          b1 = b\<lparr>b_objs := b_objs b @ [q], b_queues := (b_queues b)(k \<mapsto> qr),
                 b_byTopic := (b_byTopic b)(topic \<mapsto> coalesce (b_byTopic b topic) [] @ [qr])\<rparr>
      in if coalesce (so_streamReplay options) False
         then fold (seed_one qr) (coalesce (b_streamLog b1 topic) []) b1
         else b1)"

definition add_consumer :: "nat \<Rightarrow> handler \<Rightarrow> Bus \<Rightarrow> Bus" where
  "add_consumer qr h b =
     set_queue qr ((q_at b qr)\<lparr>bq_consumers := bq_consumers (q_at b qr) @ [h]\<rparr>) b"

text \<open>The result is the new state and what the subscription closes over.\<close>

definition subscribe :: "destination \<Rightarrow> handler \<Rightarrow> SubscribeOptions \<Rightarrow> Bus \<Rightarrow>
    Bus \<times> (nat \<times> handler)" where
  "subscribe topic h options b =
     (let (sid, b0) = (case so_subscriberId options of
            Some s \<Rightarrow> (s, b)
          | None \<Rightarrow> (''sub-'' @ show_nat (Suc (b_seq b)), b\<lparr>b_seq := Suc (b_seq b)\<rparr>));
          k = bus_key topic sid;
          (qr, b1) = (case b_queues b0 k of
            Some qr \<Rightarrow> (qr, b0)
          | None \<Rightarrow> (length (b_objs b0), create_queue topic k options b0))
      in (pump qr (add_consumer qr h b1), (qr, h)))"

text \<open>
  Dropping a consumer puts each message it holds back at the front of the queue, one
  \<open>unshift\<close> at a time.
\<close>

definition release :: "handler \<Rightarrow> BusQueue \<Rightarrow> BusQueue" where
  "release h q =
     foldl (\<lambda>q (m, owner).
        if owner = h
        then q\<lparr>bq_inflight := inflight_delete (bm_ref m) (bq_inflight q), bq_pending := m # bq_pending q\<rparr>
        else q) q (bq_inflight q)"

definition unsubscribe :: "nat \<Rightarrow> handler \<Rightarrow> Bus \<Rightarrow> Bus" where
  "unsubscribe qr h b =
     (let q = q_at b qr;
          q1 = q\<lparr>bq_consumers := remove1 h (bq_consumers q)\<rparr>
      in pump qr (set_queue qr (release h q1) b))"

definition dispose :: "Bus \<Rightarrow> Bus" where
  "dispose b = b\<lparr>b_queues := Map.empty, b_byTopic := Map.empty, b_streamLog := Map.empty\<rparr>"

section \<open>Runs\<close>

text \<open>
  One event of a run: a call of the client, a settlement by a handler that was given the
  \<open>i\<close>-th delivery, the next microtask, a due timer, or time passing.
\<close>

datatype event =
    EPublish destination string "string option" "PublishOptions option"
  | ESubscribe destination handler SubscribeOptions
  | EUnsubscribe nat handler
  | EMicrotask
  | EAck nat
  | ENack nat bool
  | EThrow nat
  | ETimer nat
  | ETick millis
  | EDispose

inductive bus_step :: "Bus \<Rightarrow> event \<Rightarrow> Bus \<Rightarrow> bool" where
  publish: "bus_step b (EPublish t body rk opts) (publish t body rk opts b)"
| subscribe: "bus_step b (ESubscribe t h opts) (fst (subscribe t h opts b))"
| unsubscribe: "qr < length (b_objs b) \<Longrightarrow> bus_step b (EUnsubscribe qr h) (unsubscribe qr h b)"
| microtask: "b_microtasks b \<noteq> [] \<Longrightarrow> bus_step b EMicrotask (run_microtask b)"
| ack: "i < length (b_delivered b) \<Longrightarrow> bus_step b (EAck i) (ack i b)"
| nack: "i < length (b_delivered b) \<Longrightarrow> bus_step b (ENack i r) (nack i r b)"
| throws: "i < length (b_delivered b) \<Longrightarrow> bus_step b (EThrow i) (handler_throws i b)"
| timer: "i < length (b_timers b) \<Longrightarrow> tm_due (b_timers b ! i) \<le> b_now b \<Longrightarrow>
    bus_step b (ETimer i) (fire_timer i b)"
| tick: "0 \<le> dt \<Longrightarrow> bus_step b (ETick dt) (b\<lparr>b_now := b_now b + dt\<rparr>)"
| dispose: "bus_step b EDispose (dispose b)"

inductive reachable :: "Bus \<Rightarrow> bool" where
  start: "reachable empty_bus"
| step: "reachable b \<Longrightarrow> bus_step b e b' \<Longrightarrow> reachable b'"

inductive_cases bus_stepE: "bus_step b e b'"

inductive_simps bus_step_simps:
  "bus_step b (EPublish t body rk opts) b'"
  "bus_step b (ESubscribe t h sopts) b'"
  "bus_step b (EUnsubscribe qr h) b'"
  "bus_step b EMicrotask b'"
  "bus_step b (EAck i) b'"
  "bus_step b (ENack i r) b'"
  "bus_step b (EThrow i) b'"
  "bus_step b (ETimer i) b'"
  "bus_step b (ETick dt) b'"
  "bus_step b EDispose b'"

text \<open>The same relation as a function, and whole runs.\<close>

fun exec :: "event \<Rightarrow> Bus \<Rightarrow> Bus option" where
  "exec (EPublish t body rk opts) b = Some (publish t body rk opts b)"
| "exec (ESubscribe t h sopts) b = Some (fst (subscribe t h sopts b))"
| "exec (EUnsubscribe qr h) b = (if qr < length (b_objs b) then Some (unsubscribe qr h b) else None)"
| "exec EMicrotask b = (if b_microtasks b \<noteq> [] then Some (run_microtask b) else None)"
| "exec (EAck i) b = (if i < length (b_delivered b) then Some (ack i b) else None)"
| "exec (ENack i r) b = (if i < length (b_delivered b) then Some (nack i r b) else None)"
| "exec (EThrow i) b = (if i < length (b_delivered b) then Some (handler_throws i b) else None)"
| "exec (ETimer i) b =
     (if i < length (b_timers b) \<and> tm_due (b_timers b ! i) \<le> b_now b then Some (fire_timer i b) else None)"
| "exec (ETick dt) b = (if 0 \<le> dt then Some (b\<lparr>b_now := b_now b + dt\<rparr>) else None)"
| "exec EDispose b = Some (dispose b)"

fun run :: "event list \<Rightarrow> Bus \<Rightarrow> Bus option" where
  "run [] b = Some b"
| "run (e # es) b = (case exec e b of None \<Rightarrow> None | Some b' \<Rightarrow> run es b')"

lemma bus_step_exec: "bus_step b e b' \<longleftrightarrow> exec e b = Some b'"
  by (cases e) (auto simp: bus_step_simps)

text \<open>What holds at the start and is kept by every event of a run holds at its end.\<close>

lemma run_induct [consumes 1, case_names start step]:
  assumes "run es b0 = Some b" and "P b0"
    and "\<And>b e b'. e \<in> set es \<Longrightarrow> P b \<Longrightarrow> bus_step b e b' \<Longrightarrow> P b'"
  shows "P b"
  using assms
proof (induction es arbitrary: b0)
  case Nil
  then show ?case by simp
next
  case (Cons e es)
  then obtain b1 where b1: "exec e b0 = Some b1" "run es b1 = Some b"
    by (auto split: option.splits)
  have "P b1" using Cons.prems(2) Cons.prems(3) [of e b0 b1] b1(1) by (simp add: bus_step_exec)
  then show ?case using Cons.IH [OF b1(2)] Cons.prems(3) by (meson list.set_intros(2))
qed

lemma run_reachable: "run es empty_bus = Some b \<Longrightarrow> reachable b"
  by (induction rule: run_induct) (auto intro: reachable.intros)

end
