(* ===== verification/Bus_Invariants.thy ===== *)
theory Bus_Invariants
  imports In_Memory_Bus
begin

text \<open>
  Conservation of messages and the invariants of the bus, one lemma per operation, lifted to
  every reachable state.
\<close>

section \<open>The messages of the bus\<close>

text \<open>Messages parked on a retry timer, then everything a consumer may still be given.\<close>

fun parked_in :: "timer_action \<Rightarrow> BusMessage multiset" where
  "parked_in (Expire qr ref body key) = {#}"
| "parked_in (Redeliver qr m) = {#bare m#}"

fun timer_queue :: "timer_action \<Rightarrow> nat" where
  "timer_queue (Expire qr ref body key) = qr"
| "timer_queue (Redeliver qr m) = qr"

definition parked :: "Bus \<Rightarrow> BusMessage multiset" where
  "parked b = sum_list (map (parked_in \<circ> tm_action) (b_timers b))"

definition live :: "Bus \<Rightarrow> BusMessage multiset" where
  "live b = sum_list (map held (b_objs b)) + parked b"

definition refs_ok :: "Bus \<Rightarrow> bool" where
  "refs_ok b \<longleftrightarrow> (\<forall>r. count (image_mset bm_ref (live b)) r \<le> 1) \<and>
     (\<forall>r \<in># image_mset bm_ref (live b). r < b_nextRef b)"

definition idx_ok :: "Bus \<Rightarrow> bool" where
  "idx_ok b \<longleftrightarrow>
     (\<forall>k qr. b_queues b k = Some qr \<longrightarrow> qr < length (b_objs b)) \<and>
     (\<forall>t qrs. b_byTopic b t = Some qrs \<longrightarrow> distinct qrs \<and>
        (\<forall>qr \<in> set qrs. qr < length (b_objs b) \<and> bq_topic (q_at b qr) = t)) \<and>
     (\<forall>d \<in> set (b_microtasks b) \<union> set (b_delivered b). dl_queue d < length (b_objs b)) \<and>
     (\<forall>tm \<in> set (b_timers b). timer_queue (tm_action tm) < length (b_objs b))"

definition queues_ok :: "Bus \<Rightarrow> bool" where
  "queues_ok b \<longleftrightarrow> (\<forall>qr < length (b_objs b). queue_ok (q_at b qr))"

definition bus_ok :: "Bus \<Rightarrow> bool" where
  "bus_ok b \<longleftrightarrow> queues_ok b \<and> idx_ok b \<and> refs_ok b"

definition all_saturated :: "Bus \<Rightarrow> bool" where
  "all_saturated b \<longleftrightarrow> (\<forall>qr < length (b_objs b). saturated (q_at b qr))"

lemma bus_okD:
  "bus_ok b \<Longrightarrow> queues_ok b" "bus_ok b \<Longrightarrow> idx_ok b" "bus_ok b \<Longrightarrow> refs_ok b"
  by (simp_all add: bus_ok_def)

lemma queues_okD: "queues_ok b \<Longrightarrow> qr < length (b_objs b) \<Longrightarrow> queue_ok (q_at b qr)"
  by (simp add: queues_ok_def)

lemma idx_ok_topicD:
  assumes "idx_ok b" and "b_byTopic b t = Some qrs"
  shows "distinct qrs" and "qr \<in> set qrs \<Longrightarrow> qr < length (b_objs b)"
    and "qr \<in> set qrs \<Longrightarrow> bq_topic (q_at b qr) = t"
  using assms by (auto simp: idx_ok_def)

section \<open>Replacing one queue of the store\<close>

lemma q_at_set_queue [bus_simps]:
  "qr < length (b_objs b) \<Longrightarrow> q_at (set_queue qr q b) qr' = (if qr' = qr then q else q_at b qr')"
  by (auto simp: q_at_def set_queue_def nth_list_update)

lemma set_queue_sel [simp]:
  "length (b_objs (set_queue qr q b)) = length (b_objs b)"
  "b_queues (set_queue qr q b) = b_queues b" "b_byTopic (set_queue qr q b) = b_byTopic b"
  "b_microtasks (set_queue qr q b) = b_microtasks b" "b_delivered (set_queue qr q b) = b_delivered b"
  "b_timers (set_queue qr q b) = b_timers b" "b_nextRef (set_queue qr q b) = b_nextRef b"
  "b_seq (set_queue qr q b) = b_seq b" "b_streamLog (set_queue qr q b) = b_streamLog b"
  "b_seenDedupIds (set_queue qr q b) = b_seenDedupIds b" "b_now (set_queue qr q b) = b_now b"
  "b_settled (set_queue qr q b) = b_settled b"
  by (simp_all add: set_queue_def)

lemma q_at_cong [simp]:
  "q_at (b\<lparr>b_queues := x1\<rparr>) qr = q_at b qr" "q_at (b\<lparr>b_byTopic := x2\<rparr>) qr = q_at b qr"
  "q_at (b\<lparr>b_seenDedupIds := x3\<rparr>) qr = q_at b qr" "q_at (b\<lparr>b_streamLog := x4\<rparr>) qr = q_at b qr"
  "q_at (b\<lparr>b_seq := x5\<rparr>) qr = q_at b qr" "q_at (b\<lparr>b_nextRef := x6\<rparr>) qr = q_at b qr"
  "q_at (b\<lparr>b_now := x7\<rparr>) qr = q_at b qr" "q_at (b\<lparr>b_microtasks := x8\<rparr>) qr = q_at b qr"
  "q_at (b\<lparr>b_delivered := x9\<rparr>) qr = q_at b qr" "q_at (b\<lparr>b_settled := x10\<rparr>) qr = q_at b qr"
  "q_at (b\<lparr>b_timers := x11\<rparr>) qr = q_at b qr"
  by (simp_all add: q_at_def)

lemma live_cong [simp]:
  "live (b\<lparr>b_queues := x1\<rparr>) = live b" "live (b\<lparr>b_byTopic := x2\<rparr>) = live b"
  "live (b\<lparr>b_seenDedupIds := x3\<rparr>) = live b" "live (b\<lparr>b_streamLog := x4\<rparr>) = live b"
  "live (b\<lparr>b_seq := x5\<rparr>) = live b" "live (b\<lparr>b_nextRef := x6\<rparr>) = live b"
  "live (b\<lparr>b_now := x7\<rparr>) = live b" "live (b\<lparr>b_microtasks := x8\<rparr>) = live b"
  "live (b\<lparr>b_delivered := x9\<rparr>) = live b" "live (b\<lparr>b_settled := x10\<rparr>) = live b"
  by (simp_all add: live_def parked_def)

lemma live_set_queue:
  assumes "qr < length (b_objs b)"
  shows "live (set_queue qr q b) + held (q_at b qr) = live b + held q"
  using sum_list_update_mset [OF assms, of held q]
  by (simp add: live_def set_queue_def parked_def q_at_def ac_simps)

lemma live_set_queue_same:
  "qr < length (b_objs b) \<Longrightarrow> held q = held (q_at b qr) \<Longrightarrow> live (set_queue qr q b) = live b"
  using live_set_queue [of qr b q] by simp

lemma live_set_queue_add:
  "qr < length (b_objs b) \<Longrightarrow> held q = add_mset m (held (q_at b qr)) \<Longrightarrow>
   live (set_queue qr q b) = add_mset m (live b)"
  using live_set_queue [of qr b q] by simp

lemma live_set_queue_remove:
  "qr < length (b_objs b) \<Longrightarrow> held (q_at b qr) = add_mset m (held q) \<Longrightarrow>
   add_mset m (live (set_queue qr q b)) = live b"
  using live_set_queue [of qr b q] by simp

lemma held_subset_live:
  assumes "qr < length (b_objs b)"
  shows "held (q_at b qr) \<subseteq># live b"
proof -
  let ?q0 = "mk_queue [] Topic None 0 False None False False"
  have "held ?q0 = {#}" by (simp add: held_def mk_queue_def)
  then have "live b = live (set_queue qr ?q0 b) + held (q_at b qr)"
    using live_set_queue [OF assms, of ?q0] by simp
  then show ?thesis by simp
qed

text \<open>A fresh reference occurs nowhere; a held one occurs in one place.\<close>

lemma refs_ok_fresh: "refs_ok b \<Longrightarrow> b_nextRef b \<notin># image_mset bm_ref (live b)"
  by (auto simp: refs_ok_def)

lemma refs_ok_smaller:
  assumes "refs_ok b" "live b' \<subseteq># live b" "b_nextRef b \<le> b_nextRef b'"
  shows "refs_ok b'"
proof -
  have sub: "image_mset bm_ref (live b') \<subseteq># image_mset bm_ref (live b)"
    by (rule image_mset_subseteq_mono [OF assms(2)])
  have "count (image_mset bm_ref (live b')) r \<le> 1" for r
    using mset_subset_eq_count [OF sub, of r] assms(1) by (auto simp: refs_ok_def intro: le_trans)
  moreover have "r < b_nextRef b'" if "r \<in># image_mset bm_ref (live b')" for r
    using mset_subset_eqD [OF sub that] assms(1,3) by (auto simp: refs_ok_def)
  ultimately show ?thesis by (auto simp: refs_ok_def)
qed

lemma refs_ok_same:
  "refs_ok b \<Longrightarrow> live b' = live b \<Longrightarrow> b_nextRef b' = b_nextRef b \<Longrightarrow> refs_ok b'"
  by (rule refs_ok_smaller [of b]) simp_all

lemma refs_ok_add:
  assumes "refs_ok b" "live b' = add_mset m (live b)" "bm_ref m = b_nextRef b"
    and "b_nextRef b' = Suc (b_nextRef b)"
  shows "refs_ok b'"
proof -
  have "count (image_mset bm_ref (live b)) (b_nextRef b) = 0"
    using refs_ok_fresh [OF assms(1)] by (simp add: count_eq_zero_iff)
  then have "count (image_mset bm_ref (live b')) r \<le> 1" for r
    using assms by (auto simp: refs_ok_def)
  then show ?thesis using assms by (auto simp: refs_ok_def less_Suc_eq)
qed

section \<open>Frames\<close>

text \<open>
  What no delivery, settlement or timer changes: which queues exist, how they are configured and
  where they are registered.
\<close>

definition same_topology :: "Bus \<Rightarrow> Bus \<Rightarrow> bool" where
  "same_topology b b' \<longleftrightarrow> length (b_objs b') = length (b_objs b) \<and>
     (\<forall>qr < length (b_objs b). config (q_at b' qr) = config (q_at b qr)) \<and>
     b_queues b' = b_queues b \<and> b_byTopic b' = b_byTopic b"

lemma same_topology_refl [simp]: "same_topology b b"
  by (simp add: same_topology_def)

lemma same_topology_trans: "same_topology a b \<Longrightarrow> same_topology b c \<Longrightarrow> same_topology a c"
  by (simp add: same_topology_def)

lemma same_topology_len: "same_topology b b' \<Longrightarrow> length (b_objs b') = length (b_objs b)"
  by (simp add: same_topology_def)

lemma same_topology_config:
  "same_topology b b' \<Longrightarrow> qr < length (b_objs b) \<Longrightarrow> config (q_at b' qr) = config (q_at b qr)"
  by (simp add: same_topology_def)

lemma same_topology_byTopic: "same_topology b b' \<Longrightarrow> b_byTopic b' = b_byTopic b"
  by (simp add: same_topology_def)

lemma same_topology_set_queue:
  "config q = config (q_at b qr) \<Longrightarrow> same_topology b (set_queue qr q b)"
  by (auto simp: same_topology_def set_queue_def q_at_def nth_update_if)

lemma idx_ok_step:
  assumes "idx_ok b" "same_topology b b'"
    and "\<forall>d \<in> set (b_microtasks b') \<union> set (b_delivered b'). dl_queue d < length (b_objs b')"
    and "\<forall>tm \<in> set (b_timers b'). timer_queue (tm_action tm) < length (b_objs b')"
  shows "idx_ok b'"
proof -
  have topic: "bq_topic (q_at b' qr) = bq_topic (q_at b qr)" if "qr < length (b_objs b)" for qr
    using same_topology_config [OF assms(2) that] by (rule config_fields(1))
  show ?thesis
    using assms topic unfolding idx_ok_def same_topology_def by simp
qed

lemma queues_ok_set_queue:
  "queues_ok b \<Longrightarrow> queue_ok q \<Longrightarrow> queues_ok (set_queue qr q b)"
  by (auto simp: queues_ok_def set_queue_def q_at_def nth_update_if)

section \<open>Pumping a queue\<close>

lemma pump_at:
  assumes "qr < length (b_objs b)"
  shows "q_at (pump qr b) qr' = (if qr' = qr then fst (pump_queue (q_at b qr)) else q_at b qr')"
  using assms by (simp add: pump_def bus_simps split: prod.splits)

lemma pump_sel [simp]:
  "length (b_objs (pump qr b)) = length (b_objs b)"
  "b_queues (pump qr b) = b_queues b" "b_byTopic (pump qr b) = b_byTopic b"
  "b_delivered (pump qr b) = b_delivered b" "b_timers (pump qr b) = b_timers b"
  "b_nextRef (pump qr b) = b_nextRef b" "b_seq (pump qr b) = b_seq b"
  "b_streamLog (pump qr b) = b_streamLog b" "b_seenDedupIds (pump qr b) = b_seenDedupIds b"
  "b_now (pump qr b) = b_now b" "b_settled (pump qr b) = b_settled b"
  by (simp_all add: pump_def split: prod.splits)

lemma pump_microtasks:
  "b_microtasks (pump qr b) = b_microtasks b @
     map (\<lambda>(m, c). \<lparr>dl_queue = qr, dl_message = m, dl_consumer = c\<rparr>) (snd (pump_queue (q_at b qr)))"
  by (simp add: pump_def split: prod.splits)

lemma pump_topology: "same_topology b (pump qr b)"
proof -
  obtain q' ds where "pump_queue (q_at b qr) = (q', ds)" by (cases "pump_queue (q_at b qr)")
  moreover from pump_queue_config [OF this]
  have "same_topology b (set_queue qr q' b)" by (simp add: same_topology_set_queue)
  ultimately show ?thesis by (simp add: pump_def same_topology_def q_at_def)
qed

lemma pump_live [live_simps]:
  assumes "qr < length (b_objs b)" "queue_ok (q_at b qr)"
  shows "live (pump qr b) = live b"
proof -
  obtain q' ds where p: "pump_queue (q_at b qr) = (q', ds)" by (cases "pump_queue (q_at b qr)")
  with pump_queue_held [OF p] assms show ?thesis
    by (simp add: pump_def live_set_queue_same)
qed

lemma pump_queues_ok: "queues_ok b \<Longrightarrow> qr < length (b_objs b) \<Longrightarrow> queues_ok (pump qr b)"
  using pump_queue_ok [of "q_at b qr"]
  by (auto simp: queues_ok_def pump_at prod_eq_iff)

lemma pump_saturated: "qr < length (b_objs b) \<Longrightarrow> saturated (q_at (pump qr b) qr)"
  using pump_queue_saturates by (auto simp: pump_at prod_eq_iff)

lemma pump_idx_ok: "idx_ok b \<Longrightarrow> qr < length (b_objs b) \<Longrightarrow> idx_ok (pump qr b)"
  by (rule idx_ok_step [OF _ pump_topology]) (auto simp: pump_microtasks idx_ok_def)

lemma pump_ok: "bus_ok b \<Longrightarrow> qr < length (b_objs b) \<Longrightarrow> bus_ok (pump qr b)"
  by (simp add: bus_ok_def pump_queues_ok pump_idx_ok refs_ok_same [of b] pump_live queues_okD)


section \<open>Timers and pushes\<close>

lemma set_timeout_sel [simp]:
  "b_objs (set_timeout a ms b) = b_objs b" "q_at (set_timeout a ms b) qr = q_at b qr"
  "b_queues (set_timeout a ms b) = b_queues b" "b_byTopic (set_timeout a ms b) = b_byTopic b"
  "b_microtasks (set_timeout a ms b) = b_microtasks b"
  "b_delivered (set_timeout a ms b) = b_delivered b" "b_nextRef (set_timeout a ms b) = b_nextRef b"
  "b_seq (set_timeout a ms b) = b_seq b" "b_streamLog (set_timeout a ms b) = b_streamLog b"
  "b_now (set_timeout a ms b) = b_now b"
  by (simp_all add: set_timeout_def q_at_def)

lemma set_timeout_live [live_simps]: "live (set_timeout a ms b) = live b + parked_in a"
  by (simp add: live_def parked_def set_timeout_def)

lemma set_timeout_topology: "same_topology b (set_timeout a ms b)"
  by (simp add: same_topology_def)

lemma set_timeout_idx_ok:
  "idx_ok b \<Longrightarrow> timer_queue a < length (b_objs b) \<Longrightarrow> idx_ok (set_timeout a ms b)"
  by (rule idx_ok_step [OF _ set_timeout_topology]) (auto simp: idx_ok_def set_timeout_def)

lemma set_timeout_queues_ok: "queues_ok (set_timeout a ms b) = queues_ok b"
  by (simp add: queues_ok_def)

lemma arm_ttl_sel [simp]:
  "b_objs (arm_ttl opts qr m b) = b_objs b" "q_at (arm_ttl opts qr m b) qr' = q_at b qr'"
  "b_queues (arm_ttl opts qr m b) = b_queues b" "b_byTopic (arm_ttl opts qr m b) = b_byTopic b"
  "b_nextRef (arm_ttl opts qr m b) = b_nextRef b" "live (arm_ttl opts qr m b) = live b"
  by (simp_all add: arm_ttl_def live_simps split: option.splits)

lemma arm_ttl_ok: "bus_ok b \<Longrightarrow> qr < length (b_objs b) \<Longrightarrow> bus_ok (arm_ttl opts qr m b)"
  by (auto simp: arm_ttl_def bus_ok_def set_timeout_idx_ok set_timeout_queues_ok live_simps
      intro: refs_ok_same split: option.splits)

lemma push_pending_topology: "same_topology b (push_pending qr m b)"
  by (simp add: push_pending_def same_topology_set_queue)

lemma push_pending_held:
  "held (q\<lparr>bq_pending := bq_pending q @ [m]\<rparr>) = add_mset (bare m) (held q)"
  by (simp add: held_def)

lemma push_pending_live [live_simps]:
  "qr < length (b_objs b) \<Longrightarrow> live (push_pending qr m b) = add_mset (bare m) (live b)"
  by (simp add: push_pending_def push_pending_held live_set_queue_add)

lemma held_refs: "set_mset (image_mset bm_ref (held q)) =
    bm_ref ` set (bq_pending q) \<union> (bm_ref \<circ> fst) ` set (bq_inflight q)"
  by (simp add: held_def image_Un image_image comp_def)

lemma push_pending_queue_ok:
  assumes "queue_ok q" "bm_ref m \<notin># image_mset bm_ref (held q)"
  shows "queue_ok (q\<lparr>bq_pending := bq_pending q @ [m]\<rparr>)"
  using assms held_refs [of q] by (auto simp: queue_ok_def bq_busy_def)

lemma fresh_in_queue:
  assumes "bm_ref m \<notin># image_mset bm_ref (live b)" "qr < length (b_objs b)"
  shows "bm_ref m \<notin># image_mset bm_ref (held (q_at b qr))"
  using assms(1) mset_subset_eqD [OF image_mset_subseteq_mono [OF held_subset_live [OF assms(2)]], of _ bm_ref]
  by metis

text \<open>Pushing a message that is nowhere on the bus: a new one, or one whose timer just fired.\<close>

lemma push_pending_queues_ok:
  assumes "queues_ok b" "bm_ref m \<notin># image_mset bm_ref (live b)" "qr < length (b_objs b)"
  shows "queues_ok (push_pending qr m b)"
  unfolding push_pending_def
  by (rule queues_ok_set_queue [OF assms(1)])
    (rule push_pending_queue_ok [OF queues_okD [OF assms(1,3)] fresh_in_queue [OF assms(2,3)]])

lemma push_pending_sel [simp]:
  "length (b_objs (push_pending qr m b)) = length (b_objs b)"
  "b_queues (push_pending qr m b) = b_queues b" "b_byTopic (push_pending qr m b) = b_byTopic b"
  "b_microtasks (push_pending qr m b) = b_microtasks b"
  "b_delivered (push_pending qr m b) = b_delivered b" "b_timers (push_pending qr m b) = b_timers b"
  "b_nextRef (push_pending qr m b) = b_nextRef b" "b_streamLog (push_pending qr m b) = b_streamLog b"
  by (simp_all add: push_pending_def)

lemma push_pending_idx_ok: "idx_ok b \<Longrightarrow> idx_ok (push_pending qr m b)"
  by (rule idx_ok_step [OF _ push_pending_topology]) (auto simp: idx_ok_def)

lemma push_pending_ok:
  assumes ok: "bus_ok b" and qr: "qr < length (b_objs b)" and m: "bm_ref m = b_nextRef b"
  shows "bus_ok (push_pending qr m (b\<lparr>b_nextRef := Suc (b_nextRef b)\<rparr>))"
proof -
  let ?b = "b\<lparr>b_nextRef := Suc (b_nextRef b)\<rparr>"
  have "queues_ok ?b" "idx_ok ?b" using ok by (simp_all add: bus_ok_def queues_ok_def idx_ok_def)
  moreover have "bm_ref m \<notin># image_mset bm_ref (live ?b)"
    using refs_ok_fresh [OF bus_okD(3) [OF ok]] m by simp
  moreover have "refs_ok (push_pending qr m ?b)"
    using qr m by (intro refs_ok_add [OF bus_okD(3) [OF ok], of _ "bare m"]) (simp_all add: live_simps)
  ultimately show ?thesis
    using qr by (simp add: bus_ok_def push_pending_queues_ok push_pending_idx_ok)
qed

section \<open>Publishing\<close>

lemma enqueue_cases:
  obtains (skip) "\<not> matches (q_at b qr) key" "enqueue topic body key opts qr b = b"
  | (push) msg where "matches (q_at b qr) key"
      "msg = mk_message (b_nextRef b) (''mem-bus-'' @ show_nat (Suc (b_seq b))) topic body key opts"
      "enqueue topic body key opts qr b =
         pump qr (arm_ttl opts qr msg (push_pending qr msg
           (b\<lparr>b_seq := Suc (b_seq b), b_nextRef := Suc (b_nextRef b)\<rparr>)))"
  by (cases "matches (q_at b qr) key") (simp_all add: enqueue_def Let_def)

lemma enqueue_skip: "\<not> matches (q_at b qr) key \<Longrightarrow> enqueue topic body key opts qr b = b"
  by (simp add: enqueue_def)

lemma mk_message_sel [simp]:
  "bm_ref (mk_message r i t body k opts) = r" "bm_body (mk_message r i t body k opts) = body"
  "bm_routingKey (mk_message r i t body k opts) = k" "bm_topic (mk_message r i t body k opts) = t"
  "bm_id (mk_message r i t body k opts) = i" "bm_deliveryCount (mk_message r i t body k opts) = 0"
  "bare (mk_message r i t body k opts) = mk_message r i t body k opts"
  by (simp_all add: mk_message_def bare_def)

lemma enqueue_topology: "same_topology b (enqueue topic body key opts qr b)"
proof (cases rule: enqueue_cases [of b qr key topic body opts])
  case skip
  then show ?thesis by simp
next
  case (push msg)
  let ?b = "b\<lparr>b_seq := Suc (b_seq b), b_nextRef := Suc (b_nextRef b)\<rparr>"
  have "same_topology b (push_pending qr msg ?b)"
    using push_pending_topology [of ?b qr msg] by (simp add: same_topology_def)
  then have "same_topology b (arm_ttl opts qr msg (push_pending qr msg ?b))"
    by (simp add: same_topology_def)
  from same_topology_trans [OF this pump_topology] push show ?thesis by simp
qed

lemma enqueue_ok:
  assumes ok: "bus_ok b" and qr: "qr < length (b_objs b)"
  shows "bus_ok (enqueue topic body key opts qr b)"
proof (cases rule: enqueue_cases [of b qr key topic body opts])
  case skip
  with ok show ?thesis by simp
next
  case (push msg)
  let ?b = "b\<lparr>b_seq := Suc (b_seq b)\<rparr>"
  have "bus_ok ?b" using ok by (simp add: bus_ok_def queues_ok_def idx_ok_def refs_ok_def)
  then have "bus_ok (push_pending qr msg (?b\<lparr>b_nextRef := Suc (b_nextRef ?b)\<rparr>))"
    using qr push(2) by (intro push_pending_ok) simp_all
  then have "bus_ok (pump qr (arm_ttl opts qr msg
      (push_pending qr msg (?b\<lparr>b_nextRef := Suc (b_nextRef ?b)\<rparr>))))"
    using qr by (intro pump_ok arm_ttl_ok) simp_all
  with push(3) show ?thesis by simp
qed


lemma enqueue_other: "qr' \<noteq> qr \<Longrightarrow> qr < length (b_objs b) \<Longrightarrow>
    q_at (enqueue topic body key opts qr b) qr' = q_at b qr'"
  by (cases rule: enqueue_cases [of b qr key topic body opts])
    (simp_all add: pump_at push_pending_def bus_simps)

lemma enqueue_saturated:
  assumes "qr < length (b_objs b)" "saturated (q_at b i)"
  shows "saturated (q_at (enqueue topic body key opts qr b) i)"
proof (cases "i = qr")
  case False
  with assms show ?thesis by (simp add: enqueue_other)
next
  case True
  show ?thesis
  proof (cases rule: enqueue_cases [of b qr key topic body opts])
    case skip
    with assms show ?thesis by simp
  next
    case (push msg)
    with assms(1) True show ?thesis by (simp add: pump_saturated)
  qed
qed

text \<open>The message a publish leaves in a queue it reaches.\<close>

definition published_as :: "destination \<Rightarrow> string \<Rightarrow> string \<Rightarrow> PublishOptions option \<Rightarrow>
    BusMessage \<Rightarrow> bool" where
  "published_as topic body key opts m \<longleftrightarrow> m = mk_message (bm_ref m) (bm_id m) topic body key opts"

lemma enqueue_held:
  assumes ok: "bus_ok b" and qr: "qr < length (b_objs b)" and hit: "matches (q_at b qr) key"
  shows "\<exists>m. published_as topic body key opts m \<and>
    held (q_at (enqueue topic body key opts qr b) qr) = add_mset m (held (q_at b qr))"
proof (cases rule: enqueue_cases [of b qr key topic body opts])
  case skip
  with hit show ?thesis by simp
next
  case (push msg)
  let ?b = "b\<lparr>b_seq := Suc (b_seq b)\<rparr>"
  have "bus_ok ?b" using ok by (simp add: bus_ok_def queues_ok_def idx_ok_def refs_ok_def)
  then have "bus_ok (push_pending qr msg (?b\<lparr>b_nextRef := Suc (b_nextRef ?b)\<rparr>))"
    using qr push(2) by (intro push_pending_ok) simp_all
  then have q: "queue_ok (q_at (push_pending qr msg (?b\<lparr>b_nextRef := Suc (b_nextRef ?b)\<rparr>)) qr)"
    using qr by (simp add: queues_okD bus_okD)
  obtain q' ds where pq: "pump_queue (q_at (push_pending qr msg (?b\<lparr>b_nextRef := Suc (b_nextRef ?b)\<rparr>)) qr)
      = (q', ds)" by (metis surj_pair)
  from pump_queue_held [OF pq] q push_pending_held [of "q_at b qr" msg] push(2)
  have "held q' = add_mset msg (held (q_at b qr))"
    using qr by (simp add: push_pending_def bus_simps)
  moreover have "held (q_at (enqueue topic body key opts qr b) qr) = held q'"
    using push(3) pq qr by (simp add: pump_at)
  moreover have "published_as topic body key opts msg"
    using push(2) by (simp add: published_as_def)
  ultimately show ?thesis by auto
qed

lemma fold_enqueue_ok:
  "bus_ok b \<Longrightarrow> \<forall>qr \<in> set qrs. qr < length (b_objs b) \<Longrightarrow>
     bus_ok (fold (enqueue topic body key opts) qrs b) \<and>
     same_topology b (fold (enqueue topic body key opts) qrs b)"
proof (induction qrs arbitrary: b)
  case Nil
  then show ?case by simp
next
  case (Cons qr qrs)
  let ?b = "enqueue topic body key opts qr b"
  note top = enqueue_topology [of b topic body key opts qr]
  have "bus_ok ?b" using Cons.prems by (simp add: enqueue_ok)
  moreover have "\<forall>x \<in> set qrs. x < length (b_objs ?b)"
    using Cons.prems same_topology_len [OF top] by simp
  ultimately show ?case using Cons.IH [of ?b] same_topology_trans [OF top] by simp
qed

lemma fold_enqueue_saturated:
  "saturated (q_at b i) \<Longrightarrow> \<forall>qr \<in> set qrs. qr < length (b_objs b) \<Longrightarrow>
     saturated (q_at (fold (enqueue topic body key opts) qrs b) i)"
proof (induction qrs arbitrary: b)
  case Nil
  then show ?case by simp
next
  case (Cons qr qrs)
  then show ?case
    using same_topology_len [OF enqueue_topology [of b topic body key opts qr]]
    by (simp add: enqueue_saturated)
qed

lemma fold_enqueue_other:
  "qr' \<notin> set qrs \<Longrightarrow> \<forall>qr \<in> set qrs. qr < length (b_objs b) \<Longrightarrow>
     q_at (fold (enqueue topic body key opts) qrs b) qr' = q_at b qr'"
proof (induction qrs arbitrary: b)
  case Nil
  then show ?case by simp
next
  case (Cons qr qrs)
  then show ?case
    using same_topology_len [OF enqueue_topology [of b topic body key opts qr]]
    by (simp add: enqueue_other)
qed

text \<open>Each queue in the list gets exactly one copy if its filter matches and none otherwise.\<close>

lemma fold_enqueue_held:
  assumes "bus_ok b" "distinct qrs" "\<forall>qr \<in> set qrs. qr < length (b_objs b)" "qr0 \<in> set qrs"
  shows "(matches (q_at b qr0) key \<longrightarrow>
      (\<exists>m. published_as topic body key opts m \<and>
        held (q_at (fold (enqueue topic body key opts) qrs b) qr0) = add_mset m (held (q_at b qr0)))) \<and>
    (\<not> matches (q_at b qr0) key \<longrightarrow>
      held (q_at (fold (enqueue topic body key opts) qrs b) qr0) = held (q_at b qr0))"
  using assms
proof (induction qrs arbitrary: b)
  case Nil
  then show ?case by simp
next
  case (Cons qr qrs)
  let ?b = "enqueue topic body key opts qr b"
  note len = same_topology_len [OF enqueue_topology [of b topic body key opts qr]]
  have ok: "bus_ok ?b" and rest: "\<forall>x \<in> set qrs. x < length (b_objs ?b)"
    using Cons.prems len by (simp_all add: enqueue_ok)
  show ?case
  proof (cases "qr0 = qr")
    case True
    then have "q_at (fold (enqueue topic body key opts) qrs ?b) qr0 = q_at ?b qr0"
      using Cons.prems rest by (intro fold_enqueue_other) auto
    then show ?thesis
      using True Cons.prems enqueue_held [of b qr key topic body opts]
        enqueue_skip [of b qr key topic body opts]
      by (cases "matches (q_at b qr) key") simp_all
  next
    case False
    then have "q_at ?b qr0 = q_at b qr0" using Cons.prems by (simp add: enqueue_other)
    moreover have "qr0 \<in> set qrs" and "distinct qrs" using False Cons.prems by simp_all
    ultimately show ?thesis using Cons.IH [OF ok _ rest] by simp
  qed
qed

lemma append_log_sel [simp]:
  "b_objs (append_log t body key opts b) = b_objs b" "q_at (append_log t body key opts b) qr = q_at b qr"
  "b_queues (append_log t body key opts b) = b_queues b"
  "b_byTopic (append_log t body key opts b) = b_byTopic b"
  "b_microtasks (append_log t body key opts b) = b_microtasks b"
  "b_delivered (append_log t body key opts b) = b_delivered b"
  "b_timers (append_log t body key opts b) = b_timers b"
  "live (append_log t body key opts b) = live b"
  "b_nextRef (append_log t body key opts b) = Suc (b_nextRef b)"
  by (simp_all add: append_log_def Let_def q_at_def)

lemma append_log_ok: "bus_ok b \<Longrightarrow> bus_ok (append_log t body key opts b)"
  by (auto simp: bus_ok_def queues_ok_def idx_ok_def intro: refs_ok_smaller [of b])

text \<open>
  A publish either is a suppressed duplicate or logs the message and visits the topic's queues.
\<close>

definition mark_seen :: "PublishOptions option \<Rightarrow> Bus \<Rightarrow> Bus" where
  "mark_seen opts b =
     (case opt_field po_dedupId opts of
        None \<Rightarrow> b
      | Some d \<Rightarrow> b\<lparr>b_seenDedupIds := insert d (b_seenDedupIds b)\<rparr>)"

definition is_duplicate :: "PublishOptions option \<Rightarrow> Bus \<Rightarrow> bool" where
  "is_duplicate opts b =
     (case opt_field po_dedupId opts of None \<Rightarrow> False | Some d \<Rightarrow> d \<in> b_seenDedupIds b)"

lemma publish_eq:
  "publish topic body rk opts b =
     (if is_duplicate opts b then b
      else fold (enqueue topic body (coalesce rk topic) opts) (coalesce (b_byTopic b topic) [])
             (append_log topic body (coalesce rk topic) opts (mark_seen opts b)))"
  by (auto simp: publish_def is_duplicate_def mark_seen_def Let_def split: option.splits)

lemma mark_seen_sel [simp]:
  "b_objs (mark_seen opts b) = b_objs b" "q_at (mark_seen opts b) qr = q_at b qr"
  "b_queues (mark_seen opts b) = b_queues b" "b_byTopic (mark_seen opts b) = b_byTopic b"
  "b_streamLog (mark_seen opts b) = b_streamLog b" "b_seq (mark_seen opts b) = b_seq b"
  "live (mark_seen opts b) = live b" "b_nextRef (mark_seen opts b) = b_nextRef b"
  by (simp_all add: mark_seen_def q_at_def split: option.splits)

lemma mark_seen_ok: "bus_ok b \<Longrightarrow> bus_ok (mark_seen opts b)"
  by (auto simp: mark_seen_def bus_ok_def queues_ok_def idx_ok_def refs_ok_def split: option.splits)

lemma idx_ok_topic_bound: "idx_ok b \<Longrightarrow> \<forall>qr \<in> set (coalesce (b_byTopic b t) []). qr < length (b_objs b)"
  by (cases "b_byTopic b t") (auto dest: idx_ok_topicD(2))

lemma idx_ok_topic_topic: "idx_ok b \<Longrightarrow> \<forall>qr \<in> set (coalesce (b_byTopic b t) []). bq_topic (q_at b qr) = t"
  by (cases "b_byTopic b t") (auto dest: idx_ok_topicD(3))

lemma idx_ok_topic_distinct: "idx_ok b \<Longrightarrow> distinct (coalesce (b_byTopic b t) [])"
  by (cases "b_byTopic b t") (auto dest: idx_ok_topicD(1))

lemma publish_ok_topology:
  assumes "bus_ok b"
  shows "bus_ok (publish topic body rk opts b) \<and> same_topology b (publish topic body rk opts b)"
proof (cases "is_duplicate opts b")
  case True
  with assms show ?thesis by (simp add: publish_eq)
next
  case False
  let ?b = "append_log topic body (coalesce rk topic) opts (mark_seen opts b)"
  have "bus_ok ?b" using assms by (simp add: append_log_ok mark_seen_ok)
  moreover have "\<forall>qr \<in> set (coalesce (b_byTopic b topic) []). qr < length (b_objs ?b)"
    using idx_ok_topic_bound bus_okD(2) [OF assms] by simp
  moreover have "same_topology b ?b" by (simp add: same_topology_def)
  ultimately show ?thesis
    using False fold_enqueue_ok [of ?b] same_topology_trans by (simp add: publish_eq)
qed

lemmas publish_ok = publish_ok_topology [THEN conjunct1]
lemmas publish_topology = publish_ok_topology [THEN conjunct2]

lemma publish_saturated:
  assumes "bus_ok b" "saturated (q_at b i)"
  shows "saturated (q_at (publish topic body rk opts b) i)"
  using assms idx_ok_topic_bound [OF bus_okD(2) [OF assms(1)], of topic]
  by (simp add: publish_eq fold_enqueue_saturated)

lemma publish_held:
  assumes ok: "bus_ok b" and new: "\<not> is_duplicate opts b"
  shows "(qr \<in> set (coalesce (b_byTopic b topic) []) \<and> matches (q_at b qr) (coalesce rk topic) \<longrightarrow>
      (\<exists>m. published_as topic body (coalesce rk topic) opts m \<and>
        held (q_at (publish topic body rk opts b) qr) = add_mset m (held (q_at b qr)))) \<and>
    (\<not> (qr \<in> set (coalesce (b_byTopic b topic) []) \<and> matches (q_at b qr) (coalesce rk topic)) \<longrightarrow>
      held (q_at (publish topic body rk opts b) qr) = held (q_at b qr))"
proof -
  let ?b = "append_log topic body (coalesce rk topic) opts (mark_seen opts b)"
  have ok': "bus_ok ?b" using ok by (simp add: append_log_ok mark_seen_ok)
  have bound: "\<forall>x \<in> set (coalesce (b_byTopic b topic) []). x < length (b_objs ?b)"
    and dist: "distinct (coalesce (b_byTopic b topic) [])"
    using idx_ok_topic_bound idx_ok_topic_distinct bus_okD(2) [OF ok] by simp_all
  show ?thesis
  proof (cases "qr \<in> set (coalesce (b_byTopic b topic) [])")
    case True
    from fold_enqueue_held [OF ok' dist bound True, of "coalesce rk topic" topic body opts] True
    show ?thesis by (simp add: publish_eq new)
  next
    case False
    from fold_enqueue_other [OF False bound, of topic body "coalesce rk topic" opts] False
    show ?thesis by (simp add: publish_eq new)
  qed
qed

end
