(* ===== verification/Bus_Settlement.thy ===== *)
theory Bus_Settlement
  imports Bus_Invariants
begin

text \<open>
  Settlement, timers and subscriptions of the bus: each operation keeps \<open>bus_ok\<close>, and what it does
  to the messages the bus holds.
\<close>

section \<open>Taking a message out of flight\<close>

lemma inflight_get_Some:
  assumes "inflight_get r xs = Some (m, c)"
  shows "bm_ref m = r" and "(m, c) \<in> set xs"
  using assms by (auto simp: inflight_get_def find_Some_iff in_set_conv_nth)

lemma inflight_get_None: "inflight_get r xs = None \<longleftrightarrow> r \<notin> (bm_ref \<circ> fst) ` set xs"
  by (auto simp: inflight_get_def find_None_iff rev_image_eqI)

lemma inflight_get_in:
  "distinct (map (bm_ref \<circ> fst) xs) \<Longrightarrow> (m, c) \<in> set xs \<Longrightarrow> inflight_get (bm_ref m) xs = Some (m, c)"
  by (induction xs) (auto simp: inflight_get_def rev_image_eqI)

lemma inflight_delete_mset:
  "distinct (map (bm_ref \<circ> fst) xs) \<Longrightarrow> (m, c) \<in> set xs \<Longrightarrow>
     mset xs = add_mset (m, c) (mset (inflight_delete (bm_ref m) xs))"
proof (induction xs)
  case Nil
  then show ?case by simp
next
  case (Cons x xs)
  obtain m' c' where x: "x = (m', c')" by (cases x)
  show ?case
  proof (cases "(m, c) = x")
    case True
    then have "inflight_delete (bm_ref m) xs = xs"
      using Cons.prems(1) x by (auto simp: inflight_delete_def filter_id_conv rev_image_eqI)
    with True x show ?thesis by (simp add: inflight_delete_def)
  next
    case False
    with Cons.prems x have "(m, c) \<in> set xs" "bm_ref m' \<noteq> bm_ref m" by force+
    with Cons x show ?thesis by (simp add: inflight_delete_def)
  qed
qed

definition drop_inflight :: "nat \<Rightarrow> BusQueue \<Rightarrow> BusQueue" where
  "drop_inflight r q = q\<lparr>bq_inflight := inflight_delete r (bq_inflight q)\<rparr>"

lemma drop_inflight_ok: "queue_ok q \<Longrightarrow> queue_ok (drop_inflight r q)"
  by (auto simp: queue_ok_def drop_inflight_def inflight_delete_def bq_busy_def distinct_map_filter
      intro: le_trans [OF length_filter_le])

lemma drop_inflight_held:
  assumes "queue_ok q" "inflight_get r (bq_inflight q) = Some (m, c)"
  shows "held q = add_mset (bare m) (held (drop_inflight r q))"
proof -
  have "distinct (map (bm_ref \<circ> fst) (bq_inflight q))" using assms(1) by (simp add: queue_ok_def)
  from inflight_delete_mset [OF this inflight_get_Some(2) [OF assms(2)]]
  have "mset (bq_inflight q) = add_mset (m, c) (mset (inflight_delete r (bq_inflight q)))"
    by (simp add: inflight_get_Some(1) [OF assms(2)])
  then show ?thesis by (simp add: held_def drop_inflight_def)
qed

lemma take_inflight_eq: "take_inflight qr r b = set_queue qr (drop_inflight r (q_at b qr)) b"
  by (simp add: take_inflight_def drop_inflight_def)

lemma take_inflight_topology: "same_topology b (take_inflight qr r b)"
  by (simp add: take_inflight_def same_topology_set_queue)

lemma take_inflight_live:
  assumes "bus_ok b" "qr < length (b_objs b)" "inflight_get r (bq_inflight (q_at b qr)) = Some (m, c)"
  shows "live b = add_mset (bare m) (live (take_inflight qr r b))"
  unfolding take_inflight_eq
  by (rule sym, rule live_set_queue_remove [OF assms(2)])
    (rule drop_inflight_held [OF queues_okD [OF bus_okD(1) [OF assms(1)] assms(2)] assms(3)])

text \<open>Putting a queue that holds less in place of the old one keeps everything in order.\<close>

lemma set_queue_smaller_ok:
  assumes ok: "bus_ok b" and qr: "qr < length (b_objs b)" and q: "queue_ok q"
    and cfg: "config q = config (q_at b qr)" and sub: "held q \<subseteq># held (q_at b qr)"
  shows "bus_ok (set_queue qr q b)"
proof -
  have "live (set_queue qr q b) + held (q_at b qr) \<subseteq># live b + held (q_at b qr)"
    using live_set_queue [OF qr, of q] sub by simp
  then have "refs_ok (set_queue qr q b)"
    by (intro refs_ok_smaller [OF bus_okD(3) [OF ok]]) simp_all
  moreover have "idx_ok (set_queue qr q b)"
    using bus_okD(2) [OF ok]
    by (intro idx_ok_step [OF bus_okD(2) [OF ok] same_topology_set_queue [OF cfg]])
      (auto simp: idx_ok_def)
  ultimately show ?thesis
    using queues_ok_set_queue [OF bus_okD(1) [OF ok] q] by (simp add: bus_ok_def)
qed

lemma take_inflight_ok:
  assumes "bus_ok b" "qr < length (b_objs b)" "inflight_get r (bq_inflight (q_at b qr)) = Some (m, c)"
  shows "bus_ok (take_inflight qr r b)"
proof -
  have q: "queue_ok (q_at b qr)" using assms by (simp add: queues_okD bus_okD)
  show ?thesis
    unfolding take_inflight_eq
    by (rule set_queue_smaller_ok [OF assms(1,2) drop_inflight_ok [OF q]])
      (simp_all add: drop_inflight_held [OF q assms(3)], simp add: drop_inflight_def)
qed

text \<open>A message just taken out is nowhere else, so it may be pushed or parked.\<close>

lemma taken_fresh:
  assumes "refs_ok b" "live b = add_mset (bare m) (live b')"
  shows "bm_ref m \<notin># image_mset bm_ref (live b')"
proof
  assume "bm_ref m \<in># image_mset bm_ref (live b')"
  then have "1 \<le> count (image_mset bm_ref (live b')) (bm_ref m)"
    by (simp only: count_greater_eq_one_iff)
  then have "2 \<le> count (image_mset bm_ref (live b)) (bm_ref m)" using assms(2) by simp
  then show False using assms(1) unfolding refs_ok_def by (metis not_less_eq_eq numeral_2_eq_2 One_nat_def)
qed

section \<open>Settling\<close>

text \<open>The branches of \<open>settle\<close>.\<close>

lemma settle_cases:
  obtains (stale) "inflight_get r (bq_inflight (q_at b qr)) = None \<or>
        (\<exists>m c. inflight_get r (bq_inflight (q_at b qr)) = Some (m, c) \<and> c \<noteq> h)"
      "settle res qr r h b = b"
  | (acked) m where "inflight_get r (bq_inflight (q_at b qr)) = Some (m, h)" "res = Ack"
      "settle res qr r h b = pump qr (take_inflight qr r b)"
  | (dead) m where "inflight_get r (bq_inflight (q_at b qr)) = Some (m, h)"
      "res = Dead \<or> res = Requeue \<and> bq_maxDeliveries (q_at b qr) \<le> bm_deliveryCount m"
      "settle res qr r h b = pump qr (deadLetter qr m (take_inflight qr r b))"
  | (parks) m ms where "inflight_get r (bq_inflight (q_at b qr)) = Some (m, h)" "res = Requeue"
      "bm_deliveryCount m < bq_maxDeliveries (q_at b qr)"
      "bq_retryDelayMs (q_at b qr) = Some ms" "0 < ms"
      "settle res qr r h b = pump qr (set_timeout (Redeliver qr m) ms (take_inflight qr r b))"
  | (again) m where "inflight_get r (bq_inflight (q_at b qr)) = Some (m, h)" "res = Requeue"
      "bm_deliveryCount m < bq_maxDeliveries (q_at b qr)"
      "\<forall>ms. bq_retryDelayMs (q_at b qr) = Some ms \<longrightarrow> ms \<le> 0"
      "settle res qr r h b = pump qr (push_pending qr m (take_inflight qr r b))"
proof (cases "\<exists>m. inflight_get r (bq_inflight (q_at b qr)) = Some (m, h)")
  case False
  then show ?thesis
    by (cases "inflight_get r (bq_inflight (q_at b qr))")
      (auto intro!: stale simp: settle_def)
next
  case True
  then obtain m where hit: "inflight_get r (bq_inflight (q_at b qr)) = Some (m, h)" by blast
  show ?thesis
  proof (cases res)
    case Ack
    with hit show ?thesis by (intro acked [of m]) (simp_all add: settle_def)
  next
    case Dead
    with hit show ?thesis by (intro dead [of m]) (simp_all add: settle_def)
  next
    case Requeue
    show ?thesis
    proof (cases "bq_maxDeliveries (q_at b qr) \<le> bm_deliveryCount m")
      case True
      with hit Requeue show ?thesis by (intro dead [of m]) (simp_all add: settle_def)
    next
      case over: False
      show ?thesis
      proof (cases "\<exists>ms. bq_retryDelayMs (q_at b qr) = Some ms \<and> 0 < ms")
        case True
        with over hit Requeue show ?thesis
          by (auto intro!: parks [of m] simp: settle_def Let_def)
      next
        case False
        with over hit Requeue show ?thesis
          by (intro again [of m]) (auto simp: settle_def Let_def split: option.splits)
      qed
    qed
  qed
qed

lemma deadLetter_ok_topology:
  "bus_ok b \<Longrightarrow> bus_ok (deadLetter qr m b) \<and> same_topology b (deadLetter qr m b)"
  by (simp add: deadLetter_def publish_ok publish_topology)

lemma parked_fresh_ok:
  assumes ok: "bus_ok b0" and ok': "bus_ok b" and live: "live b0 = add_mset (bare m) (live b)"
    and ref: "b_nextRef b = b_nextRef b0" and qr: "qr < length (b_objs b)"
  shows "bus_ok (set_timeout (Redeliver qr m) ms b)" "bus_ok (push_pending qr m b)"
proof -
  have "live (set_timeout (Redeliver qr m) ms b) = live b0" by (simp add: live_simps live)
  then have "refs_ok (set_timeout (Redeliver qr m) ms b)"
    using ref by (intro refs_ok_same [OF bus_okD(3) [OF ok]]) simp_all
  then show "bus_ok (set_timeout (Redeliver qr m) ms b)"
    using ok' qr by (simp add: bus_ok_def set_timeout_idx_ok set_timeout_queues_ok)
  have "live (push_pending qr m b) = live b0" by (simp add: live_simps live qr)
  then have "refs_ok (push_pending qr m b)"
    using ref by (intro refs_ok_same [OF bus_okD(3) [OF ok]]) simp_all
  then show "bus_ok (push_pending qr m b)"
    using ok' qr taken_fresh [OF bus_okD(3) [OF ok] live]
    by (simp add: bus_ok_def push_pending_queues_ok push_pending_idx_ok)
qed

lemma take_inflight_sel [simp]:
  "length (b_objs (take_inflight qr r b)) = length (b_objs b)"
  "b_nextRef (take_inflight qr r b) = b_nextRef b" "b_timers (take_inflight qr r b) = b_timers b"
  "b_delivered (take_inflight qr r b) = b_delivered b"
  "b_byTopic (take_inflight qr r b) = b_byTopic b"
  "b_seenDedupIds (take_inflight qr r b) = b_seenDedupIds b"
  by (simp_all add: take_inflight_def)

lemma settle_ok_topology:
  assumes ok: "bus_ok b" and qr: "qr < length (b_objs b)"
  shows "bus_ok (settle res qr r h b) \<and> same_topology b (settle res qr r h b)"
proof (cases rule: settle_cases [of r b qr h res])
  case stale
  with ok show ?thesis by simp
next
  case (acked m)
  from take_inflight_ok [OF ok qr acked(1)] qr
  show ?thesis
    unfolding acked(3)
    using same_topology_trans [OF take_inflight_topology pump_topology] by (auto intro: pump_ok)
next
  case (dead m)
  let ?b = "take_inflight qr r b"
  have d: "bus_ok (deadLetter qr m ?b)" "same_topology ?b (deadLetter qr m ?b)"
    using deadLetter_ok_topology take_inflight_ok [OF ok qr dead(1)] by simp_all
  have "same_topology b (deadLetter qr m ?b)"
    by (rule same_topology_trans [OF take_inflight_topology d(2)])
  with d(1) qr show ?thesis
    unfolding dead(3) using same_topology_trans [OF _ pump_topology] same_topology_len
    by (metis pump_ok)
next
  case (parks m ms)
  let ?b = "take_inflight qr r b"
  have "bus_ok (set_timeout (Redeliver qr m) ms ?b)"
    using qr by (intro parked_fresh_ok [OF ok take_inflight_ok [OF ok qr parks(1)]
        take_inflight_live [OF ok qr parks(1)]]) simp_all
  moreover have "same_topology b (set_timeout (Redeliver qr m) ms ?b)"
    by (rule same_topology_trans [OF take_inflight_topology set_timeout_topology])
  ultimately show ?thesis
    unfolding parks(6) using qr same_topology_trans [OF _ pump_topology]
    by (auto intro: pump_ok)
next
  case (again m)
  let ?b = "take_inflight qr r b"
  have "bus_ok (push_pending qr m ?b)"
    using qr by (intro parked_fresh_ok [OF ok take_inflight_ok [OF ok qr again(1)]
        take_inflight_live [OF ok qr again(1)]]) simp_all
  moreover have "same_topology b (push_pending qr m ?b)"
    by (rule same_topology_trans [OF take_inflight_topology push_pending_topology])
  ultimately show ?thesis
    unfolding again(5) using qr same_topology_trans [OF _ pump_topology]
    by (auto intro: pump_ok)
qed

end
