(* ===== verification/Bus_Steps.thy ===== *)
theory Bus_Steps
  imports Bus_Settlement
begin

text \<open>
  Timers, subscriptions and the remaining events: each keeps \<open>bus_ok\<close>, so every reachable bus is
  well formed.
\<close>

section \<open>Timers\<close>

lemma remove_ref_split:
  "\<exists>m \<in> set ps. bm_ref m = r \<Longrightarrow>
     \<exists>pre m post. ps = pre @ m # post \<and> bm_ref m = r \<and> remove_ref r ps = pre @ post"
proof (induction ps)
  case Nil
  then show ?case by simp
next
  case (Cons p ps)
  show ?case
  proof (cases "bm_ref p = r")
    case True
    then show ?thesis by (intro exI [of _ "[]"]) simp
  next
    case False
    with Cons obtain pre m post where "ps = pre @ m # post" "bm_ref m = r" "remove_ref r ps = pre @ post"
      by auto
    with False show ?thesis by (intro exI [of _ "p # pre"] exI [of _ m] exI [of _ post]) simp
  qed
qed

lemma drop_pending_topology: "same_topology b (drop_pending qr r b)"
  by (simp add: drop_pending_def same_topology_set_queue)

lemma drop_pending_ok:
  assumes ok: "bus_ok b" and qr: "qr < length (b_objs b)"
    and there: "\<exists>m \<in> set (bq_pending (q_at b qr)). bm_ref m = r"
  shows "bus_ok (drop_pending qr r b)"
proof -
  obtain pre m post where p: "bq_pending (q_at b qr) = pre @ m # post"
    "remove_ref r (bq_pending (q_at b qr)) = pre @ post"
    using remove_ref_split [OF there] by blast
  have q: "queue_ok (q_at b qr)" using ok qr by (simp add: queues_okD bus_okD)
  show ?thesis
    unfolding drop_pending_def
    by (rule set_queue_smaller_ok [OF ok qr]) (use q p in \<open>auto simp: queue_ok_def held_def\<close>)
qed

lemma expire_ok_topology:
  assumes ok: "bus_ok b" and qr: "qr < length (b_objs b)"
  shows "bus_ok (expire qr r body key b) \<and> same_topology b (expire qr r body key b)"
proof -
  consider (pending) "\<exists>m \<in> set (bq_pending (q_at b qr)). bm_ref m = r"
    | (inflight) m c where "\<not> (\<exists>m \<in> set (bq_pending (q_at b qr)). bm_ref m = r)"
        "inflight_get r (bq_inflight (q_at b qr)) = Some (m, c)"
    | (gone) "\<not> (\<exists>m \<in> set (bq_pending (q_at b qr)). bm_ref m = r)"
        "inflight_get r (bq_inflight (q_at b qr)) = None"
    by (cases "inflight_get r (bq_inflight (q_at b qr))") auto
  then show ?thesis
  proof cases
    case pending
    from publish_ok_topology [OF drop_pending_ok [OF ok qr pending]]
      same_topology_trans [OF drop_pending_topology] pending
    show ?thesis unfolding expire_def Let_def if_P [OF pending] by blast
  next
    case inflight
    from publish_ok_topology [OF take_inflight_ok [OF ok qr inflight(2)]]
      same_topology_trans [OF take_inflight_topology] inflight
    show ?thesis unfolding expire_def Let_def if_not_P [OF inflight(1)] by simp blast
  next
    case gone
    with ok show ?thesis by (simp add: expire_def Let_def)
  qed
qed

lemma unschedule_live:
  assumes "i < length (b_timers b)"
  shows "live b = live (b\<lparr>b_timers := splice1 i (b_timers b)\<rparr>) + parked_in (tm_action (b_timers b ! i))"
  using sum_list_splice1 [OF assms, of "parked_in \<circ> tm_action"]
  by (simp add: live_def parked_def)

lemma unschedule_ok:
  assumes ok: "bus_ok b" and i: "i < length (b_timers b)"
  shows "bus_ok (b\<lparr>b_timers := splice1 i (b_timers b)\<rparr>)" (is "bus_ok ?b")
proof -
  have "set (splice1 i (b_timers b)) \<subseteq> set (b_timers b)"
    by (auto simp: splice1_def dest: in_set_takeD in_set_dropD)
  then have "idx_ok ?b" using bus_okD(2) [OF ok] by (auto simp: idx_ok_def)
  moreover have "refs_ok ?b"
    using unschedule_live [OF i] by (intro refs_ok_smaller [OF bus_okD(3) [OF ok]]) simp_all
  ultimately show ?thesis using bus_okD(1) [OF ok] by (simp add: bus_ok_def queues_ok_def)
qed

lemma fire_timer_ok_topology:
  assumes ok: "bus_ok b" and i: "i < length (b_timers b)"
  shows "bus_ok (fire_timer i b) \<and> same_topology b (fire_timer i b)"
proof -
  let ?b = "b\<lparr>b_timers := splice1 i (b_timers b)\<rparr>"
  note ok' = unschedule_ok [OF ok i]
  have top: "same_topology b ?b" by (simp add: same_topology_def)
  have qr: "timer_queue (tm_action (b_timers b ! i)) < length (b_objs b)"
    using bus_okD(2) [OF ok] i by (simp add: idx_ok_def)
  show ?thesis
  proof (cases "tm_action (b_timers b ! i)")
    case (Expire qr r body key)
    with qr have "qr < length (b_objs ?b)" by simp
    from expire_ok_topology [OF ok' this] same_topology_trans [OF top] Expire
    show ?thesis by (simp add: fire_timer_def)
  next
    case (Redeliver qr m)
    with qr have len: "qr < length (b_objs ?b)" by simp
    have "live b = add_mset (bare m) (live ?b)" using unschedule_live [OF i] Redeliver by simp
    from parked_fresh_ok(2) [OF ok ok' this _ len]
    have "bus_ok (push_pending qr m ?b)" by simp
    then have "bus_ok (pump qr (push_pending qr m ?b))" using len by (intro pump_ok) simp_all
    moreover have "same_topology b (pump qr (push_pending qr m ?b))"
      by (rule same_topology_trans [OF top same_topology_trans [OF push_pending_topology pump_topology]])
    ultimately show ?thesis using Redeliver by (simp add: fire_timer_def)
  qed
qed

section \<open>Subscribing\<close>

lemma seed_one_ok_topology:
  assumes "bus_ok b" "qr < length (b_objs b)"
  shows "bus_ok (seed_one qr m b) \<and> same_topology b (seed_one qr m b)"
proof -
  let ?b = "b\<lparr>b_nextRef := Suc (b_nextRef b)\<rparr>"
  have "same_topology b (push_pending qr m' ?b)" for m'
    using push_pending_topology [of ?b qr m'] by (simp add: same_topology_def)
  with assms show ?thesis by (simp add: seed_one_def push_pending_ok)
qed

lemma fold_seed_ok_topology:
  "bus_ok b \<Longrightarrow> qr < length (b_objs b) \<Longrightarrow>
     bus_ok (fold (seed_one qr) ms b) \<and> same_topology b (fold (seed_one qr) ms b)"
proof (induction ms arbitrary: b)
  case Nil
  then show ?case by simp
next
  case (Cons m ms)
  from seed_one_ok_topology [OF Cons.prems, of m]
  have s: "bus_ok (seed_one qr m b)" "same_topology b (seed_one qr m b)" by simp_all
  with Cons.IH [OF s(1)] Cons.prems(2) same_topology_len [OF s(2)] same_topology_trans [OF s(2)]
  show ?case by simp
qed

text \<open>The bus after registering a new, empty queue.\<close>

definition register :: "destination \<Rightarrow> string \<Rightarrow> BusQueue \<Rightarrow> Bus \<Rightarrow> Bus" where
  "register topic k q b = b\<lparr>b_objs := b_objs b @ [q], b_queues := (b_queues b)(k \<mapsto> length (b_objs b)),
     b_byTopic := (b_byTopic b)(topic \<mapsto> coalesce (b_byTopic b topic) [] @ [length (b_objs b)])\<rparr>"

lemma register_q_at [simp]:
  "q_at (register topic k q b) (length (b_objs b)) = q"
  "qr < length (b_objs b) \<Longrightarrow> q_at (register topic k q b) qr = q_at b qr"
  by (simp_all add: register_def q_at_def nth_append)

lemma register_ok:
  assumes ok: "bus_ok b" and q: "queue_ok q" "held q = {#}" "bq_topic q = topic"
  shows "bus_ok (register topic k q b)"
proof -
  have "queues_ok (register topic k q b)"
    using bus_okD(1) [OF ok] q(1) by (auto simp: queues_ok_def less_Suc_eq register_def q_at_def nth_append)
  moreover have "live (register topic k q b) = live b"
    using q(2) by (simp add: live_def register_def parked_def)
  then have "refs_ok (register topic k q b)"
    by (intro refs_ok_same [OF bus_okD(3) [OF ok]]) (simp_all add: register_def)
  moreover have "idx_ok (register topic k q b)"
    using bus_okD(2) [OF ok] idx_ok_topic_bound [OF bus_okD(2) [OF ok], of topic]
      idx_ok_topic_distinct [OF bus_okD(2) [OF ok], of topic] q(3)
      idx_ok_topic_topic [OF bus_okD(2) [OF ok], of topic]
    by (auto simp: idx_ok_def register_def q_at_def nth_append less_Suc_eq
        split: if_splits option.splits)
  ultimately show ?thesis by (simp add: bus_ok_def)
qed

lemma mk_queue_ok [simp]:
  "queue_ok (mk_queue t kind rk md dl rd pg sac)" "held (mk_queue t kind rk md dl rd pg sac) = {#}"
  "bq_topic (mk_queue t kind rk md dl rd pg sac) = t"
  "saturated (mk_queue t kind rk md dl rd pg sac)"
  by (simp_all add: queue_ok_def held_def mk_queue_def bq_busy_def saturated_def)

text \<open>The queue a subscription creates from its options.\<close>

definition queue_for :: "destination \<Rightarrow> SubscribeOptions \<Rightarrow> BusQueue" where
  "queue_for topic options =
     mk_queue topic (coalesce (so_kind options) Topic) (so_routingKey options)
       (coalesce (so_maxDeliveries options) DEFAULT_MAX_DELIVERIES)
       (coalesce (so_deadLetter options) False) (so_retryDelayMs options)
       (coalesce (so_partitionByGroup options) False)
       (coalesce (so_singleActiveConsumer options) False)"

lemma queue_for_ok [simp]:
  "queue_ok (queue_for t opts)" "held (queue_for t opts) = {#}" "bq_topic (queue_for t opts) = t"
  "saturated (queue_for t opts)"
  by (simp_all add: queue_for_def)

lemma create_queue_eq:
  "create_queue topic k opts b =
     (if coalesce (so_streamReplay opts) False
      then fold (seed_one (length (b_objs b))) (coalesce (b_streamLog b topic) [])
             (register topic k (queue_for topic opts) b)
      else register topic k (queue_for topic opts) b)"
  by (simp add: create_queue_def register_def queue_for_def Let_def)

lemma register_len [simp]: "length (b_objs (register t k q b)) = Suc (length (b_objs b))"
  by (simp add: register_def)

lemma create_queue_ok:
  assumes "bus_ok b"
  shows "bus_ok (create_queue topic k opts b) \<and>
    length (b_objs (create_queue topic k opts b)) = Suc (length (b_objs b))"
proof -
  have r: "bus_ok (register topic k (queue_for topic opts) b)"
    using assms by (simp add: register_ok)
  from fold_seed_ok_topology [OF r, of "length (b_objs b)"] r same_topology_len
  show ?thesis by (fastforce simp: create_queue_eq)
qed

lemma add_consumer_queue_ok:
  "queue_ok q \<Longrightarrow> queue_ok (q\<lparr>bq_consumers := bq_consumers q @ [h]\<rparr>)"
  by (fastforce simp: queue_ok_def owner_of_def bq_busy_def split: option.splits if_splits)

lemma add_consumer_ok:
  assumes ok: "bus_ok b" and qr: "qr < length (b_objs b)"
  shows "bus_ok (add_consumer qr h b)"
  unfolding add_consumer_def
  by (rule set_queue_smaller_ok [OF ok qr add_consumer_queue_ok [OF queues_okD [OF bus_okD(1) [OF ok] qr]]])
    (simp_all add: held_def)

lemma subscribe_cases:
  obtains b0 k where "b0 = b \<or> b0 = b\<lparr>b_seq := Suc (b_seq b)\<rparr>"
    "k = bus_key topic (coalesce (so_subscriberId opts) (''sub-'' @ show_nat (Suc (b_seq b))))"
    "subscribe topic h opts b =
       (case b_queues b0 k of
          Some qr \<Rightarrow> (pump qr (add_consumer qr h b0), (qr, h))
        | None \<Rightarrow> (pump (length (b_objs b0)) (add_consumer (length (b_objs b0)) h
                     (create_queue topic k opts b0)), (length (b_objs b0), h)))"
proof (cases "so_subscriberId opts")
  case None
  show ?thesis
    by (rule that [of "b\<lparr>b_seq := Suc (b_seq b)\<rparr>" "bus_key topic (''sub-'' @ show_nat (Suc (b_seq b)))"])
      (simp_all add: None subscribe_def split: option.splits)
next
  case (Some sid)
  show ?thesis
    by (rule that [of b "bus_key topic sid"]) (simp_all add: Some subscribe_def split: option.splits)
qed

lemma seq_ok: "bus_ok b \<Longrightarrow> bus_ok (b\<lparr>b_seq := n\<rparr>)"
  by (simp add: bus_ok_def queues_ok_def idx_ok_def refs_ok_def)

lemma subscribe_ok:
  assumes ok: "bus_ok b"
  shows "bus_ok (fst (subscribe topic h opts b))"
proof (rule subscribe_cases [of b topic opts h])
  fix b0 k
  assume b0: "b0 = b \<or> b0 = b\<lparr>b_seq := Suc (b_seq b)\<rparr>" and sub: "subscribe topic h opts b =
       (case b_queues b0 k of
          Some qr \<Rightarrow> (pump qr (add_consumer qr h b0), (qr, h))
        | None \<Rightarrow> (pump (length (b_objs b0)) (add_consumer (length (b_objs b0)) h
                     (create_queue topic k opts b0)), (length (b_objs b0), h)))"
  have ok0: "bus_ok b0" using b0 ok seq_ok by auto
  have add: "bus_ok (pump qr (add_consumer qr h c))" if "bus_ok c" "qr < length (b_objs c)" for qr c
    using that by (intro pump_ok add_consumer_ok) (simp_all add: add_consumer_def)
  show ?thesis
  proof (cases "b_queues b0 k")
    case None
    from create_queue_ok [OF ok0, of topic k opts] show ?thesis
      by (simp add: sub None add)
  next
    case (Some qr)
    then have "qr < length (b_objs b0)" using bus_okD(2) [OF ok0] by (simp add: idx_ok_def)
    then show ?thesis by (simp add: sub Some add ok0)
  qed
qed

section \<open>Unsubscribing\<close>

text \<open>What the loop over a snapshot of \<open>inflight\<close> leaves.\<close>

definition returned :: "handler \<Rightarrow> BusQueue \<Rightarrow> BusMessage list" where
  "returned h q = rev (map fst (filter (\<lambda>(m, c). c = h) (bq_inflight q)))"

lemma inflight_delete_append:
  "inflight_delete r (xs @ x # ys) =
     inflight_delete r xs @ (if bm_ref (fst x) = r then [] else [x]) @ inflight_delete r ys"
  by (simp add: inflight_delete_def case_prod_beta)

lemma inflight_delete_filter: "inflight_delete r (filter P xs) = filter P (inflight_delete r xs)"
  by (simp add: inflight_delete_def conj_commute)

lemma inflight_delete_absent:
  "r \<notin> (\<lambda>x. bm_ref (fst x)) ` set xs \<Longrightarrow> inflight_delete r xs = xs"
  by (auto simp: inflight_delete_def filter_id_conv rev_image_eqI)

lemma release_loop:
  "distinct (map (bm_ref \<circ> fst) (xs @ ys)) \<Longrightarrow> bq_inflight q = filter (\<lambda>(m, c). c \<noteq> h) xs @ ys \<Longrightarrow>
   foldl (\<lambda>q (m, owner).
        if owner = h
        then q\<lparr>bq_inflight := inflight_delete (bm_ref m) (bq_inflight q), bq_pending := m # bq_pending q\<rparr>
        else q) q ys =
   q\<lparr>bq_inflight := filter (\<lambda>(m, c). c \<noteq> h) (xs @ ys),
     bq_pending := rev (map fst (filter (\<lambda>(m, c). c = h) ys)) @ bq_pending q\<rparr>"
proof (induction ys arbitrary: xs q)
  case Nil
  then show ?case by (simp add: filter_id_conv)
next
  case (Cons y ys)
  obtain m c where y: "y = (m, c)" by (cases y)
  show ?case
  proof (cases "c = h")
    case False
    with Cons.prems y show ?thesis using Cons.IH [of "xs @ [y]" q] by simp
  next
    case True
    let ?q = "q\<lparr>bq_inflight := inflight_delete (bm_ref m) (bq_inflight q), bq_pending := m # bq_pending q\<rparr>"
    have "bq_inflight ?q = filter (\<lambda>(m, c). c \<noteq> h) (xs @ [y]) @ ys"
      using Cons.prems y True
      by (simp add: inflight_delete_append inflight_delete_filter inflight_delete_absent)
    with Cons.prems y True show ?thesis using Cons.IH [of "xs @ [y]" ?q] by simp
  qed
qed

lemma release_eq:
  assumes "distinct (map (bm_ref \<circ> fst) (bq_inflight q))"
  shows "release h q = q\<lparr>bq_inflight := filter (\<lambda>(m, c). c \<noteq> h) (bq_inflight q),
    bq_pending := returned h q @ bq_pending q\<rparr>"
  using release_loop [of "[]" "bq_inflight q" q h] assms by (simp add: release_def returned_def)

lemma release_queue_ok:
  assumes ok: "queue_ok q"
  shows "queue_ok (release h (q\<lparr>bq_consumers := remove1 h (bq_consumers q)\<rparr>))"
    and "held (release h (q\<lparr>bq_consumers := remove1 h (bq_consumers q)\<rparr>)) = held q"
proof -
  let ?q = "q\<lparr>bq_consumers := remove1 h (bq_consumers q)\<rparr>"
  let ?stay = "filter (\<lambda>(m, c). c \<noteq> h) (bq_inflight q)"
  let ?go = "filter (\<lambda>(m, c). c = h) (bq_inflight q)"
  have dist: "distinct (map (bm_ref \<circ> fst) (bq_inflight q))" using ok by (simp add: queue_ok_def)
  have rel: "release h ?q = ?q\<lparr>bq_inflight := ?stay, bq_pending := returned h q @ bq_pending q\<rparr>"
    using release_eq [of ?q h] dist by (simp add: returned_def)
  have parts: "mset (bq_inflight q) = mset ?stay + mset ?go"
    using multiset_partition [of "mset (bq_inflight q)" "\<lambda>(m, c). c \<noteq> h"]
    by (simp add: mset_filter [symmetric] case_prod_unfold del: mset_filter)
  have split_image: "image_mset f (mset (bq_inflight q)) =
      image_mset f (mset ?stay) + image_mset f (mset ?go)" for f :: "BusMessage \<times> handler \<Rightarrow> 'x"
    by (metis image_mset_union parts)
  have go: "mset (map f (returned h q)) = mset (map (f \<circ> fst) ?go)" for f :: "BusMessage \<Rightarrow> 'x"
    by (simp add: returned_def rev_map [symmetric] image_mset.compositionality)
  show "held (release h ?q) = held q"
    using go [of bare] by (simp add: rel held_def split_image)
  have "mset (map bm_ref (returned h q @ bq_pending q) @ map (bm_ref \<circ> fst) ?stay) =
      mset (map bm_ref (bq_pending q) @ map (bm_ref \<circ> fst) (bq_inflight q))"
    using go [of bm_ref] by (simp add: split_image)
  then have "distinct (map bm_ref (returned h q @ bq_pending q) @ map (bm_ref \<circ> fst) ?stay)"
    using ok unfolding queue_ok_def by (metis mset_eq_imp_distinct_iff)
  moreover have "snd ` set ?stay \<subseteq> set (remove1 h (bq_consumers q))"
    using ok by (auto simp: queue_ok_def bq_busy_def)
  moreover have "distinct (map snd ?stay)" using ok by (simp add: queue_ok_def distinct_map_filter)
  moreover have "\<forall>(m, c) \<in> set ?stay. owner_of (remove1 h (bq_consumers q)) (bq_groupAffinity q) (group_of m) = Some c"
    if "bq_partitionByGroup q"
    using ok that by (fastforce simp: queue_ok_def owner_of_def split: option.splits if_splits)
  ultimately show "queue_ok (release h ?q)"
    using ok unfolding rel queue_ok_def bq_busy_def by (auto intro: le_trans [OF length_filter_le])
qed

lemma release_config: "config (release h q) = config q"
proof -
  have "config (foldl (\<lambda>q (m, owner). if owner = h
      then q\<lparr>bq_inflight := inflight_delete (bm_ref m) (bq_inflight q), bq_pending := m # bq_pending q\<rparr>
      else q) q xs) = config q" for xs
    by (induction xs arbitrary: q) auto
  then show ?thesis by (simp add: release_def)
qed

lemma unsubscribe_eq:
  "unsubscribe qr h b = pump qr (set_queue qr
     (release h ((q_at b qr)\<lparr>bq_consumers := remove1 h (bq_consumers (q_at b qr))\<rparr>)) b)"
  by (simp add: unsubscribe_def Let_def)

lemma unsubscribe_ok_topology:
  assumes ok: "bus_ok b" and qr: "qr < length (b_objs b)"
  shows "bus_ok (unsubscribe qr h b) \<and> same_topology b (unsubscribe qr h b)"
proof -
  let ?q = "release h ((q_at b qr)\<lparr>bq_consumers := remove1 h (bq_consumers (q_at b qr))\<rparr>)"
  have q: "queue_ok (q_at b qr)" using ok qr by (simp add: queues_okD bus_okD)
  have "bus_ok (set_queue qr ?q b)"
    by (rule set_queue_smaller_ok [OF ok qr release_queue_ok(1) [OF q]])
      (simp_all add: release_config release_queue_ok(2) [OF q])
  moreover have "same_topology b (set_queue qr ?q b)"
    by (rule same_topology_set_queue) (simp add: release_config)
  ultimately show ?thesis
    using qr same_topology_trans [OF _ pump_topology] by (auto simp: unsubscribe_eq intro: pump_ok)
qed

section \<open>Every reachable bus is well formed\<close>

lemma empty_bus_ok: "bus_ok empty_bus" "all_saturated empty_bus"
  by (simp_all add: bus_ok_def queues_ok_def idx_ok_def refs_ok_def empty_bus_def live_def
      parked_def all_saturated_def)

lemma settle_delivery_ok:
  assumes "bus_ok b" "i < length (b_delivered b)"
  shows "bus_ok (settle_delivery res i b)"
proof -
  have "dl_queue (b_delivered b ! i) < length (b_objs b)"
    using bus_okD(2) [OF assms(1)] assms(2) by (simp add: idx_ok_def)
  from settle_ok_topology [OF assms(1) this]
  show ?thesis
    by (simp add: settle_delivery_def Let_def bus_ok_def queues_ok_def idx_ok_def refs_ok_def)
qed

lemma run_microtask_ok: "bus_ok b \<Longrightarrow> bus_ok (run_microtask b)"
  by (auto simp: run_microtask_def bus_ok_def queues_ok_def idx_ok_def refs_ok_def split: list.splits)

lemma bus_step_ok: "bus_step b e b' \<Longrightarrow> bus_ok b \<Longrightarrow> bus_ok b'"
proof (induction rule: bus_step.induct)
  case (dispose b)
  then show ?case by (simp add: dispose_def bus_ok_def queues_ok_def idx_ok_def refs_ok_def)
next
  case (tick dt b)
  then show ?case by (simp add: bus_ok_def queues_ok_def idx_ok_def refs_ok_def)
qed (simp_all add: publish_ok subscribe_ok unsubscribe_ok_topology run_microtask_ok ack_def nack_def
    handler_throws_def settle_delivery_ok fire_timer_ok_topology)

lemma reachable_bus_ok: "reachable b \<Longrightarrow> bus_ok b"
  by (induction rule: reachable.induct) (auto simp: empty_bus_ok bus_step_ok)

end
