(* ===== verification/Bus_Laws.thy ===== *)
theory Bus_Laws
  imports Bus_Steps
begin

text \<open>
  Laws about single messages that every operation of the bus keeps. The interface
  \<open>message_law\<close> says what a law must satisfy at the four places where a message changes its
  status (published, handed out, retried, given back by a dropped consumer); the lemmas of the
  locale carry such a law through every operation. Two laws are proved through it: the bound on
  delivery attempts, and that a queue only ever holds messages of its topic that pass its filter.
\<close>

section \<open>The stream log\<close>

definition log_ok :: "Bus \<Rightarrow> bool" where
  "log_ok b \<longleftrightarrow> (\<forall>t ms. b_streamLog b t = Some ms \<longrightarrow> (\<forall>m \<in> set ms. bm_topic m = t))"

lemma log_ok_coalesce: "log_ok b \<Longrightarrow> m \<in> set (coalesce (b_streamLog b t) []) \<Longrightarrow> bm_topic m = t"
  by (cases "b_streamLog b t") (auto simp: log_ok_def)

section \<open>What the pump does to single messages\<close>

lemma pump_queue_handed:
  "pump_queue q = (q', ds) \<Longrightarrow> (m, c) \<in> set ds \<Longrightarrow> \<exists>m0 \<in> set (bq_pending q). m = count_delivery m0"
proof (induction arbitrary: m c rule: pump_queue_induct)
  case (delivered q q' m0 c0 q'' ds)
  obtain pre post where "bq_pending q = pre @ m0 # post" "bq_pending q' = pre @ post"
    using any.takes [OF TrueI delivered(1)] by blast
  with delivered show ?case by fastforce
qed simp_all

lemma publish_cases:
  obtains (duplicate) "is_duplicate opts b" "publish topic body rk opts b = b"
  | (fresh) "\<not> is_duplicate opts b"
      "publish topic body rk opts b =
         fold (enqueue topic body (coalesce rk topic) opts) (coalesce (b_byTopic b topic) [])
           (append_log topic body (coalesce rk topic) opts (mark_seen opts b))"
  by (cases "is_duplicate opts b") (simp_all add: publish_eq)

lemma q_at_set_queue_either:
  "q_at (set_queue qr q b) i = q_at b i \<or> i = qr \<and> q_at (set_queue qr q b) i = q"
  by (cases "i = qr"; cases "qr < length (b_objs b)") (simp_all add: set_queue_def q_at_def list_update_beyond)

section \<open>The interface\<close>

locale message_law =
  fixes waiting :: "BusQueue \<Rightarrow> BusMessage \<Rightarrow> bool"
    and out :: "BusQueue \<Rightarrow> BusMessage \<Rightarrow> bool"
    and drops :: bool
  assumes by_config: "config q' = config q \<Longrightarrow> waiting q' m = waiting q m \<and> out q' m = out q m"
    and published: "matches q key \<Longrightarrow> bq_topic q = topic \<Longrightarrow>
      waiting q (mk_message r i topic body key opts)"
    and seeded: "matches q (bm_routingKey m) \<Longrightarrow> bm_topic m = bq_topic q \<Longrightarrow>
      waiting q (m\<lparr>bm_ref := r, bm_deliveryCount := 0\<rparr>)"
    and handed: "waiting q m \<Longrightarrow> out q (count_delivery m)"
    and retried: "out q m \<Longrightarrow> bm_deliveryCount m < bq_maxDeliveries q \<Longrightarrow> waiting q m"
    and given_back: "drops \<Longrightarrow> out q m \<Longrightarrow> waiting q m"
begin

definition queue_law :: "BusQueue \<Rightarrow> bool" where
  "queue_law q \<longleftrightarrow> (\<forall>m \<in> set (bq_pending q). waiting q m) \<and> (\<forall>(m, c) \<in> set (bq_inflight q). out q m)"

definition timer_law :: "Bus \<Rightarrow> timer_action \<Rightarrow> bool" where
  "timer_law b a = (\<forall>qr m. a = Redeliver qr m \<longrightarrow> waiting (q_at b qr) m)"

definition law :: "Bus \<Rightarrow> bool" where
  "law b \<longleftrightarrow> (\<forall>qr < length (b_objs b). queue_law (q_at b qr)) \<and>
     (\<forall>d \<in> set (b_microtasks b) \<union> set (b_delivered b). out (q_at b (dl_queue d)) (dl_message d)) \<and>
     (\<forall>tm \<in> set (b_timers b). timer_law b (tm_action tm)) \<and> log_ok b"

lemma queue_law_pump:
  assumes p: "pump_queue q = (q', ds)" and ok: "queue_ok q" and law: "queue_law q"
  shows "queue_law q'" and "\<forall>(m, c) \<in> set ds. out q m"
proof -
  show ds: "\<forall>(m, c) \<in> set ds. out q m"
    using pump_queue_handed [OF p] handed law by (fastforce simp: queue_law_def)
  have cfg: "config q' = config q" using pump_queue_config [OF p] by simp
  have "set (bq_pending q') \<subseteq> set (bq_pending q)" using pump_queue_pending [OF p] by simp
  moreover have "bq_inflight q' = bq_inflight q @ ds" using pump_queue_inflight [OF p] ok by simp
  ultimately show "queue_law q'"
    using law ds by_config [OF cfg] by (auto simp: queue_law_def)
qed

text \<open>An operation that changes one queue, and neither the log nor what was delivered.\<close>

lemma law_set_queue:
  assumes "law b" "config q = config (q_at b qr)" "queue_law q"
  shows "law (set_queue qr q b)"
proof -
  have same: "waiting (q_at (set_queue qr q b) i) m = waiting (q_at b i) m \<and>
      out (q_at (set_queue qr q b) i) m = out (q_at b i) m" for i m
    using by_config [OF assms(2)] q_at_set_queue_either [of qr q b i] by metis
  have "\<forall>i < length (b_objs b). queue_law (q_at (set_queue qr q b) i)"
    using assms by (auto simp: law_def set_queue_def q_at_def nth_update_if)
  moreover have "timer_law (set_queue qr q b) a = timer_law b a" for a
    using same by (simp add: timer_law_def)
  ultimately show ?thesis
    using assms(1) same by (auto simp: law_def log_ok_def)
qed

lemma law_microtasks:
  "law b \<Longrightarrow> \<forall>d \<in> set ds. out (q_at b (dl_queue d)) (dl_message d) \<Longrightarrow>
     law (b\<lparr>b_microtasks := b_microtasks b @ ds\<rparr>)"
  unfolding law_def timer_law_def log_ok_def q_at_cong by (simp add: ball_Un)

lemma law_pump:
  assumes law: "law b" and ok: "queues_ok b" and qr: "qr < length (b_objs b)"
  shows "law (pump qr b)"
proof -
  obtain q' ds where p: "pump_queue (q_at b qr) = (q', ds)" by (cases "pump_queue (q_at b qr)")
  have q: "queue_law (q_at b qr)" using law qr by (simp add: law_def)
  note ql = queue_law_pump [OF p queues_okD [OF ok qr] q]
  have cfg: "config q' = config (q_at b qr)" using pump_queue_config [OF p] by simp
  let ?b = "set_queue qr q' b"
  let ?ds = "map (\<lambda>(m, c). \<lparr>dl_queue = qr, dl_message = m, dl_consumer = c\<rparr>) ds"
  have "law ?b" by (rule law_set_queue [OF law cfg ql(1)])
  moreover have "\<forall>d \<in> set ?ds. out (q_at ?b (dl_queue d)) (dl_message d)"
    using ql(2) by_config [OF cfg] qr by (auto simp: bus_simps)
  ultimately have "law (?b\<lparr>b_microtasks := b_microtasks ?b @ ?ds\<rparr>)"
    by (rule law_microtasks)
  then show ?thesis by (simp add: pump_def p)
qed

lemma law_set_timeout: "law b \<Longrightarrow> timer_law b a \<Longrightarrow> law (set_timeout a ms b)"
  by (auto simp: law_def set_timeout_def timer_law_def log_ok_def q_at_def)

lemma law_push: "law b \<Longrightarrow> qr < length (b_objs b) \<Longrightarrow> waiting (q_at b qr) m \<Longrightarrow> law (push_pending qr m b)"
  unfolding push_pending_def
  by (rule law_set_queue) (use by_config [of "(q_at b qr)\<lparr>bq_pending := bq_pending (q_at b qr) @ [m]\<rparr>" "q_at b qr"]
      in \<open>auto simp: law_def queue_law_def\<close>)

lemma law_counters: "law (b\<lparr>b_seq := x, b_nextRef := y\<rparr>) = law b" "law (b\<lparr>b_nextRef := y\<rparr>) = law b"
  "law (b\<lparr>b_seq := x\<rparr>) = law b"
  by (simp_all add: law_def log_ok_def timer_law_def)

lemma law_enqueue:
  assumes ok: "bus_ok b" and law: "law b" and qr: "qr < length (b_objs b)"
    and topic: "bq_topic (q_at b qr) = topic"
  shows "law (enqueue topic body key opts qr b)"
proof (cases rule: enqueue_cases [of b qr key topic body opts])
  case skip
  with law show ?thesis by simp
next
  case (push msg)
  let ?b0 = "b\<lparr>b_seq := Suc (b_seq b)\<rparr>"
  let ?b = "?b0\<lparr>b_nextRef := Suc (b_nextRef ?b0)\<rparr>"
  have "waiting (q_at ?b qr) msg" using push published topic by simp
  then have "law (push_pending qr msg ?b)" using law qr by (intro law_push) (simp_all add: law_counters)
  then have "law (arm_ttl opts qr msg (push_pending qr msg ?b))"
    by (auto simp: arm_ttl_def timer_law_def intro: law_set_timeout split: option.splits)
  moreover have "bus_ok (push_pending qr msg ?b)"
    using seq_ok [OF ok] qr push(2) by (intro push_pending_ok) simp_all
  then have "bus_ok (arm_ttl opts qr msg (push_pending qr msg ?b))" using qr by (intro arm_ttl_ok) simp_all
  ultimately show ?thesis using push(3) qr by (simp add: law_pump bus_okD)
qed

lemma law_fold_enqueue:
  "bus_ok b \<Longrightarrow> law b \<Longrightarrow> \<forall>qr \<in> set qrs. qr < length (b_objs b) \<and> bq_topic (q_at b qr) = topic \<Longrightarrow>
     law (fold (enqueue topic body key opts) qrs b)"
proof (induction qrs arbitrary: b)
  case Nil
  then show ?case by simp
next
  case (Cons qr qrs)
  let ?b = "enqueue topic body key opts qr b"
  note top = enqueue_topology [of b topic body key opts qr]
  have "bq_topic (q_at ?b x) = bq_topic (q_at b x)" if "x < length (b_objs b)" for x
    by (rule config_fields(1) [OF same_topology_config [OF top that]])
  then have "\<forall>x \<in> set qrs. x < length (b_objs ?b) \<and> bq_topic (q_at ?b x) = topic"
    using Cons.prems same_topology_len [OF top] by simp
  moreover have "bus_ok ?b" "law ?b" using Cons.prems by (simp_all add: enqueue_ok law_enqueue)
  ultimately show ?case using Cons.IH [of ?b] by simp
qed

lemma law_append_log: "law b \<Longrightarrow> law (append_log topic body key opts b)"
proof -
  assume law: "law b"
  have "log_ok (append_log topic body key opts b)"
    using law log_ok_coalesce [of b] by (auto simp: law_def log_ok_def append_log_def Let_def)
  with law show ?thesis by (simp add: law_def timer_law_def)
qed

lemma law_mark_seen: "law (mark_seen opts b) = law b"
  by (simp add: law_def timer_law_def mark_seen_def log_ok_def split: option.splits)

lemma law_publish:
  assumes ok: "bus_ok b" and law: "law b"
  shows "law (publish topic body rk opts b)"
proof (cases rule: publish_cases [of opts b topic body rk])
  case duplicate
  with law show ?thesis by simp
next
  case fresh
  let ?b = "append_log topic body (coalesce rk topic) opts (mark_seen opts b)"
  have "bus_ok ?b" "law ?b" using ok law by (simp_all add: append_log_ok mark_seen_ok law_append_log law_mark_seen)
  with fresh show ?thesis
    using idx_ok_topic_bound [OF bus_okD(2) [OF ok], of topic] idx_ok_topic_topic [OF bus_okD(2) [OF ok], of topic]
    by (simp add: law_fold_enqueue)
qed

lemma law_drop_inflight: "queue_law q \<Longrightarrow> queue_law (drop_inflight r q)"
  using by_config [of "drop_inflight r q" q]
  by (auto simp: queue_law_def drop_inflight_def inflight_delete_def)

lemma law_take_inflight:
  assumes "law b" "qr < length (b_objs b)"
  shows "law (take_inflight qr r b)"
  unfolding take_inflight_eq
  by (rule law_set_queue [OF assms(1)]) (use assms in \<open>simp_all add: law_drop_inflight law_def, simp add: drop_inflight_def\<close>)

lemma law_publish_after:
  "bus_ok b \<Longrightarrow> law b \<Longrightarrow> law (deadLetter qr m b)"
  by (simp add: deadLetter_def law_publish)

lemma law_settle:
  assumes ok: "bus_ok b" and law: "law b" and qr: "qr < length (b_objs b)"
  shows "law (settle res qr r h b)"
proof (cases rule: settle_cases [of r b qr h res])
  case stale
  with law show ?thesis by simp
next
  case (acked m)
  with take_inflight_ok [OF ok qr acked(1)] law_take_inflight [OF law qr] qr
  show ?thesis by (simp add: law_pump bus_okD)
next
  case (dead m)
  let ?b = "take_inflight qr r b"
  have b: "bus_ok ?b" by (rule take_inflight_ok [OF ok qr dead(1)])
  have "length (b_objs (deadLetter qr m ?b)) = length (b_objs b)"
    using same_topology_len [OF deadLetter_ok_topology [OF b, THEN conjunct2]] by simp
  with b dead law_take_inflight [OF law qr] qr show ?thesis
    by (simp add: law_pump bus_okD deadLetter_ok_topology law_publish_after)
next
  case (parks m ms)
  let ?b = "take_inflight qr r b"
  note b = take_inflight_ok [OF ok qr parks(1)] take_inflight_live [OF ok qr parks(1)]
  have "out (q_at b qr) m"
    using law qr inflight_get_Some(2) [OF parks(1)] by (auto simp: law_def queue_law_def)
  then have "waiting (q_at b qr) m" using retried parks(3) by simp
  then have "waiting (q_at ?b qr) m"
    using by_config [OF same_topology_config [OF take_inflight_topology qr]] by simp
  then have "law (set_timeout (Redeliver qr m) ms ?b)"
    using law_take_inflight [OF law qr] by (intro law_set_timeout) (simp_all add: timer_law_def)
  moreover have "bus_ok (set_timeout (Redeliver qr m) ms ?b)"
    using qr by (intro parked_fresh_ok [OF ok b]) simp_all
  ultimately show ?thesis using parks(6) qr by (simp add: law_pump bus_okD)
next
  case (again m)
  let ?b = "take_inflight qr r b"
  note b = take_inflight_ok [OF ok qr again(1)] take_inflight_live [OF ok qr again(1)]
  have "out (q_at b qr) m"
    using law qr inflight_get_Some(2) [OF again(1)] by (auto simp: law_def queue_law_def)
  then have "waiting (q_at b qr) m" using retried again(3) by simp
  then have "waiting (q_at ?b qr) m"
    using by_config [OF same_topology_config [OF take_inflight_topology qr]] by simp
  then have "law (push_pending qr m ?b)" using law_take_inflight [OF law qr] qr by (intro law_push) simp_all
  moreover have "bus_ok (push_pending qr m ?b)" using qr by (intro parked_fresh_ok [OF ok b]) simp_all
  ultimately show ?thesis using again(5) qr by (simp add: law_pump bus_okD)
qed

lemma law_settle_delivery:
  assumes "bus_ok b" "law b" "i < length (b_delivered b)"
  shows "law (settle_delivery res i b)"
proof -
  have "dl_queue (b_delivered b ! i) < length (b_objs b)"
    using bus_okD(2) [OF assms(1)] assms(3) by (simp add: idx_ok_def)
  from law_settle [OF assms(1,2) this] show ?thesis
    by (simp add: settle_delivery_def Let_def law_def log_ok_def timer_law_def)
qed

lemma law_expire:
  assumes ok: "bus_ok b" and law: "law b" and qr: "qr < length (b_objs b)"
  shows "law (expire qr r body key b)"
proof -
  consider (pending) "\<exists>m \<in> set (bq_pending (q_at b qr)). bm_ref m = r"
    | (inflight) m c where "\<not> (\<exists>m \<in> set (bq_pending (q_at b qr)). bm_ref m = r)"
        "inflight_get r (bq_inflight (q_at b qr)) = Some (m, c)"
    | (gone) "\<not> (\<exists>m \<in> set (bq_pending (q_at b qr)). bm_ref m = r)"
        "inflight_get r (bq_inflight (q_at b qr)) = None"
    by (cases "inflight_get r (bq_inflight (q_at b qr))") auto
  then show ?thesis
  proof cases
    case pending
    obtain pre m post where p: "bq_pending (q_at b qr) = pre @ m # post"
      "remove_ref r (bq_pending (q_at b qr)) = pre @ post"
      using remove_ref_split [OF pending] by blast
    let ?q = "(q_at b qr)\<lparr>bq_pending := pre @ post\<rparr>"
    have "queue_law ?q"
      using law qr p(1) by_config [of ?q "q_at b qr"] by (auto simp: law_def queue_law_def)
    then have "law (drop_pending qr r b)"
      unfolding drop_pending_def p(2) by (intro law_set_queue [OF law]) simp_all
    with pending drop_pending_ok [OF ok qr pending] show ?thesis
      unfolding expire_def Let_def if_P [OF pending] by (simp add: law_publish)
  next
    case inflight
    with law_take_inflight [OF law qr] take_inflight_ok [OF ok qr inflight(2)]
    show ?thesis unfolding expire_def Let_def if_not_P [OF inflight(1)] by (simp add: law_publish)
  next
    case gone
    with law show ?thesis by (simp add: expire_def Let_def)
  qed
qed

lemma law_fire_timer:
  assumes ok: "bus_ok b" and law: "law b" and i: "i < length (b_timers b)"
  shows "law (fire_timer i b)"
proof -
  let ?b = "b\<lparr>b_timers := splice1 i (b_timers b)\<rparr>"
  note ok' = unschedule_ok [OF ok i]
  have law': "law ?b"
    using law set_splice1_subset [of i "b_timers b"] by (auto simp: law_def log_ok_def timer_law_def)
  have qr: "timer_queue (tm_action (b_timers b ! i)) < length (b_objs b)"
    using bus_okD(2) [OF ok] i by (simp add: idx_ok_def)
  show ?thesis
  proof (cases "tm_action (b_timers b ! i)")
    case (Expire qr r body key)
    with qr law_expire [OF ok' law'] show ?thesis by (simp add: fire_timer_def)
  next
    case (Redeliver qr m)
    with qr have len: "qr < length (b_objs ?b)" by simp
    have "live b = add_mset (bare m) (live ?b)" using unschedule_live [OF i] Redeliver by simp
    from parked_fresh_ok(2) [OF ok ok' this _ len] have "bus_ok (push_pending qr m ?b)" by simp
    moreover have "timer_law b (Redeliver qr m)"
      using law nth_mem [OF i] Redeliver unfolding law_def by metis
    then have "law (push_pending qr m ?b)"
      using len by (intro law_push [OF law']) (simp_all add: timer_law_def)
    ultimately show ?thesis using Redeliver len by (simp add: fire_timer_def law_pump bus_okD)
  qed
qed

lemma law_seed:
  "bus_ok b \<Longrightarrow> law b \<Longrightarrow> qr < length (b_objs b) \<Longrightarrow> \<forall>m \<in> set ms. bm_topic m = bq_topic (q_at b qr) \<Longrightarrow>
     law (fold (seed_one qr) ms b)"
proof (induction ms arbitrary: b)
  case Nil
  then show ?case by simp
next
  case (Cons m ms)
  let ?m = "m\<lparr>bm_ref := b_nextRef b, bm_deliveryCount := 0\<rparr>"
  note s = seed_one_ok_topology [OF Cons.prems(1,3), of m]
  have "law (push_pending qr ?m (b\<lparr>b_nextRef := Suc (b_nextRef b)\<rparr>))"
    if "matches (q_at b qr) (bm_routingKey m)"
    using Cons.prems that seeded by (intro law_push) (simp_all add: law_counters)
  then have "law (seed_one qr m b)" using Cons.prems(2) by (simp add: seed_one_def)
  moreover have "bq_topic (q_at (seed_one qr m b) qr) = bq_topic (q_at b qr)"
    using s by (intro config_fields(1) same_topology_config [OF _ Cons.prems(3)]) simp
  ultimately show ?case using Cons s same_topology_len by simp metis
qed

lemma law_register:
  assumes ok: "bus_ok b" and law: "law b" and q: "queue_law q"
  shows "law (register topic k q b)"
proof -
  have at: "q_at (register topic k q b) i = (if i = length (b_objs b) then q else q_at b i)"
    if "i \<le> length (b_objs b)" for i using that by simp
  have idx: "idx_ok b" using ok by (rule bus_okD)
  then have d: "dl_queue d < length (b_objs b)" if "d \<in> set (b_microtasks b) \<union> set (b_delivered b)" for d
    using that by (auto simp: idx_ok_def)
  have t: "timer_law (register topic k q b) (tm_action tm) = timer_law b (tm_action tm)"
    if "tm \<in> set (b_timers b)" for tm
  proof -
    have "timer_queue (tm_action tm) < length (b_objs b)" using idx that by (simp add: idx_ok_def)
    then show ?thesis by (cases "tm_action tm") (simp_all add: timer_law_def)
  qed
  have sel: "b_microtasks (register topic k q b) = b_microtasks b"
    "b_delivered (register topic k q b) = b_delivered b" "b_timers (register topic k q b) = b_timers b"
    "b_streamLog (register topic k q b) = b_streamLog b" by (simp_all add: register_def)
  have "queue_law (q_at (register topic k q b) i)" if "i \<le> length (b_objs b)" for i
    using at [OF that] law q that by (cases "i = length (b_objs b)") (simp_all add: law_def)
  then have "\<forall>i < length (b_objs (register topic k q b)). queue_law (q_at (register topic k q b) i)"
    by simp
  then show ?thesis using law d t by (simp add: law_def sel log_ok_def)
qed

lemma law_create_queue:
  assumes ok: "bus_ok b" and law: "law b"
  shows "law (create_queue topic k opts b)"
proof -
  have "queue_law (queue_for topic opts)" by (simp add: queue_law_def queue_for_def mk_queue_def)
  with law_register [OF ok law] have r: "law (register topic k (queue_for topic opts) b)" by simp
  moreover have "\<forall>m \<in> set (coalesce (b_streamLog b topic) []). bm_topic m = topic"
    using law log_ok_coalesce by (auto simp: law_def)
  ultimately show ?thesis using ok by (auto simp: create_queue_eq register_ok intro: law_seed)
qed

lemma law_add_consumer: "law b \<Longrightarrow> qr < length (b_objs b) \<Longrightarrow> law (add_consumer qr h b)"
  unfolding add_consumer_def
  by (rule law_set_queue) (use by_config [of "(q_at b qr)\<lparr>bq_consumers := bq_consumers (q_at b qr) @ [h]\<rparr>" "q_at b qr"]
      in \<open>auto simp: law_def queue_law_def\<close>)

lemma law_subscribe:
  assumes ok: "bus_ok b" and law: "law b"
  shows "law (fst (subscribe topic h opts b))"
proof (rule subscribe_cases [of b topic opts h])
  fix b0 k
  assume b0: "b0 = b \<or> b0 = b\<lparr>b_seq := Suc (b_seq b)\<rparr>" and sub: "subscribe topic h opts b =
       (case b_queues b0 k of
          Some qr \<Rightarrow> (pump qr (add_consumer qr h b0), (qr, h))
        | None \<Rightarrow> (pump (length (b_objs b0)) (add_consumer (length (b_objs b0)) h
                     (create_queue topic k opts b0)), (length (b_objs b0), h)))"
  have ok0: "bus_ok b0" "law b0" using b0 ok law seq_ok law_counters(3) by auto
  have add: "law (pump qr (add_consumer qr h c))" if "bus_ok c" "law c" "qr < length (b_objs c)" for qr c
  proof -
    have "length (b_objs (add_consumer qr h c)) = length (b_objs c)" by (simp add: add_consumer_def)
    with that show ?thesis by (simp add: law_pump law_add_consumer bus_okD add_consumer_ok)
  qed
  show ?thesis
  proof (cases "b_queues b0 k")
    case None
    from create_queue_ok [OF ok0(1), of topic k opts] law_create_queue [OF ok0] show ?thesis
      by (simp add: sub None add)
  next
    case (Some qr)
    then have "qr < length (b_objs b0)" using bus_okD(2) [OF ok0(1)] by (simp add: idx_ok_def)
    then show ?thesis by (simp add: sub Some add ok0)
  qed
qed

lemma law_unsubscribe:
  assumes ok: "bus_ok b" and law: "law b" and qr: "qr < length (b_objs b)" and drops: drops
  shows "law (unsubscribe qr h b)"
proof -
  let ?q0 = "(q_at b qr)\<lparr>bq_consumers := remove1 h (bq_consumers (q_at b qr))\<rparr>"
  have q: "queue_ok (q_at b qr)" using ok qr by (simp add: queues_okD bus_okD)
  have "distinct (map (bm_ref \<circ> fst) (bq_inflight ?q0))" using q by (simp add: queue_ok_def)
  note rel = release_eq [OF this, of h]
  have ql: "queue_law (q_at b qr)" using law qr by (simp add: law_def)
  have cfg: "config (release h ?q0) = config (q_at b qr)" by (simp add: release_config)
  have "queue_law (release h ?q0)"
    using ql by_config [OF cfg] given_back [OF drops]
    unfolding queue_law_def rel returned_def by fastforce
  from law_set_queue [OF law cfg this] have "law (set_queue qr (release h ?q0) b)" .
  moreover have "bus_ok (set_queue qr (release h ?q0) b)"
    by (rule set_queue_smaller_ok [OF ok qr release_queue_ok(1) [OF q] cfg])
      (simp add: release_queue_ok(2) [OF q])
  ultimately show ?thesis using qr by (simp add: unsubscribe_eq law_pump bus_okD)
qed

lemma law_step:
  "bus_step b e b' \<Longrightarrow> bus_ok b \<Longrightarrow> law b \<Longrightarrow> (\<forall>qr h. e = EUnsubscribe qr h \<longrightarrow> drops) \<Longrightarrow> law b'"
proof (induction rule: bus_step.induct)
  case (dispose b)
  then show ?case by (simp add: dispose_def law_def log_ok_def timer_law_def)
next
  case (tick dt b)
  then show ?case by (simp add: law_def log_ok_def timer_law_def)
next
  case (microtask b)
  then show ?case
    by (auto simp: run_microtask_def law_def log_ok_def timer_law_def split: list.splits)
qed (simp_all add: law_publish law_subscribe law_unsubscribe ack_def nack_def
    handler_throws_def law_settle_delivery law_fire_timer)

lemma law_run:
  assumes "run es empty_bus = Some b" and "\<forall>qr h. EUnsubscribe qr h \<in> set es \<longrightarrow> drops"
  shows "law b"
proof -
  have "law b \<and> bus_ok b"
    using assms(1)
  proof (induction rule: run_induct)
    case start
    show ?case by (simp add: law_def empty_bus_def log_ok_def empty_bus_ok [unfolded empty_bus_def])
  next
    case (step b e b')
    then show ?case using law_step bus_step_ok assms(2) by blast
  qed
  then show ?thesis ..
qed

end

section \<open>Two laws\<close>

text \<open>The number of attempts: \<open>Suc\<close> of the attempts made stays within the limit, which is at least 1.\<close>

definition attempt_limit :: "BusQueue \<Rightarrow> nat" where
  "attempt_limit q = max 1 (bq_maxDeliveries q)"

interpretation attempts: message_law
  "\<lambda>q m. bm_deliveryCount m < attempt_limit q"
  "\<lambda>q m. 0 < bm_deliveryCount m \<and> bm_deliveryCount m \<le> attempt_limit q"
  False
proof
  fix q q' :: BusQueue and m
  assume "config q' = config q"
  from config_fields(4) [OF this]
  show "(bm_deliveryCount m < attempt_limit q') = (bm_deliveryCount m < attempt_limit q) \<and>
      (0 < bm_deliveryCount m \<and> bm_deliveryCount m \<le> attempt_limit q') =
      (0 < bm_deliveryCount m \<and> bm_deliveryCount m \<le> attempt_limit q)"
    by (simp add: attempt_limit_def)
qed (auto simp: attempt_limit_def count_delivery_def)

text \<open>Routing: a message is only ever where its topic and routing key put it.\<close>

definition belongs :: "BusQueue \<Rightarrow> BusMessage \<Rightarrow> bool" where
  "belongs q m \<longleftrightarrow> bm_topic m = bq_topic q \<and> matches q (bm_routingKey m)"

interpretation routing: message_law belongs belongs True
proof
  fix q q' :: BusQueue and m
  assume cfg: "config q' = config q"
  show "belongs q' m = belongs q m \<and> belongs q' m = belongs q m"
    using config_fields(1) [OF cfg] config_matches [OF cfg] by (simp add: belongs_def)
qed (auto simp: belongs_def count_delivery_def)

end
