(* ===== verification/Bus_Progress.thy ===== *)
theory Bus_Progress
  imports Bus_Laws
begin

text \<open>
  No consumer idles while a message it could take is waiting: saturation of every queue is kept by
  every event, except by the expiry of a message in flight.
\<close>

section \<open>Saturation, operation by operation\<close>

lemma stuck_pending: "stuck (q\<lparr>bq_pending := ps\<rparr>) m = stuck q m"
  by (simp add: stuck_def)

lemma saturated_fewer:
  "saturated q \<Longrightarrow> set ps \<subseteq> set (bq_pending q) \<Longrightarrow> saturated (q\<lparr>bq_pending := ps\<rparr>)"
  by (auto simp: saturated_def stuck_pending)

lemma pump_keeps_saturated:
  "qr < length (b_objs b) \<Longrightarrow> i = qr \<or> saturated (q_at b i) \<Longrightarrow> saturated (q_at (pump qr b) i)"
  using pump_saturated [of qr b] by (cases "i = qr") (auto simp: pump_at)

lemma set_queue_other: "i \<noteq> qr \<Longrightarrow> q_at (set_queue qr q b) i = q_at b i"
  by (simp add: q_at_def set_queue_def)

lemma one_queue_other:
  "i \<noteq> qr \<Longrightarrow> q_at (take_inflight qr r b) i = q_at b i"
  "i \<noteq> qr \<Longrightarrow> q_at (push_pending qr m b) i = q_at b i"
  "i \<noteq> qr \<Longrightarrow> q_at (add_consumer qr h b) i = q_at b i"
  "i \<noteq> qr \<Longrightarrow> q_at (drop_pending qr r b) i = q_at b i"
  by (simp_all add: take_inflight_def push_pending_def add_consumer_def drop_pending_def set_queue_other)

lemma settle_saturated:
  assumes ok: "bus_ok b" and qr: "qr < length (b_objs b)" and sat: "saturated (q_at b i)"
  shows "saturated (q_at (settle res qr r h b) i)"
proof (cases rule: settle_cases [of r b qr h res])
  case stale
  with sat show ?thesis by simp
next
  case (acked m)
  with qr sat show ?thesis by (cases "i = qr") (simp_all add: pump_keeps_saturated one_queue_other)
next
  case (dead m)
  let ?b = "take_inflight qr r b"
  have b: "bus_ok ?b" by (rule take_inflight_ok [OF ok qr dead(1)])
  have "length (b_objs (deadLetter qr m ?b)) = length (b_objs b)"
    using same_topology_len [OF deadLetter_ok_topology [OF b, THEN conjunct2]] by simp
  moreover have "i = qr \<or> saturated (q_at (deadLetter qr m ?b) i)"
    using sat b by (cases "i = qr") (simp_all add: deadLetter_def publish_saturated one_queue_other)
  ultimately show ?thesis using dead(3) qr by (simp add: pump_keeps_saturated)
next
  case (parks m ms)
  with qr sat show ?thesis by (cases "i = qr") (simp_all add: pump_keeps_saturated one_queue_other)
next
  case (again m)
  with qr sat show ?thesis by (cases "i = qr") (simp_all add: pump_keeps_saturated one_queue_other)
qed

lemma fold_seed_other:
  "i \<noteq> qr \<Longrightarrow> q_at (fold (seed_one qr) ms b) i = q_at b i"
  by (induction ms arbitrary: b) (simp_all add: seed_one_def one_queue_other)

lemma subscribe_saturated:
  assumes ok: "bus_ok b" and sat: "all_saturated b"
  shows "all_saturated (fst (subscribe topic h opts b))"
proof (rule subscribe_cases [of b topic opts h])
  fix b0 k
  assume b0: "b0 = b \<or> b0 = b\<lparr>b_seq := Suc (b_seq b)\<rparr>" and sub: "subscribe topic h opts b =
       (case b_queues b0 k of
          Some qr \<Rightarrow> (pump qr (add_consumer qr h b0), (qr, h))
        | None \<Rightarrow> (pump (length (b_objs b0)) (add_consumer (length (b_objs b0)) h
                     (create_queue topic k opts b0)), (length (b_objs b0), h)))"
  have ok0: "bus_ok b0" "all_saturated b0"
    using b0 ok sat seq_ok by (auto simp: all_saturated_def)
  have len: "length (b_objs (add_consumer qr h c)) = length (b_objs c)" for qr c
    by (simp add: add_consumer_def)
  show ?thesis
  proof (cases "b_queues b0 k")
    case None
    let ?n = "length (b_objs b0)" and ?c = "create_queue topic k opts b0"
    have "q_at ?c i = q_at b0 i" if "i < ?n" for i
      using that by (simp add: create_queue_eq fold_seed_other)
    then have "\<forall>i < Suc ?n. i = ?n \<or> saturated (q_at (add_consumer ?n h ?c) i)"
      using ok0(2) by (simp add: all_saturated_def less_Suc_eq one_queue_other)
    then show ?thesis
      using create_queue_ok [OF ok0(1), of topic k opts] sub None len
      by (simp add: all_saturated_def pump_keeps_saturated)
  next
    case (Some qr)
    then have "qr < length (b_objs b0)" using bus_okD(2) [OF ok0(1)] by (simp add: idx_ok_def)
    moreover have "i = qr \<or> saturated (q_at (add_consumer qr h b0) i)" if "i < length (b_objs b0)" for i
      using ok0(2) that by (cases "i = qr") (simp_all add: all_saturated_def one_queue_other)
    ultimately show ?thesis using sub Some len by (simp add: all_saturated_def pump_keeps_saturated)
  qed
qed

lemma unsubscribe_saturated:
  "qr < length (b_objs b) \<Longrightarrow> saturated (q_at b i) \<Longrightarrow> saturated (q_at (unsubscribe qr h b) i)"
  by (cases "i = qr") (simp_all add: unsubscribe_eq pump_keeps_saturated set_queue_other)

section \<open>Expiry\<close>

text \<open>The timer of a message that a consumer still holds.\<close>

definition expires_inflight :: "Bus \<Rightarrow> event \<Rightarrow> bool" where
  "expires_inflight b e =
     (case e of
        ETimer i \<Rightarrow>
          (case tm_action (b_timers b ! i) of
             Expire qr r body key \<Rightarrow> inflight_get r (bq_inflight (q_at b qr)) \<noteq> None
           | Redeliver qr m \<Rightarrow> False)
      | _ \<Rightarrow> False)"

lemma expire_pending_saturated:
  assumes ok: "bus_ok b" and qr: "qr < length (b_objs b)" and sat: "saturated (q_at b i)"
    and "inflight_get r (bq_inflight (q_at b qr)) = None"
  shows "saturated (q_at (expire qr r body key b) i)"
proof (cases "\<exists>m \<in> set (bq_pending (q_at b qr)). bm_ref m = r")
  case False
  with assms show ?thesis by (simp add: expire_def Let_def)
next
  case True
  obtain pre m post where "bq_pending (q_at b qr) = pre @ m # post"
    "remove_ref r (bq_pending (q_at b qr)) = pre @ post"
    using remove_ref_split [OF True] by blast
  then have "set (remove_ref r (bq_pending (q_at b qr))) \<subseteq> set (bq_pending (q_at b qr))" by auto
  then have "saturated (q_at (drop_pending qr r b) i)"
    using sat qr by (cases "i = qr") (simp_all add: drop_pending_def bus_simps saturated_fewer)
  with publish_saturated [OF drop_pending_ok [OF ok qr True]]
  show ?thesis unfolding expire_def Let_def if_P [OF True] by blast
qed

lemma fire_timer_saturated:
  assumes ok: "bus_ok b" and i: "i < length (b_timers b)" and sat: "saturated (q_at b j)"
    and nex: "\<not> expires_inflight b (ETimer i)"
  shows "saturated (q_at (fire_timer i b) j)"
proof -
  let ?b = "b\<lparr>b_timers := splice1 i (b_timers b)\<rparr>"
  have qr: "timer_queue (tm_action (b_timers b ! i)) < length (b_objs b)"
    using bus_okD(2) [OF ok] i by (simp add: idx_ok_def)
  show ?thesis
  proof (cases "tm_action (b_timers b ! i)")
    case (Expire qr r body key)
    with qr nex sat expire_pending_saturated [OF unschedule_ok [OF ok i], of qr j r body key]
    show ?thesis
      by (cases "inflight_get r (bq_inflight (q_at b qr))") (simp_all add: fire_timer_def expires_inflight_def)
  next
    case (Redeliver qr m)
    with qr sat show ?thesis
      by (cases "j = qr") (simp_all add: fire_timer_def pump_keeps_saturated one_queue_other)
  qed
qed

lemma settle_delivery_len:
  assumes "bus_ok b" "i < length (b_delivered b)"
  shows "length (b_objs (settle_delivery res i b)) = length (b_objs b)"
proof -
  have "dl_queue (b_delivered b ! i) < length (b_objs b)"
    using bus_okD(2) [OF assms(1)] assms(2) by (simp add: idx_ok_def)
  from same_topology_len [OF settle_ok_topology [OF assms(1) this, THEN conjunct2]] show ?thesis
    by (simp add: settle_delivery_def Let_def)
qed

lemma settle_delivery_saturated:
  assumes "bus_ok b" "i < length (b_delivered b)" "saturated (q_at b j)"
  shows "saturated (q_at (settle_delivery res i b) j)"
proof -
  have "dl_queue (b_delivered b ! i) < length (b_objs b)"
    using bus_okD(2) [OF assms(1)] assms(2) by (simp add: idx_ok_def)
  from settle_saturated [OF assms(1) this assms(3)] show ?thesis
    by (simp add: settle_delivery_def Let_def)
qed

lemma step_saturated:
  assumes "bus_step b e b'" "bus_ok b" "all_saturated b" "\<not> expires_inflight b e"
  shows "all_saturated b'"
proof -
  show ?thesis
    using assms
  proof (cases rule: bus_step.cases)
    case (publish t body rk opts)
    with assms same_topology_len [OF publish_topology [OF assms(2)]] show ?thesis
      by (simp add: all_saturated_def publish_saturated)
  next
    case (subscribe t h opts)
    with assms show ?thesis by (simp add: subscribe_saturated)
  next
    case (unsubscribe qr h)
    with assms same_topology_len [OF unsubscribe_ok_topology [OF assms(2), THEN conjunct2]]
    show ?thesis by (simp add: all_saturated_def unsubscribe_saturated)
  next
    case (timer i)
    with assms same_topology_len [OF fire_timer_ok_topology [OF assms(2), THEN conjunct2]]
    show ?thesis by (simp add: all_saturated_def fire_timer_saturated)
  next
    case microtask
    with assms show ?thesis by (simp add: all_saturated_def run_microtask_def split: list.splits)
  next
    case (ack i)
    with assms settle_delivery_len [OF assms(2)] show ?thesis
      by (simp add: all_saturated_def settle_delivery_saturated In_Memory_Bus.ack_def)
  next
    case (nack i r)
    with assms settle_delivery_len [OF assms(2)] show ?thesis
      by (simp add: all_saturated_def settle_delivery_saturated In_Memory_Bus.nack_def)
  next
    case (throws i)
    with assms settle_delivery_len [OF assms(2)] show ?thesis
      by (simp add: all_saturated_def settle_delivery_saturated In_Memory_Bus.nack_def handler_throws_def)
  next
    case (tick dt)
    with assms show ?thesis by (simp add: all_saturated_def)
  next
    case dispose
    with assms show ?thesis by (simp add: all_saturated_def In_Memory_Bus.dispose_def q_at_def)
  qed
qed

section \<open>Runs without a time to live\<close>

definition ttl_free :: "event \<Rightarrow> bool" where
  "ttl_free e = (case e of EPublish _ _ _ opts \<Rightarrow> opt_field po_ttlMs opts = None | _ \<Rightarrow> True)"

definition only_retries :: "Bus \<Rightarrow> bool" where
  "only_retries b \<longleftrightarrow> (\<forall>tm \<in> set (b_timers b). \<exists>qr m. tm_action tm = Redeliver qr m)"

lemma publish_no_ttl:
  assumes "opt_field po_ttlMs opts = None"
  shows "b_timers (publish topic body rk opts b) = b_timers b"
proof -
  have e: "b_timers (enqueue t body key opts qr b) = b_timers b" for t key qr b
    using assms by (simp add: enqueue_def Let_def arm_ttl_def)
  have "b_timers (fold (enqueue t body key opts) qrs b) = b_timers b" for t key qrs b
    by (induction qrs arbitrary: b) (simp_all add: e)
  then show ?thesis by (simp add: publish_eq mark_seen_def split: option.splits)
qed

lemma settle_only_retries: "only_retries b \<Longrightarrow> only_retries (settle res qr r h b)"
  by (cases rule: settle_cases [of r b qr h res])
    (auto simp: only_retries_def deadLetter_def publish_no_ttl opt_field_def set_timeout_def push_pending_def)

lemma subscribe_timers: "b_timers (fst (subscribe topic h opts b)) = b_timers b"
proof -
  have seed: "b_timers (fold (seed_one qr) ms b) = b_timers b" for qr ms b
    by (induction ms arbitrary: b) (simp_all add: seed_one_def)
  then have "b_timers (create_queue topic k opts b) = b_timers b" for k b
    by (simp add: create_queue_eq register_def)
  then show ?thesis
    by (rule_tac subscribe_cases [of b topic opts h]) (auto simp: add_consumer_def split: option.splits)
qed

lemma fire_timer_only_retries:
  assumes "only_retries b" "i < length (b_timers b)"
  shows "only_retries (fire_timer i b)"
proof -
  obtain qr m where "tm_action (b_timers b ! i) = Redeliver qr m"
    using assms nth_mem by (fastforce simp: only_retries_def)
  then have "b_timers (fire_timer i b) = splice1 i (b_timers b)" by (simp add: fire_timer_def)
  then show ?thesis
    using assms(1) set_splice1_subset [of i "b_timers b"] by (auto simp: only_retries_def)
qed

lemma step_only_retries:
  assumes "bus_step b e b'" "only_retries b" "ttl_free e"
  shows "only_retries b'"
proof -
  have settle: "only_retries (settle_delivery res i b)" for res i
    using settle_only_retries [OF assms(2)]
    by (simp add: settle_delivery_def Let_def only_retries_def)
  from assms show ?thesis
  proof (cases rule: bus_step.cases)
    case (publish t body rk opts)
    with assms show ?thesis by (simp add: ttl_free_def only_retries_def publish_no_ttl)
  next
    case (subscribe t h opts)
    with assms show ?thesis by (simp add: only_retries_def subscribe_timers)
  next
    case (timer i)
    with assms show ?thesis by (simp add: fire_timer_only_retries)
  qed (use assms settle in \<open>auto simp: only_retries_def unsubscribe_eq run_microtask_def ack_def nack_def
      handler_throws_def dispose_def split: list.splits\<close>)
qed

lemma only_retries_no_expiry:
  assumes "only_retries b" "bus_step b e b'"
  shows "\<not> expires_inflight b e"
proof
  assume ex: "expires_inflight b e"
  then obtain i where e: "e = ETimer i" by (cases e) (simp_all add: expires_inflight_def)
  with assms(2) have "i < length (b_timers b)" by (simp add: bus_step_simps)
  then obtain qr m where "tm_action (b_timers b ! i) = Redeliver qr m"
    using assms(1) nth_mem by (fastforce simp: only_retries_def)
  with ex e show False by (simp add: expires_inflight_def)
qed

lemma run_saturated:
  assumes "run es empty_bus = Some b" "\<forall>e \<in> set es. ttl_free e"
  shows "all_saturated b"
proof -
  have "all_saturated b \<and> bus_ok b \<and> only_retries b"
    using assms(1)
  proof (induction rule: run_induct)
    case start
    show ?case by (simp add: empty_bus_ok, simp add: only_retries_def empty_bus_def)
  next
    case (step b e b')
    then show ?case
      using step_saturated bus_step_ok step_only_retries only_retries_no_expiry assms(2) by blast
  qed
  then show ?thesis ..
qed

end
