(* ===== verification/Bus_Effects.thy ===== *)
theory Bus_Effects
  imports Bus_Progress
begin

text \<open>
  What the operations of the bus do to its messages: the order in which the pump hands them out,
  what settling adds and removes, dead-lettering, deduplication, replay.
\<close>

section \<open>The order of hand-out\<close>

text \<open>The message \<open>nextPending\<close> takes is the head of the stable sort by falling priority.\<close>

lemma sort_key_best:
  assumes "\<forall>x \<in> set pre. f m < f x" "\<forall>x \<in> set post. f m \<le> (f x :: int)"
  shows "sort_key f (pre @ m # post) = m # sort_key f (pre @ post)"
proof (rule properties_for_sort_key)
  show "mset (m # sort_key f (pre @ post)) = mset (pre @ m # post)" by simp
next
  fix k assume "k \<in> set (m # sort_key f (pre @ post))"
  have "filter (\<lambda>x. f k = f x) pre = []" if "f k = f m"
    using assms(1) that by (auto simp: filter_empty_conv)
  moreover have "filter (\<lambda>x. f k = f x) (sort_key f xs) = filter (\<lambda>x. f k = f x) xs" for xs
    using sort_key_stable [of f "f k" xs] by (simp add: eq_commute)
  ultimately show "filter (\<lambda>x. f k = f x) (m # sort_key f (pre @ post)) =
      filter (\<lambda>x. f k = f x) (pre @ m # post)"
    by (cases "f k = f m") simp_all
next
  show "sorted (map f (m # sort_key f (pre @ post)))"
    using assms by (auto simp: less_imp_le)
qed

lemma plainDelivery_best:
  assumes "plainDelivery q = (q', Some (m, c))"
  shows "sort_key (\<lambda>m. - prio m) (bq_pending q) = m # sort_key (\<lambda>m. - prio m) (bq_pending q')"
proof -
  obtain q1 where q1: "nextConsumer q = (q1, Some c)" "nextPending q1 = (q', Some m)"
    using plainDelivery_Some [OF assms] by blast
  from nextPending_Some [OF q1(2)] obtain pre post where
    "bq_pending q1 = pre @ m # post" "bq_pending q' = pre @ post"
    "\<forall>x \<in> set pre. prio x < prio m" "\<forall>x \<in> set post. prio x \<le> prio m" by blast
  moreover have "bq_pending q = bq_pending q1" using nextConsumer_frame [OF q1(1)] by simp
  ultimately show ?thesis using sort_key_best [of pre "\<lambda>m. - prio m" m post] by simp
qed

lemma inj_count_delivery: "inj count_delivery"
proof (rule injI)
  fix x y assume "count_delivery x = count_delivery y"
  then show "x = y" by (cases x; cases y) (simp add: count_delivery_def)
qed

lemma pump_queue_sorted:
  "pump_queue q = (q', ds) \<Longrightarrow> \<not> bq_partitionByGroup q \<longrightarrow>
     map count_delivery (sort_key (\<lambda>m. - prio m) (bq_pending q)) =
       map fst ds @ map count_delivery (sort_key (\<lambda>m. - prio m) (bq_pending q'))"
proof (induction rule: pump_queue_induct)
  case (refused q q')
  then show ?case using any.refuses [OF TrueI refused] by simp
next
  case (delivered q q' m c q'' ds)
  show ?case
  proof
    assume np: "\<not> bq_partitionByGroup q"
    with delivered(1) have "plainDelivery q = (q', Some (m, c))" by (simp add: nextDelivery_def)
    note best = plainDelivery_best [OF this]
    have "config q' = config q" using any.frame [OF TrueI delivered(1)] by simp
    from config_fields(7) [OF this] np have "\<not> bq_partitionByGroup (hand_out q' m c)"
      by (simp add: hand_out_def)
    with delivered.IH best
    show "map count_delivery (sort_key (\<lambda>m. - prio m) (bq_pending q)) =
        map fst ((count_delivery m, c) # ds) @
        map count_delivery (sort_key (\<lambda>m. - prio m) (bq_pending q''))" by simp
  qed
qed simp

lemma pump_queue_group_order:
  "pump_queue q = (q', ds) \<Longrightarrow> bq_partitionByGroup q \<longrightarrow>
     map count_delivery (filter (\<lambda>m. group_of m = g) (bq_pending q)) =
       filter (\<lambda>m. group_of m = g) (map fst ds) @
       map count_delivery (filter (\<lambda>m. group_of m = g) (bq_pending q'))"
proof (induction rule: pump_queue_induct)
  case (refused q q')
  then show ?case using any.refuses [OF TrueI refused] by simp
next
  case (delivered q q' m c q'' ds)
  show ?case
  proof
    assume part: "bq_partitionByGroup q"
    with delivered(1) have pick: "nextGroupDelivery q = (q', Some (m, c))" by (simp add: nextDelivery_def)
    obtain pre post where pp: "bq_pending q = pre @ m # post" "bq_pending q' = pre @ post"
      "\<forall>x \<in> set pre. group_of x \<noteq> group_of m"
      by (rule nextGroupDelivery_Some [OF pick]) blast
    have "filter (\<lambda>m. group_of m = g) pre = []" if "group_of m = g"
      using pp(3) that by (auto simp: filter_empty_conv)
    moreover have "config q' = config q" using any.frame [OF TrueI delivered(1)] by simp
    from config_fields(7) [OF this] part have "bq_partitionByGroup (hand_out q' m c)"
      by (simp add: hand_out_def)
    ultimately show "map count_delivery (filter (\<lambda>m. group_of m = g) (bq_pending q)) =
        filter (\<lambda>m. group_of m = g) (map fst ((count_delivery m, c) # ds)) @
        map count_delivery (filter (\<lambda>m. group_of m = g) (bq_pending q''))"
      using delivered.IH pp(1,2) by auto
  qed
qed simp

section \<open>Settling\<close>

lemma pump_held:
  assumes "queues_ok b" "qr < length (b_objs b)"
  shows "held (q_at (pump qr b) i) = held (q_at b i)"
proof (cases "i = qr")
  case True
  obtain q' ds where p: "pump_queue (q_at b qr) = (q', ds)" by (cases "pump_queue (q_at b qr)")
  with pump_queue_held [OF p] queues_okD [OF assms] True assms(2) show ?thesis
    by (simp add: pump_at)
qed (simp add: assms pump_at)

lemma settle_live:
  assumes ok: "bus_ok b" and qr: "qr < length (b_objs b)"
    and hit: "inflight_get r (bq_inflight (q_at b qr)) = Some (m, h)"
  shows "live b = add_mset (bare m) (live (settle Ack qr r h b))"
    and "bm_deliveryCount m < bq_maxDeliveries (q_at b qr) \<Longrightarrow> live (settle Requeue qr r h b) = live b"
    and "\<not> bq_deadLetter (q_at b qr) \<Longrightarrow> live b = add_mset (bare m) (live (settle Dead qr r h b))"
    and "\<not> bq_deadLetter (q_at b qr) \<Longrightarrow> bq_maxDeliveries (q_at b qr) \<le> bm_deliveryCount m \<Longrightarrow>
      live b = add_mset (bare m) (live (settle Requeue qr r h b))"
proof -
  let ?b = "take_inflight qr r b"
  note b = take_inflight_ok [OF ok qr hit] take_inflight_live [OF ok qr hit]
  have pump: "live (pump qr c) = live c" if "bus_ok c" "qr < length (b_objs c)" for c
    using that by (simp add: pump_live queues_okD bus_okD)
  have dead: "deadLetter qr m ?b = ?b" if "\<not> bq_deadLetter (q_at b qr)"
    using that config_fields(5) [OF same_topology_config [OF take_inflight_topology qr]]
    by (simp add: deadLetter_def)
  show "live b = add_mset (bare m) (live (settle Ack qr r h b))"
    using b qr by (simp add: settle_def hit pump)
  show "live b = add_mset (bare m) (live (settle Dead qr r h b))" if "\<not> bq_deadLetter (q_at b qr)"
    using b qr dead that by (simp add: settle_def hit pump)
  show "live b = add_mset (bare m) (live (settle Requeue qr r h b))"
    if "\<not> bq_deadLetter (q_at b qr)" "bq_maxDeliveries (q_at b qr) \<le> bm_deliveryCount m"
    using b qr dead that by (simp add: settle_def hit pump)
  show "live (settle Requeue qr r h b) = live b" if lim: "bm_deliveryCount m < bq_maxDeliveries (q_at b qr)"
  proof (cases rule: settle_cases [of r b qr h Requeue])
    case (parks m' ms)
    with hit b qr parked_fresh_ok(1) [OF ok b(1) b(2), of qr ms] show ?thesis
      by (simp add: pump live_simps)
  next
    case (again m')
    with hit b qr parked_fresh_ok(2) [OF ok b(1) b(2), of qr] show ?thesis
      by (simp add: pump live_simps)
  qed (use hit lim in simp_all)
qed

lemma dlq_other: "bq_topic q' = deadLetterAddress (bq_topic q) \<Longrightarrow> q' \<noteq> q"
  by (auto simp: deadLetterAddress_def)

text \<open>The exhausted or rejected message leaves its queue; the queues of the dead-letter address get a copy.\<close>

lemma dead_settle:
  assumes ok: "bus_ok b" and qr: "qr < length (b_objs b)"
    and hit: "inflight_get r (bq_inflight (q_at b qr)) = Some (m, h)"
    and res: "res = Dead \<or> res = Requeue \<and> bq_maxDeliveries (q_at b qr) \<le> bm_deliveryCount m"
    and dl: "bq_deadLetter (q_at b qr)"
  shows "held (q_at b qr) = add_mset (bare m) (held (q_at (settle res qr r h b) qr))"
    and "qd \<in> set (coalesce (b_byTopic b (deadLetterAddress (bq_topic (q_at b qr)))) []) \<Longrightarrow>
      matches (q_at b qd) (bm_routingKey m) \<Longrightarrow>
      \<exists>copy. published_as (deadLetterAddress (bq_topic (q_at b qr))) (bm_body m) (bm_routingKey m) None copy \<and>
        held (q_at (settle res qr r h b) qd) = add_mset copy (held (q_at b qd))"
proof -
  let ?b = "take_inflight qr r b" and ?dlq = "deadLetterAddress (bq_topic (q_at b qr))"
  let ?c = "publish ?dlq (bm_body m) (Some (bm_routingKey m)) None ?b"
  have b: "bus_ok ?b" by (rule take_inflight_ok [OF ok qr hit])
  note cfg = same_topology_config [OF take_inflight_topology [of b qr r] qr]
  have eq: "settle res qr r h b = pump qr ?c"
    using res hit dl config_fields(1,5) [OF cfg] by (auto simp: settle_def deadLetter_def)
  have c: "bus_ok ?c" "qr < length (b_objs ?c)"
    using publish_ok [OF b] same_topology_len [OF publish_topology [OF b]] qr by simp_all
  have held: "held (q_at (settle res qr r h b) i) = held (q_at ?c i)" for i
    unfolding eq by (rule pump_held [OF bus_okD(1) [OF c(1)] c(2)])
  note ph = publish_held [OF b, of None, where topic = ?dlq and body = "bm_body m" and rk = "Some (bm_routingKey m)"]
  have new: "\<not> is_duplicate None ?b" by (simp add: is_duplicate_def opt_field_def)
  have away: "qd \<noteq> qr" if "qd \<in> set (coalesce (b_byTopic b ?dlq) [])" for qd
    using idx_ok_topic_topic [OF bus_okD(2) [OF ok], of ?dlq] that dlq_other by blast
  have "held (q_at ?c qr) = held (q_at ?b qr)"
    using ph [OF new, of qr] away [of qr] by auto
  moreover have "held (q_at b qr) = add_mset (bare m) (held (q_at ?b qr))"
    using drop_inflight_held [OF queues_okD [OF bus_okD(1) [OF ok] qr] hit] qr
    by (simp add: take_inflight_eq bus_simps)
  ultimately show "held (q_at b qr) = add_mset (bare m) (held (q_at (settle res qr r h b) qr))"
    by (simp add: held)
  show "\<exists>copy. published_as ?dlq (bm_body m) (bm_routingKey m) None copy \<and>
      held (q_at (settle res qr r h b) qd) = add_mset copy (held (q_at b qd))"
    if "qd \<in> set (coalesce (b_byTopic b ?dlq) [])" "matches (q_at b qd) (bm_routingKey m)"
    using ph [OF new, of qd] that away [OF that(1)] by (simp add: held one_queue_other)
qed

section \<open>Deduplication\<close>

lemma enqueue_seen: "b_seenDedupIds (enqueue t body key opts qr b) = b_seenDedupIds b"
  by (simp add: enqueue_def Let_def arm_ttl_def push_pending_def set_timeout_def split: option.splits)

lemma fold_enqueue_seen: "b_seenDedupIds (fold (enqueue t body key opts) qrs b) = b_seenDedupIds b"
  by (induction qrs arbitrary: b) (simp_all add: enqueue_seen)

lemma publish_seen:
  "b_seenDedupIds (publish t body rk opts b) =
     b_seenDedupIds b \<union> set_option (opt_field po_dedupId opts)"
  by (auto simp: publish_eq is_duplicate_def mark_seen_def fold_enqueue_seen append_log_def Let_def
      split: option.splits)

lemma settle_seen: "b_seenDedupIds b \<subseteq> b_seenDedupIds (settle res qr r h b)"
  by (cases rule: settle_cases [of r b qr h res])
    (auto simp: deadLetter_def publish_seen take_inflight_def push_pending_def set_timeout_def)

lemma subscribe_seen: "b_seenDedupIds (fst (subscribe topic h opts b)) = b_seenDedupIds b"
proof -
  have seed: "b_seenDedupIds (fold (seed_one qr) ms b) = b_seenDedupIds b" for qr ms b
    by (induction ms arbitrary: b) (simp_all add: seed_one_def push_pending_def)
  then have "b_seenDedupIds (create_queue topic k opts b) = b_seenDedupIds b" for k b
    by (simp add: create_queue_eq register_def)
  then show ?thesis
    by (rule_tac subscribe_cases [of b topic opts h]) (auto simp: add_consumer_def split: option.splits)
qed

lemma run_timer_seen: "b_seenDedupIds b \<subseteq> b_seenDedupIds (run_timer a b)"
  by (cases a) (auto simp: expire_def Let_def publish_seen drop_pending_def take_inflight_def push_pending_def)

lemma step_seen: "bus_step b e b' \<Longrightarrow> b_seenDedupIds b \<subseteq> b_seenDedupIds b'"
proof (induction rule: bus_step.induct)
  case (timer i b)
  show ?case using run_timer_seen by (fastforce simp: fire_timer_def)
next
  case (microtask b)
  then show ?case by (simp add: run_microtask_def split: list.splits)
qed (use settle_seen in \<open>auto simp: publish_seen subscribe_seen unsubscribe_eq ack_def nack_def handler_throws_def
    settle_delivery_def Let_def dispose_def\<close>)

lemma run_seen:
  assumes "run es b = Some b'" "d \<in> b_seenDedupIds b"
  shows "d \<in> b_seenDedupIds b'"
  using assms(1) by (induction rule: run_induct) (use assms(2) step_seen in auto)

section \<open>Replay\<close>

lemma queue_for_empty: "bq_pending (queue_for t opts) = []" "bq_inflight (queue_for t opts) = []"
  by (simp_all add: queue_for_def mk_queue_def)

lemma fold_seed_pending:
  "qr < length (b_objs b) \<Longrightarrow>
   map (\<lambda>m. m\<lparr>bm_ref := 0\<rparr>) (bq_pending (q_at (fold (seed_one qr) ms b) qr)) =
     map (\<lambda>m. m\<lparr>bm_ref := 0\<rparr>) (bq_pending (q_at b qr)) @
     map (\<lambda>m. m\<lparr>bm_ref := 0, bm_deliveryCount := 0\<rparr>)
       (filter (\<lambda>m. matches (q_at b qr) (bm_routingKey m)) ms) \<and>
   bq_inflight (q_at (fold (seed_one qr) ms b) qr) = bq_inflight (q_at b qr)"
proof (induction ms arbitrary: b)
  case Nil
  then show ?case by simp
next
  case (Cons m ms)
  let ?b = "seed_one qr m b"
  have len: "length (b_objs ?b) = length (b_objs b)" by (simp add: seed_one_def)
  have "matches (q_at ?b qr) k = matches (q_at b qr) k" for k
    using Cons.prems by (simp add: seed_one_def push_pending_def bus_simps matches_def)
  moreover have "bq_inflight (q_at ?b qr) = bq_inflight (q_at b qr)"
    using Cons.prems by (simp add: seed_one_def push_pending_def bus_simps)
  moreover have "bq_pending (q_at ?b qr) = bq_pending (q_at b qr) @
      (if matches (q_at b qr) (bm_routingKey m)
       then [m\<lparr>bm_ref := b_nextRef b, bm_deliveryCount := 0\<rparr>] else [])"
    using Cons.prems by (simp add: seed_one_def push_pending_def bus_simps)
  ultimately show ?case using Cons.IH [of ?b] Cons.prems len by simp
qed

end
