(* ===== verification/Bus_Properties.thy ===== *)
theory Bus_Properties
  imports Bus_Effects
begin

text \<open>
  The properties of the in-process bus, each followed by the concrete run on which its hypotheses
  hold. \<open>demo_bus\<close> is the bus after two competing consumers of topic \<open>orders\<close> were given work and
  the first of them acknowledged its message; the dead-letter topic has a subscriber of its own.
\<close>

section \<open>Concrete runs\<close>

definition sub_as :: "string \<Rightarrow> SubscribeOptions" where
  "sub_as sid = no_subscribe_options\<lparr>so_subscriberId := Some sid\<rparr>"

definition demo_events :: "event list" where
  "demo_events =
     [ESubscribe ''orders.dlq'' 9 (sub_as ''dead''),
      ESubscribe ''orders'' 1 ((sub_as ''a'')\<lparr>so_deadLetter := Some True, so_maxDeliveries := Some 2\<rparr>),
      ESubscribe ''orders'' 2 (sub_as ''a''),
      EPublish ''orders'' ''one'' (Some ''order.created'') None,
      EPublish ''orders'' ''two'' (Some ''order.created'') None,
      EPublish ''orders'' ''three'' (Some ''order.created'') None,
      EMicrotask, EMicrotask, EAck 0, EMicrotask]"

definition demo_bus :: Bus where
  "demo_bus = the (run demo_events empty_bus)"

definition group_events :: "event list" where
  "group_events =
     [ESubscribe ''jobs'' 1 ((sub_as ''w'')\<lparr>so_partitionByGroup := Some True\<rparr>),
      ESubscribe ''jobs'' 2 (sub_as ''w''),
      EPublish ''jobs'' ''a1'' None (Some (no_publish_options\<lparr>po_groupId := Some ''A''\<rparr>)),
      EPublish ''jobs'' ''a2'' None (Some (no_publish_options\<lparr>po_groupId := Some ''A''\<rparr>)),
      EPublish ''jobs'' ''b1'' None (Some (no_publish_options\<lparr>po_groupId := Some ''B''\<rparr>))]"

definition group_bus :: Bus where
  "group_bus = the (run group_events empty_bus)"

lemma demo_run: "run demo_events empty_bus = Some demo_bus"
proof -
  have "run demo_events empty_bus \<noteq> None" by code_simp
  then show ?thesis by (simp add: demo_bus_def)
qed

lemma group_run: "run group_events empty_bus = Some group_bus"
proof -
  have "run group_events empty_bus \<noteq> None" by code_simp
  then show ?thesis by (simp add: group_bus_def)
qed

lemmas demo_reachable = run_reachable [OF demo_run]
lemmas group_reachable = run_reachable [OF group_run]

section \<open>Exclusive delivery\<close>



text \<open>C9. On a queue partitioned by group, at most one message of a group is in flight at any time,
and the consumer holding it is the group's pinned owner.\<close>

theorem reachable_group_exclusive:
  assumes "reachable b" and "qr < length (b_objs b)" and "bq_partitionByGroup (q_at b qr)"
  shows "distinct (map (group_of \<circ> fst) (bq_inflight (q_at b qr))) \<and>
    (\<forall>(m, c) \<in> set (bq_inflight (q_at b qr)). bq_groupAffinity (q_at b qr) (group_of m) = Some c)"
proof -
  let ?q = "q_at b qr"
  have ok: "queue_ok ?q" using queues_okD bus_okD(1) reachable_bus_ok assms(1,2) by blast
  then have owner: "bq_groupAffinity ?q (group_of m) = Some c" if "(m, c) \<in> set (bq_inflight ?q)" for m c
    using that assms(3) by (fastforce simp: queue_ok_def owner_of_def split: option.splits if_splits)
  have "map snd (bq_inflight ?q) =
      map (the \<circ> bq_groupAffinity ?q) (map (group_of \<circ> fst) (bq_inflight ?q))"
    using owner by (auto intro!: map_cong)
  moreover have "distinct (map snd (bq_inflight ?q))" using ok by (simp add: queue_ok_def)
  ultimately have "distinct (map (group_of \<circ> fst) (bq_inflight ?q))" by (metis distinct_map)
  with owner show ?thesis by auto
qed

theorem reachable_group_exclusive_witness:
  "map (bm_body \<circ> fst) (bq_inflight (q_at group_bus 0)) = [''a1'', ''b1''] \<and>
   distinct (map (group_of \<circ> fst) (bq_inflight (q_at group_bus 0)))"
proof -
  have "0 < length (b_objs group_bus)" "bq_partitionByGroup (q_at group_bus 0)" by code_simp+
  moreover have "map (bm_body \<circ> fst) (bq_inflight (q_at group_bus 0)) = [''a1'', ''b1'']" by code_simp
  ultimately show ?thesis using reachable_group_exclusive [OF group_reachable, of 0] by simp
qed

text \<open>C40. Every reachable bus is well-formed: its queues are well-formed, the indexes, timers and deliveries refer to
queues that exist and are filed under their topic, once, and no message object is in two places.\<close>

theorem bus_well_formed:
  assumes "reachable b"
  shows "queues_ok b \<and> idx_ok b \<and> refs_ok b"
  using reachable_bus_ok [OF assms] by (simp add: bus_ok_def)

theorem bus_well_formed_witness:
  "size (live demo_bus) = 2 \<and> queues_ok demo_bus \<and> idx_ok demo_bus \<and> refs_ok demo_bus"
proof -
  have "size (live demo_bus) = 2" by code_simp
  then show ?thesis using bus_well_formed [OF demo_reachable] by simp
qed

text \<open>A message object is in one place only: over all queues and retry timers of a reachable
bus no object occurs twice, waiting, in flight or parked.\<close>

theorem reachable_single_place:
  assumes "reachable b"
  shows "count (image_mset bm_ref (live b)) r \<le> 1"
  using bus_okD(3) [OF reachable_bus_ok [OF assms]] by (simp add: refs_ok_def)

theorem reachable_single_place_witness:
  "size (live demo_bus) = 2 \<and> (\<forall>r. count (image_mset bm_ref (live demo_bus)) r \<le> 1)"
proof -
  have "size (live demo_bus) = 2" by code_simp
  then show ?thesis using reachable_single_place [OF demo_reachable] by simp
qed

section \<open>Order\<close>

text \<open>C10. Outside partitioned queues the pump hands out messages by priority and in arrival order
within a priority: what it delivers and then leaves is the stable sort of the waiting messages by
falling priority.\<close>

theorem pump_priority_order:
  assumes "pump_queue q = (q', ds)" and "\<not> bq_partitionByGroup q"
  shows "map fst ds =
      map count_delivery (take (length ds) (sort_key (\<lambda>m. - prio m) (bq_pending q))) \<and>
    mset (bq_pending q') = mset (drop (length ds) (sort_key (\<lambda>m. - prio m) (bq_pending q)))"
proof -
  let ?s = "sort_key (\<lambda>m. - prio m) (bq_pending q)"
    and ?s' = "sort_key (\<lambda>m. - prio m) (bq_pending q')"
  have full: "map count_delivery ?s = map fst ds @ map count_delivery ?s'"
    using pump_queue_sorted [OF assms(1)] assms(2) by simp
  have "map fst ds = map count_delivery (take (length ds) ?s)"
    using full by (metis append_eq_conv_conj length_map take_map)
  moreover have "map count_delivery ?s' = map count_delivery (drop (length ds) ?s)"
    using full by (metis append_eq_conv_conj drop_map length_map)
  then have "?s' = drop (length ds) ?s"
    by (rule map_injective) (simp add: inj_count_delivery)
  then have "mset (bq_pending q') = mset (drop (length ds) ?s)" by (metis mset_sort)
  ultimately show ?thesis by simp
qed

definition backlog_queue :: BusQueue where
  "backlog_queue = (mk_queue ''t'' Topic None 5 False None False False)
     \<lparr>bq_consumers := [1, 2],
      bq_pending := [mk_message 0 ''m0'' ''t'' ''low'' ''t'' None,
        mk_message 1 ''m1'' ''t'' ''high'' ''t'' (Some (no_publish_options\<lparr>po_priority := Some 9\<rparr>)),
        mk_message 2 ''m2'' ''t'' ''late'' ''t'' None]\<rparr>"

theorem pump_priority_order_witness:
  "map (bm_body \<circ> fst) (snd (pump_queue backlog_queue)) = [''high'', ''low''] \<and>
   map fst (snd (pump_queue backlog_queue)) =
     map count_delivery (take 2 (sort_key (\<lambda>m. - prio m) (bq_pending backlog_queue)))"
proof -
  have "map (bm_body \<circ> fst) (snd (pump_queue backlog_queue)) = [''high'', ''low'']" by code_simp
  moreover from this have "length (snd (pump_queue backlog_queue)) = 2"
    by (metis length_map list.size(3,4) One_nat_def Suc_1 add.commute plus_1_eq_Suc)
  moreover have "\<not> bq_partitionByGroup backlog_queue" by code_simp
  ultimately show ?thesis
    using pump_priority_order [of backlog_queue "fst (pump_queue backlog_queue)" "snd (pump_queue backlog_queue)"]
    by simp
qed

text \<open>C11. On a partitioned queue the pump never reorders a group: for every group, what it hands out
followed by what it leaves waiting is the group's waiting messages in their order.\<close>

theorem pump_group_order:
  assumes "pump_queue q = (q', ds)" and "bq_partitionByGroup q"
  shows "map count_delivery (filter (\<lambda>m. group_of m = g) (bq_pending q)) =
    filter (\<lambda>m. group_of m = g) (map fst ds) @
    map count_delivery (filter (\<lambda>m. group_of m = g) (bq_pending q'))"
  using pump_queue_group_order [OF assms(1), of g] assms(2) by simp

definition group_queue :: BusQueue where
  "group_queue = (mk_queue ''t'' Topic None 5 False None True False)
     \<lparr>bq_consumers := [1, 2],
      bq_pending := [mk_message 0 ''m0'' ''t'' ''a1'' ''t'' (Some (no_publish_options\<lparr>po_groupId := Some ''A''\<rparr>)),
        mk_message 1 ''m1'' ''t'' ''a2'' ''t'' (Some (no_publish_options\<lparr>po_groupId := Some ''A''\<rparr>)),
        mk_message 2 ''m2'' ''t'' ''b1'' ''t'' (Some (no_publish_options\<lparr>po_groupId := Some ''B''\<rparr>))]\<rparr>"

theorem pump_group_order_witness:
  "map (bm_body \<circ> fst) (snd (pump_queue group_queue)) = [''a1'', ''b1''] \<and>
   map count_delivery (filter (\<lambda>m. group_of m = ''A'') (bq_pending group_queue)) =
     filter (\<lambda>m. group_of m = ''A'') (map fst (snd (pump_queue group_queue))) @
     map count_delivery (filter (\<lambda>m. group_of m = ''A'') (bq_pending (fst (pump_queue group_queue))))"
proof -
  have "map (bm_body \<circ> fst) (snd (pump_queue group_queue)) = [''a1'', ''b1'']" by code_simp
  moreover have "bq_partitionByGroup group_queue" by code_simp
  ultimately show ?thesis
    using pump_group_order [of group_queue "fst (pump_queue group_queue)" "snd (pump_queue group_queue)" "''A''"]
    by simp
qed

section \<open>Routing\<close>

text \<open>C12. Publishing puts exactly one copy of the message, with its body, routing key and options,
into every queue of the topic whose filter accepts the key, and changes what no other queue holds.\<close>

theorem publish_routes:
  assumes "reachable b" and "\<not> is_duplicate opts b"
  shows "(qr \<in> set (coalesce (b_byTopic b topic) []) \<and> matches (q_at b qr) (coalesce rk topic) \<longrightarrow>
      (\<exists>m. published_as topic body (coalesce rk topic) opts m \<and>
        held (q_at (publish topic body rk opts b) qr) = add_mset m (held (q_at b qr)))) \<and>
    (\<not> (qr \<in> set (coalesce (b_byTopic b topic) []) \<and> matches (q_at b qr) (coalesce rk topic)) \<longrightarrow>
      held (q_at (publish topic body rk opts b) qr) = held (q_at b qr))"
  by (rule publish_held [OF reachable_bus_ok [OF assms(1)] assms(2)])

theorem publish_routes_witness:
  "(\<exists>m. published_as ''orders'' ''four'' ''orders'' None m \<and>
      held (q_at (publish ''orders'' ''four'' None None demo_bus) 1) = add_mset m (held (q_at demo_bus 1))) \<and>
   held (q_at (publish ''orders'' ''four'' None None demo_bus) 0) = held (q_at demo_bus 0)"
proof -
  have "b_byTopic demo_bus ''orders'' = Some [1]" by code_simp
  moreover have "matches (q_at demo_bus 1) ''orders''" by code_simp
  moreover have "\<not> is_duplicate None demo_bus" by (simp add: is_duplicate_def opt_field_def)
  note pr = publish_routes [OF demo_reachable this, of _ "''orders''" None "''four''"]
  ultimately show ?thesis using pr [of 1] pr [of 0] by simp
qed

text \<open>In every run, every message that waits in a queue, is in flight or was ever handed to a
handler was published on the queue's topic with a routing key its filter accepts.\<close>

theorem messages_where_routed:
  assumes "run es empty_bus = Some b"
  shows "(\<forall>qr < length (b_objs b). \<forall>m \<in> set (bq_pending (q_at b qr)) \<union> fst ` set (bq_inflight (q_at b qr)).
      bm_topic m = bq_topic (q_at b qr) \<and> matches (q_at b qr) (bm_routingKey m)) \<and>
    (\<forall>d \<in> set (b_delivered b). bm_topic (dl_message d) = bq_topic (q_at b (dl_queue d)) \<and>
      matches (q_at b (dl_queue d)) (bm_routingKey (dl_message d)))"
proof -
  have "routing.law b" by (rule routing.law_run [OF assms]) simp
  then have q: "\<And>qr. qr < length (b_objs b) \<Longrightarrow> routing.queue_law (q_at b qr)"
    and d: "\<And>d. d \<in> set (b_delivered b) \<Longrightarrow> belongs (q_at b (dl_queue d)) (dl_message d)"
    by (simp_all add: routing.law_def)
  have "belongs (q_at b qr) m"
    if "qr < length (b_objs b)" "m \<in> set (bq_pending (q_at b qr)) \<union> fst ` set (bq_inflight (q_at b qr))" for qr m
    using q [OF that(1)] that(2) by (force simp: routing.queue_law_def)
  with d show ?thesis by (simp add: belongs_def)
qed

theorem messages_where_routed_witness:
  "map dl_queue (b_delivered demo_bus) = [1, 1, 1] \<and>
   bm_topic (dl_message (b_delivered demo_bus ! 2)) = bq_topic (q_at demo_bus 1)"
proof -
  have d: "map dl_queue (b_delivered demo_bus) = [1, 1, 1]" by code_simp
  then have "length (b_delivered demo_bus) = 3" by (metis length_map length_Cons list.size(3) numeral_3_eq_3)
  then have "b_delivered demo_bus ! 2 \<in> set (b_delivered demo_bus)" "dl_queue (b_delivered demo_bus ! 2) = 1"
    using nth_map [of 2 "b_delivered demo_bus" dl_queue] d by simp_all
  then show ?thesis using d messages_where_routed [OF demo_run] by metis
qed

text \<open>C14. A dedup id is dropped forever: after a publish that carried it, whatever happens in between,
a second publish with the same id changes nothing at all, not even the log or the counters.\<close>

theorem dedup_forever:
  assumes "po_dedupId opts = Some d" and "po_dedupId opts' = Some d"
    and "run es (publish t body rk (Some opts) b) = Some b'"
  shows "publish t' body' rk' (Some opts') b' = b'"
proof -
  have "d \<in> b_seenDedupIds (publish t body rk (Some opts) b)"
    using assms(1) by (simp add: publish_seen opt_field_def)
  from run_seen [OF assms(3) this] assms(2) show ?thesis
    by (simp add: publish_eq is_duplicate_def opt_field_def)
qed

theorem dedup_forever_witness:
  "(let opts = no_publish_options\<lparr>po_dedupId := Some ''id-1''\<rparr>;
        b = dispose (publish ''t'' ''x'' None (Some opts) empty_bus)
    in publish ''t'' ''y'' None (Some opts) b = b)"
proof -
  let ?opts = "no_publish_options\<lparr>po_dedupId := Some ''id-1''\<rparr>"
  have "run [EDispose] (publish ''t'' ''x'' None (Some ?opts) empty_bus) =
      Some (dispose (publish ''t'' ''x'' None (Some ?opts) empty_bus))" by simp
  from dedup_forever [OF _ _ this, of "''id-1''" ?opts] show ?thesis by (simp add: Let_def)
qed

text \<open>C16. A stream-replay subscription under a new id starts with the topic's whole log: the new queue
holds a copy of every logged message its filter accepts and nothing else, whatever other subscribers
consumed before.\<close>

theorem stream_replays_log:
  assumes "reachable b" and "so_streamReplay opts = Some True" and "so_subscriberId opts = Some sid"
    and "b_queues b (bus_key topic sid) = None"
  shows "image_mset (\<lambda>m. m\<lparr>bm_ref := 0\<rparr>) (held (q_at (fst (subscribe topic h opts b)) (length (b_objs b)))) =
    mset (map (\<lambda>m. m\<lparr>bm_ref := 0, bm_deliveryCount := 0\<rparr>)
      (filter (\<lambda>m. matches (queue_for topic opts) (bm_routingKey m)) (coalesce (b_streamLog b topic) [])))"
proof -
  let ?n = "length (b_objs b)" and ?k = "bus_key topic sid"
  let ?c = "create_queue topic ?k opts b"
  have ok: "bus_ok ?c" "length (b_objs ?c) = Suc ?n"
    using create_queue_ok [OF reachable_bus_ok [OF assms(1)]] by simp_all
  have c: "map (\<lambda>m. m\<lparr>bm_ref := 0\<rparr>) (bq_pending (q_at ?c ?n)) =
      map (\<lambda>m. m\<lparr>bm_ref := 0, bm_deliveryCount := 0\<rparr>)
        (filter (\<lambda>m. matches (queue_for topic opts) (bm_routingKey m)) (coalesce (b_streamLog b topic) []))"
    "bq_inflight (q_at ?c ?n) = []"
    using fold_seed_pending [of ?n "register topic ?k (queue_for topic opts) b" "coalesce (b_streamLog b topic) []"]
      assms(2) queue_for_empty [of topic opts]
    by (simp_all add: create_queue_eq)
  have sub: "fst (subscribe topic h opts b) = pump ?n (add_consumer ?n h ?c)"
    using assms(3,4) by (simp add: subscribe_def Let_def)
  have "queues_ok (add_consumer ?n h ?c)" "?n < length (b_objs (add_consumer ?n h ?c))"
    using add_consumer_ok [OF ok(1)] ok(2) by (simp_all add: bus_okD, simp add: add_consumer_def)
  then have "held (q_at (fst (subscribe topic h opts b)) ?n) = held (q_at (add_consumer ?n h ?c) ?n)"
    unfolding sub by (rule pump_held)
  also have "\<dots> = mset (map bare (bq_pending (q_at ?c ?n)))"
    using ok(2) c(2) by (simp add: add_consumer_def bus_simps held_def)
  finally have held: "held (q_at (fst (subscribe topic h opts b)) ?n) =
      mset (map bare (bq_pending (q_at ?c ?n)))" .
  have "map (\<lambda>m. m\<lparr>bm_ref := 0\<rparr>) (map bare (bq_pending (q_at ?c ?n))) =
      map bare (map (\<lambda>m. m\<lparr>bm_ref := 0\<rparr>) (bq_pending (q_at ?c ?n)))" by (simp add: bare_def)
  also have "\<dots> = map (\<lambda>m. m\<lparr>bm_ref := 0, bm_deliveryCount := 0\<rparr>)
      (filter (\<lambda>m. matches (queue_for topic opts) (bm_routingKey m)) (coalesce (b_streamLog b topic) []))"
    unfolding c(1) by (simp add: bare_def)
  finally show ?thesis unfolding held by (metis mset_map)
qed

theorem stream_replays_log_witness:
  "size (held (q_at (fst (subscribe ''orders'' 5 ((sub_as ''s'')\<lparr>so_streamReplay := Some True\<rparr>) demo_bus)) 2)) = 3"
proof -
  let ?opts = "(sub_as ''s'')\<lparr>so_streamReplay := Some True\<rparr>"
  have new: "b_queues demo_bus (bus_key ''orders'' ''s'') = None" and len: "length (b_objs demo_bus) = 2"
    and three: "length (filter (\<lambda>m. matches (queue_for ''orders'' ?opts) (bm_routingKey m))
      (coalesce (b_streamLog demo_bus ''orders'') [])) = 3" by code_simp+
  have "so_streamReplay ?opts = Some True" "so_subscriberId ?opts = Some ''s''" by (simp_all add: sub_as_def)
  from arg_cong [OF stream_replays_log [OF demo_reachable this new, of 5], of size]
  show ?thesis by (simp only: len size_image_mset size_mset length_map three)
qed

section \<open>Settlement\<close>

text \<open>The settlement of the \<open>i\<close>-th delivery still applies: its consumer holds the message.\<close>

definition holds_delivery :: "Bus \<Rightarrow> nat \<Rightarrow> BusMessage \<Rightarrow> bool" where
  "holds_delivery b i m \<longleftrightarrow> i < length (b_delivered b) \<and>
     inflight_get (bm_ref (dl_message (b_delivered b ! i)))
       (bq_inflight (q_at b (dl_queue (b_delivered b ! i)))) = Some (m, dl_consumer (b_delivered b ! i))"

lemma holds_deliveryD:
  assumes "reachable b" "holds_delivery b i m"
  shows "bus_ok b" "dl_queue (b_delivered b ! i) < length (b_objs b)"
  using bus_okD(2) [OF reachable_bus_ok [OF assms(1)]] reachable_bus_ok [OF assms(1)] assms(2)
  by (simp_all add: idx_ok_def holds_delivery_def)

lemma live_settled [simp]:
  "live (b\<lparr>b_settled := x\<rparr>) = live b" "q_at (b\<lparr>b_settled := x\<rparr>) qr = q_at b qr"
  by simp_all

text \<open>C2. Nothing is lost or duplicated by settling: an ack removes exactly the acknowledged message
from the bus; a requeue below the delivery limit keeps it; a rejection without dead-lettering, or a
requeue at the limit, removes exactly it.\<close>

theorem settle_conserves:
  assumes "reachable b" and "holds_delivery b i m" and "q = q_at b (dl_queue (b_delivered b ! i))"
  shows "live b = add_mset (bare m) (live (ack i b)) \<and>
    (bm_deliveryCount m < bq_maxDeliveries q \<longrightarrow> live (nack i True b) = live b) \<and>
    (\<not> bq_deadLetter q \<longrightarrow> live b = add_mset (bare m) (live (nack i False b))) \<and>
    (\<not> bq_deadLetter q \<and> bq_maxDeliveries q \<le> bm_deliveryCount m \<longrightarrow>
       live b = add_mset (bare m) (live (nack i True b)))"
proof -
  let ?d = "b_delivered b ! i"
  have "inflight_get (bm_ref (dl_message ?d)) (bq_inflight (q_at b (dl_queue ?d))) = Some (m, dl_consumer ?d)"
    using assms(2) by (simp add: holds_delivery_def)
  from settle_live [OF holds_deliveryD [OF assms(1,2)] this] show ?thesis
    unfolding assms(3) ack_def nack_def settle_delivery_def Let_def live_settled if_True if_False
    by blast
qed

theorem settle_conserves_witness:
  "size (live demo_bus) = 2 \<and> size (live (ack 1 demo_bus)) = 1 \<and> size (live (nack 1 True demo_bus)) = 2"
proof -
  define m where "m = fst (the (inflight_get (bm_ref (dl_message (b_delivered demo_bus ! 1)))
    (bq_inflight (q_at demo_bus 1))))"
  have "size (live demo_bus) = 2" "dl_queue (b_delivered demo_bus ! 1) = 1"
    "bm_deliveryCount m < bq_maxDeliveries (q_at demo_bus 1)"
    unfolding m_def by code_simp+
  moreover have "1 < length (b_delivered demo_bus)"
    "map_option snd (inflight_get (bm_ref (dl_message (b_delivered demo_bus ! 1))) (bq_inflight (q_at demo_bus 1)))
      = Some (dl_consumer (b_delivered demo_bus ! 1))" by code_simp+
  ultimately show ?thesis
    using settle_conserves [OF demo_reachable, of 1 m "q_at demo_bus 1"]
    by (auto simp: holds_delivery_def m_def)
qed

text \<open>C3. A message rejected, or requeued when its deliveries reached the limit, leaves its queue, and
every queue subscribed to the topic's dead-letter address whose filter accepts its routing key gets a
copy with the same body and routing key.\<close>

theorem dead_letter_routes:
  assumes "reachable b" and "holds_delivery b i m" and "q = q_at b (dl_queue (b_delivered b ! i))"
    and "bq_deadLetter q" and "\<not> requeue \<or> bq_maxDeliveries q \<le> bm_deliveryCount m"
    and "qd \<in> set (coalesce (b_byTopic b (deadLetterAddress (bq_topic q))) [])"
    and "matches (q_at b qd) (bm_routingKey m)"
  shows "held q = add_mset (bare m) (held (q_at (nack i requeue b) (dl_queue (b_delivered b ! i)))) \<and>
    (\<exists>copy. published_as (deadLetterAddress (bq_topic q)) (bm_body m) (bm_routingKey m) None copy \<and>
      held (q_at (nack i requeue b) qd) = add_mset copy (held (q_at b qd)))"
proof -
  let ?d = "b_delivered b ! i"
  have hit: "inflight_get (bm_ref (dl_message ?d)) (bq_inflight (q_at b (dl_queue ?d))) = Some (m, dl_consumer ?d)"
    using assms(2) by (simp add: holds_delivery_def)
  have res: "(if requeue then Requeue else Dead) = Dead \<or>
      (if requeue then Requeue else Dead) = Requeue \<and>
      bq_maxDeliveries (q_at b (dl_queue ?d)) \<le> bm_deliveryCount m"
    using assms(3,5) by auto
  note ds = dead_settle [OF holds_deliveryD [OF assms(1,2)] hit res]
  show ?thesis
    using ds(1) ds(2) [of qd] assms(3,4,6,7)
    by (simp add: nack_def settle_delivery_def Let_def)
qed

definition exhausted_events :: "event list" where
  "exhausted_events = demo_events @ [ENack 1 True, EMicrotask, ENack 2 True, EMicrotask]"

definition exhausted_bus :: Bus where
  "exhausted_bus = the (run exhausted_events empty_bus)"

lemma exhausted_run: "run exhausted_events empty_bus = Some exhausted_bus"
proof -
  have "run exhausted_events empty_bus \<noteq> None" by code_simp
  then show ?thesis by (simp add: exhausted_bus_def)
qed

theorem dead_letter_routes_witness:
  "\<exists>copy. bm_body copy = ''two'' \<and> bm_topic copy = ''orders.dlq'' \<and>
    held (q_at (nack 3 True exhausted_bus) 0) = add_mset copy (held (q_at exhausted_bus 0))"
proof -
  let ?b = exhausted_bus
  define m where "m = fst (the (inflight_get (bm_ref (dl_message (b_delivered ?b ! 3)))
    (bq_inflight (q_at ?b 1))))"
  have f: "dl_queue (b_delivered ?b ! 3) = 1" "bq_deadLetter (q_at ?b 1)"
    "bq_topic (q_at ?b 1) = ''orders''" "coalesce (b_byTopic ?b ''orders.dlq'') [] = [0]"
    "matches (q_at ?b 0) (bm_routingKey m)" "bq_maxDeliveries (q_at ?b 1) \<le> bm_deliveryCount m"
    "bm_body m = ''two''" "3 < length (b_delivered ?b)"
    "map_option snd (inflight_get (bm_ref (dl_message (b_delivered ?b ! 3))) (bq_inflight (q_at ?b 1)))
      = Some (dl_consumer (b_delivered ?b ! 3))"
    unfolding m_def by code_simp+
  then have "holds_delivery ?b 3 m" by (auto simp: holds_delivery_def m_def)
  from dead_letter_routes [OF run_reachable [OF exhausted_run] this, of "q_at ?b 1" True 0] f
  obtain copy where copy: "published_as ''orders.dlq'' ''two'' (bm_routingKey m) None copy"
    "held (q_at (nack 3 True ?b) 0) = add_mset copy (held (q_at ?b 0))"
    by (auto simp: deadLetterAddress_def)
  then have "bm_body copy = ''two''" "bm_topic copy = ''orders.dlq''"
    unfolding published_as_def by (metis mk_message_sel(2), metis mk_message_sel(4))
  with copy(2) show ?thesis by blast
qed

text \<open>C7. As long as no consumer drops its subscription, a handler never sees a message more often than
the queue allows: every delivery carries a count between 1 and the delivery limit (at least 1).\<close>

theorem delivery_attempts_bounded:
  assumes "run es empty_bus = Some b" and "\<forall>qr h. EUnsubscribe qr h \<notin> set es" and "d \<in> set (b_delivered b)"
  shows "\<exists>n. im_deliveryCount (wrap (dl_message d)) = Some n \<and> 1 \<le> n \<and>
    n \<le> max 1 (bq_maxDeliveries (q_at b (dl_queue d)))"
proof -
  have "attempts.law b" by (rule attempts.law_run [OF assms(1)]) (use assms(2) in blast)
  then have "0 < bm_deliveryCount (dl_message d) \<and>
      bm_deliveryCount (dl_message d) \<le> attempt_limit (q_at b (dl_queue d))"
    using assms(3) by (simp add: attempts.law_def)
  then show ?thesis by (simp add: attempt_limit_def wrap_def Suc_le_eq)
qed

theorem delivery_attempts_bounded_witness:
  "im_deliveryCount (wrap (dl_message (b_delivered exhausted_bus ! 3))) = Some 2 \<and>
   (\<exists>n. im_deliveryCount (wrap (dl_message (b_delivered exhausted_bus ! 3))) = Some n \<and>
      1 \<le> n \<and> n \<le> max 1 (bq_maxDeliveries (q_at exhausted_bus (dl_queue (b_delivered exhausted_bus ! 3)))))"
proof -
  have "im_deliveryCount (wrap (dl_message (b_delivered exhausted_bus ! 3))) = Some 2"
    "3 < length (b_delivered exhausted_bus)" by code_simp+
  moreover have "\<forall>qr h. EUnsubscribe qr h \<notin> set exhausted_events"
    by (simp add: exhausted_events_def demo_events_def)
  ultimately show ?thesis
    using delivery_attempts_bounded [OF exhausted_run, of "b_delivered exhausted_bus ! 3"] by simp
qed

text \<open>C15. Dropping a consumer loses nothing: unsubscribing detaches it, puts the message it held (at most
one) at the front of the queue, keeps the messages of the others in flight, and then pumps; the bus
holds the same messages as before.\<close>

theorem unsubscribe_returns:
  assumes "reachable b" and "qr < length (b_objs b)" and "q = q_at b qr"
  shows "unsubscribe qr h b = pump qr (set_queue qr
      (q\<lparr>bq_consumers := remove1 h (bq_consumers q),
         bq_inflight := filter (\<lambda>(m, c). c \<noteq> h) (bq_inflight q),
         bq_pending := returned h q @ bq_pending q\<rparr>) b) \<and>
    length (returned h q) \<le> 1 \<and> live (unsubscribe qr h b) = live b"
proof -
  let ?q0 = "q\<lparr>bq_consumers := remove1 h (bq_consumers q)\<rparr>"
  have ok: "bus_ok b" by (rule reachable_bus_ok [OF assms(1)])
  have q: "queue_ok q" using ok assms(2,3) by (simp add: queues_okD bus_okD)
  then have "distinct (map (bm_ref \<circ> fst) (bq_inflight ?q0))" by (simp add: queue_ok_def)
  note rel = release_eq [OF this, of h]
  have un: "unsubscribe qr h b = pump qr (set_queue qr (release h ?q0) b)"
    by (simp add: unsubscribe_eq assms(3))
  have "length (filter (\<lambda>c. c = h) (map snd (bq_inflight q))) \<le> 1"
    using q by (intro distinct_occurs_once) (simp add: queue_ok_def)
  then have "length (returned h q) \<le> 1"
    by (simp add: returned_def filter_map comp_def case_prod_unfold)
  moreover have "queue_ok (release h ?q0)" and held: "held (release h ?q0) = held q"
    using release_queue_ok [OF q] by simp_all
  then have "live (pump qr (set_queue qr (release h ?q0) b)) = live b"
    using assms(2,3) by (simp add: pump_live bus_simps live_set_queue_same)
  ultimately show ?thesis by (simp add: un rel returned_def)
qed

theorem unsubscribe_returns_witness:
  "map bm_body (returned 1 (q_at demo_bus 1)) = [''three''] \<and>
   live (unsubscribe 1 1 demo_bus) = live demo_bus"
proof -
  have "map bm_body (returned 1 (q_at demo_bus 1)) = [''three'']" "1 < length (b_objs demo_bus)"
    by code_simp+
  then show ?thesis using unsubscribe_returns [OF demo_reachable, of 1 "q_at demo_bus 1" 1] by blast
qed

section \<open>Progress\<close>

text \<open>C13. In runs whose publishes carry no time to live, no message waits while a consumer that may take
it is idle: whenever a message is pending, every consumer is busy (or, on a single-active queue, one
message is out, or, on a partitioned queue, its group's owner is busy).\<close>

theorem no_idle_consumer:
  assumes "run es empty_bus = Some b" and "\<forall>e \<in> set es. ttl_free e"
    and "qr < length (b_objs b)" and "m \<in> set (bq_pending (q_at b qr))"
    and "bq_consumers (q_at b qr) \<noteq> []"
  shows "stuck (q_at b qr) m"
  using run_saturated [OF assms(1,2)] assms(3-5) by (auto simp: all_saturated_def saturated_def)

definition busy_events :: "event list" where
  "busy_events = [ESubscribe ''t'' 1 (sub_as ''a''), EPublish ''t'' ''one'' None None,
     EPublish ''t'' ''two'' None None]"

theorem no_idle_consumer_witness:
  "\<exists>b. run busy_events empty_bus = Some b \<and> map bm_body (bq_pending (q_at b 0)) = [''two''] \<and>
     stuck (q_at b 0) (hd (bq_pending (q_at b 0)))"
proof -
  define b where "b = the (run busy_events empty_bus)"
  have "run busy_events empty_bus \<noteq> None" by code_simp
  then have r: "run busy_events empty_bus = Some b" by (simp add: b_def)
  have f: "map bm_body (bq_pending (q_at b 0)) = [''two'']" "0 < length (b_objs b)"
    "bq_consumers (q_at b 0) \<noteq> []" unfolding b_def by code_simp+
  then have hd: "hd (bq_pending (q_at b 0)) \<in> set (bq_pending (q_at b 0))" by (intro hd_in_set) auto
  have ttl: "\<forall>e \<in> set busy_events. ttl_free e" by (simp add: busy_events_def ttl_free_def opt_field_def)
  have "stuck (q_at b 0) (hd (bq_pending (q_at b 0)))" by (rule no_idle_consumer [OF r ttl f(2) hd f(3)])
  then show ?thesis using r f(1) by (intro exI [of _ b] conjI)
qed

definition strand_events :: "event list" where
  "strand_events = [ESubscribe ''t'' 1 (sub_as ''a''),
     EPublish ''t'' ''one'' None (Some (no_publish_options\<lparr>po_ttlMs := Some 10\<rparr>)),
     EPublish ''t'' ''two'' None None, EMicrotask, ETick 10, ETimer 0]"


section \<open>Identity\<close>

text \<open>For topics without a space the queue key identifies topic and subscriber, so two
subscriptions share a queue exactly when both agree.\<close>

theorem bus_key_injective:
  assumes "CHR '' '' \<notin> set t" and "CHR '' '' \<notin> set t'"
  shows "bus_key t s = bus_key t' s' \<longleftrightarrow> t = t' \<and> s = s'"
  using assms
proof (induction t arbitrary: t')
  case Nil
  then show ?case by (cases t') (auto simp: bus_key_def)
next
  case (Cons c t)
  then show ?case by (cases t') (auto simp: bus_key_def)
qed

theorem bus_key_injective_witness:
  "bus_key ''orders'' ''a'' \<noteq> bus_key ''order'' ''sa''"
  using bus_key_injective [of "''orders''" "''order''" "''a''" "''sa''"] by simp

text \<open>With a space in a topic the keys collide: a second subscription on another topic joins the
first topic's queue, and a publish to its own topic reaches no queue.\<close>

theorem bus_key_collision:
  "\<exists>b. run [ESubscribe ''a'' 1 (sub_as ''b c''), ESubscribe ''a b'' 2 (sub_as ''c'')] empty_bus = Some b \<and>
     bq_topic (q_at b 0) = ''a'' \<and> bq_consumers (q_at b 0) = [1, 2] \<and> b_byTopic b ''a b'' = None"
proof -
  let ?es = "[ESubscribe ''a'' 1 (sub_as ''b c''), ESubscribe ''a b'' 2 (sub_as ''c'')]"
  define b where "b = the (run ?es empty_bus)"
  have "run ?es empty_bus \<noteq> None" by code_simp
  then have "run ?es empty_bus = Some b" by (simp add: b_def)
  moreover have "bq_topic (q_at b 0) = ''a''" "bq_consumers (q_at b 0) = [1, 2]" "b_byTopic b ''a b'' = None"
    unfolding b_def by code_simp+
  ultimately show ?thesis by blast
qed

text \<open>A settled delivery is not inert: after a requeue redelivered the message to the same consumer,
acknowledging through the first delivery again settles the second one.\<close>

theorem stale_ack_settles_redelivery:
  "\<exists>b. run [ESubscribe ''t'' 1 (sub_as ''a''), EPublish ''t'' ''x'' None None, EMicrotask, ENack 0 True,
       EMicrotask] empty_bus = Some b \<and>
     0 \<in> b_settled b \<and> 1 \<notin> b_settled b \<and>
     map (bm_body \<circ> fst) (bq_inflight (q_at b 0)) = [''x''] \<and> bq_inflight (q_at (ack 0 b) 0) = []"
proof -
  let ?es = "[ESubscribe ''t'' 1 (sub_as ''a''), EPublish ''t'' ''x'' None None, EMicrotask, ENack 0 True,
       EMicrotask]"
  define b where "b = the (run ?es empty_bus)"
  have "run ?es empty_bus \<noteq> None" by code_simp
  then have "run ?es empty_bus = Some b" by (simp add: b_def)
  moreover have "0 \<in> b_settled b" "1 \<notin> b_settled b"
    "map (bm_body \<circ> fst) (bq_inflight (q_at b 0)) = [''x'']"
    "map snd (bq_inflight (q_at (ack 0 b) 0)) = []" unfolding b_def by code_simp+
  ultimately show ?thesis by auto
qed

end
