(* ===== verification/In_Memory_Scheduler.thy ===== *)
theory In_Memory_Scheduler
  imports Bus_Steps
begin

text \<open>
  The in-process scheduler: class \<open>InMemoryScheduler\<close> of \<open>adapters/in-memory.ts\<close>, which adds delayed
  and immediate point-to-point sends to the bus.

  The \<open>Set\<close> of handlers of a destination is an object that \<open>unsubscribe\<close> closes over, so the sets live
  in a store \<open>is_sets\<close>. A fired timer is removed from \<open>is_timers\<close>; \<open>is_calls\<close> is the log of handler
  calls, \<open>is_fired\<close> the log of the schedules (id, destination, payload) whose timer ran. Handlers are code of the client: which
  handler throws synchronously on which message is the parameter \<open>throws\<close>.
\<close>

section \<open>State\<close>

record PendingSchedule =
  ps_id :: string
  ps_destination :: destination
  ps_body :: string
  ps_deliverAt :: millis
  ps_timer :: nat

record SchedTimer =
  st_handle :: nat
  st_due :: millis
  st_id :: string
  st_destination :: destination
  st_payload :: string

record InMemoryScheduler =
  is_sets :: "handler list list"
  is_handlers :: "destination \<rightharpoonup> nat"
  is_pending :: "(string \<times> PendingSchedule) list"
  is_bus :: Bus
  is_seq :: nat
  is_now :: millis
  is_timers :: "SchedTimer list"
  is_nextTimer :: nat
  is_microtasks :: "ReceivedMessage list"
  is_calls :: "(handler \<times> ReceivedMessage) list"
  is_fired :: "(string \<times> destination \<times> string) list"

definition is_init :: InMemoryScheduler where
  "is_init = \<lparr>is_sets = [], is_handlers = Map.empty, is_pending = [], is_bus = empty_bus, is_seq = 0,
     is_now = 0, is_timers = [], is_nextTimer = 0, is_microtasks = [], is_calls = [], is_fired = []\<rparr>"

definition is_busCapabilities :: BusCapabilities where
  "is_busCapabilities = \<lparr>supportsTopic = True, supportsFanout = True, supportsManualAck = True,
     supportsDeadLetter = True, reportsDeliveryCount = True, supportsDedup = True,
     supportsStreamReplay = True, supportsMessageGroups = None\<rparr>"

definition is_capabilities :: Capabilities where
  "is_capabilities = \<lparr>cap_protocol = ''in-memory'', cap_nativeScheduling = True,
     cap_supportsCancel = True, cap_supportsList = True, cap_bus = Some is_busCapabilities\<rparr>"

section \<open>Operations\<close>

definition is_publish :: "destination \<Rightarrow> string \<Rightarrow> string option \<Rightarrow> PublishOptions option \<Rightarrow>
    InMemoryScheduler \<Rightarrow> InMemoryScheduler" where
  "is_publish topic payload routingKey options s =
     s\<lparr>is_bus := publish topic payload routingKey options (is_bus s)\<rparr>"

definition is_subscribe :: "destination \<Rightarrow> handler \<Rightarrow> SubscribeOptions option \<Rightarrow>
    InMemoryScheduler \<Rightarrow> InMemoryScheduler \<times> (nat \<times> handler)" where
  "is_subscribe topic h options s =
     (case subscribe topic h (coalesce options no_subscribe_options) (is_bus s) of
        (b, sub) \<Rightarrow> (s\<lparr>is_bus := b\<rparr>, sub))"

definition dispatch :: "destination \<Rightarrow> string \<Rightarrow> InMemoryScheduler \<Rightarrow> InMemoryScheduler" where
  "dispatch destination body s =
     (let seq = Suc (is_seq s);
          message = \<lparr>rm_id = ''mem-msg-'' @ show_nat seq, rm_destination = destination,
                     rm_body = body, rm_headers = []\<rparr>
      in s\<lparr>is_seq := seq, is_microtasks := is_microtasks s @ [message]\<rparr>)"

definition sendNow :: "destination \<Rightarrow> string \<Rightarrow> InMemoryScheduler \<Rightarrow> InMemoryScheduler" where
  "sendNow destination payload s = dispatch destination payload s"

definition schedule_id :: "nat \<Rightarrow> string" where
  "schedule_id n = ''mem-'' @ show_nat n"

definition schedule :: "destination \<Rightarrow> string \<Rightarrow> millis \<Rightarrow> InMemoryScheduler \<Rightarrow>
    InMemoryScheduler \<times> ScheduleHandle" where
  "schedule destination payload deliverAt s =
     (let seq = Suc (is_seq s);
          sid = schedule_id seq;
          ms = max 0 (deliverAt - is_now s);
          t = is_nextTimer s;
          timer = \<lparr>st_handle = t, st_due = is_now s + timeout_delay ms, st_id = sid,
                   st_destination = destination, st_payload = payload\<rparr>;
          entry = \<lparr>ps_id = sid, ps_destination = destination, ps_body = payload,
                   ps_deliverAt = deliverAt, ps_timer = t\<rparr>
      in (s\<lparr>is_seq := seq, is_nextTimer := Suc t, is_timers := is_timers s @ [timer],
            is_pending := js_map_set (is_pending s) sid entry\<rparr>,
          \<lparr>sh_id = sid, sh_destination = destination, sh_deliverAt = deliverAt\<rparr>))"

definition clear_timeout :: "nat \<Rightarrow> InMemoryScheduler \<Rightarrow> InMemoryScheduler" where
  "clear_timeout t s = s\<lparr>is_timers := filter (\<lambda>tm. st_handle tm \<noteq> t) (is_timers s)\<rparr>"

definition cancel :: "ScheduleHandle \<Rightarrow> InMemoryScheduler \<Rightarrow> InMemoryScheduler" where
  "cancel h s =
     (case js_map_get (is_pending s) (sh_id h) of
        None \<Rightarrow> s
      | Some entry \<Rightarrow>
          (clear_timeout (ps_timer entry) s)\<lparr>is_pending := js_map_delete (is_pending s) (sh_id h)\<rparr>)"

definition listScheduled :: "destination \<Rightarrow> InMemoryScheduler \<Rightarrow> ScheduledInfo list" where
  "listScheduled destination s =
     map (\<lambda>p. \<lparr>si_id = ps_id p, si_destination = ps_destination p, si_deliverAt = Some (ps_deliverAt p)\<rparr>)
       (filter (\<lambda>p. ps_destination p = destination) (map snd (is_pending s)))"

text \<open>The callback of the \<open>i\<close>-th timer.\<close>

definition fire_schedule :: "nat \<Rightarrow> InMemoryScheduler \<Rightarrow> InMemoryScheduler" where
  "fire_schedule i s =
     (let tm = is_timers s ! i
      in dispatch (st_destination tm) (st_payload tm)
           (s\<lparr>is_timers := splice1 i (is_timers s), is_fired := is_fired s @ [(st_id tm, st_destination tm, st_payload tm)],
              is_pending := js_map_delete (is_pending s) (st_id tm)\<rparr>))"

text \<open>\<open>set.add(handler)\<close> and \<open>set.delete(handler)\<close> keep insertion order.\<close>

definition set_add :: "handler \<Rightarrow> handler list \<Rightarrow> handler list" where
  "set_add h hs = (if h \<in> set hs then hs else hs @ [h])"

definition consume :: "destination \<Rightarrow> handler \<Rightarrow> InMemoryScheduler \<Rightarrow>
    InMemoryScheduler \<times> (nat \<times> handler)" where
  "consume destination h s =
     (let (r, s1) = (case is_handlers s destination of
            Some r \<Rightarrow> (r, s)
          | None \<Rightarrow> (length (is_sets s),
              s\<lparr>is_sets := is_sets s @ [[]],
                is_handlers := (is_handlers s)(destination \<mapsto> length (is_sets s))\<rparr>))
      in (s1\<lparr>is_sets := (is_sets s1)[r := set_add h (is_sets s1 ! r)]\<rparr>, (r, h)))"

definition consume_unsubscribe :: "nat \<Rightarrow> handler \<Rightarrow> InMemoryScheduler \<Rightarrow> InMemoryScheduler" where
  "consume_unsubscribe r h s =
     s\<lparr>is_sets := (is_sets s)[r := filter (\<lambda>h'. h' \<noteq> h) (is_sets s ! r)]\<rparr>"

definition asyncDispose :: "InMemoryScheduler \<Rightarrow> InMemoryScheduler" where
  "asyncDispose s =
     (let s1 = fold (\<lambda>p. clear_timeout (ps_timer p)) (map snd (is_pending s)) s
      in s1\<lparr>is_pending := [], is_handlers := Map.empty, is_bus := dispose (is_bus s1)\<rparr>)"

text \<open>
  The microtask calls the handlers in order; a handler that throws synchronously ends the loop.
\<close>

fun call_handlers :: "(handler \<Rightarrow> ReceivedMessage \<Rightarrow> bool) \<Rightarrow> ReceivedMessage \<Rightarrow> handler list \<Rightarrow>
    (handler \<times> ReceivedMessage) list" where
  "call_handlers throws m [] = []"
| "call_handlers throws m (h # hs) = (h, m) # (if throws h m then [] else call_handlers throws m hs)"

definition handlers_of :: "destination \<Rightarrow> InMemoryScheduler \<Rightarrow> handler list" where
  "handlers_of destination s =
     (case is_handlers s destination of None \<Rightarrow> [] | Some r \<Rightarrow> is_sets s ! r)"

definition run_dispatch :: "(handler \<Rightarrow> ReceivedMessage \<Rightarrow> bool) \<Rightarrow> InMemoryScheduler \<Rightarrow>
    InMemoryScheduler" where
  "run_dispatch throws s =
     (case is_microtasks s of
        [] \<Rightarrow> s
      | m # ms \<Rightarrow> s\<lparr>is_microtasks := ms,
          is_calls := is_calls s @ call_handlers throws m (handlers_of (rm_destination m) s)\<rparr>)"

section \<open>Runs\<close>

datatype sched_event =
    SSend destination string
  | SSchedule destination string millis
  | SCancel ScheduleHandle
  | SConsume destination handler
  | SUnsubscribe nat handler
  | SMicrotask
  | STimer nat
  | STick millis
  | SDispose
  | SPublish destination string "string option" "PublishOptions option"

fun sched_exec :: "(handler \<Rightarrow> ReceivedMessage \<Rightarrow> bool) \<Rightarrow> sched_event \<Rightarrow> InMemoryScheduler \<Rightarrow>
    InMemoryScheduler option" where
  "sched_exec throws (SSend d p) s = Some (sendNow d p s)"
| "sched_exec throws (SSchedule d p at) s = Some (fst (schedule d p at s))"
| "sched_exec throws (SCancel h) s = Some (cancel h s)"
| "sched_exec throws (SConsume d h) s = Some (fst (consume d h s))"
| "sched_exec throws (SUnsubscribe r h) s = Some (consume_unsubscribe r h s)"
| "sched_exec throws SMicrotask s = Some (run_dispatch throws s)"
| "sched_exec throws (STimer i) s =
     (if i < length (is_timers s) \<and> st_due (is_timers s ! i) \<le> is_now s then Some (fire_schedule i s) else None)"
| "sched_exec throws (STick dt) s = (if 0 \<le> dt then Some (s\<lparr>is_now := is_now s + dt\<rparr>) else None)"
| "sched_exec throws SDispose s = Some (asyncDispose s)"
| "sched_exec throws (SPublish t p rk opts) s = Some (is_publish t p rk opts s)"

fun sched_run :: "(handler \<Rightarrow> ReceivedMessage \<Rightarrow> bool) \<Rightarrow> sched_event list \<Rightarrow> InMemoryScheduler \<Rightarrow>
    InMemoryScheduler option" where
  "sched_run throws [] s = Some s"
| "sched_run throws (e # es) s =
     (case sched_exec throws e s of None \<Rightarrow> None | Some s' \<Rightarrow> sched_run throws es s')"

lemma sched_run_induct [consumes 1, case_names start step]:
  assumes "sched_run throws es s0 = Some s" and "P s0"
    and "\<And>s e s'. e \<in> set es \<Longrightarrow> P s \<Longrightarrow> sched_exec throws e s = Some s' \<Longrightarrow> P s'"
  shows "P s"
  using assms
proof (induction es arbitrary: s0)
  case Nil
  then show ?case by simp
next
  case (Cons e es)
  then obtain s1 where s1: "sched_exec throws e s0 = Some s1" "sched_run throws es s1 = Some s"
    by (auto split: option.splits)
  have "P s1" using Cons.prems(2) Cons.prems(3) [of e s0 s1] s1(1) by simp
  then show ?case using Cons.IH [OF s1(2)] Cons.prems(3) by (meson list.set_intros(2))
qed

section \<open>Pending entries and timers\<close>

text \<open>
  Every entry of \<open>pending\<close> has exactly its timer running and every timer its entry; the ids come from
  the counter, so none is ever used twice.
\<close>

definition timer_view :: "SchedTimer \<Rightarrow> string \<times> nat \<times> destination \<times> string" where
  "timer_view tm = (st_id tm, st_handle tm, st_destination tm, st_payload tm)"

definition entry_view :: "string \<times> PendingSchedule \<Rightarrow> string \<times> nat \<times> destination \<times> string" where
  "entry_view e = (fst e, ps_timer (snd e), ps_destination (snd e), ps_body (snd e))"

definition issued :: "nat \<Rightarrow> string \<Rightarrow> bool" where
  "issued n i \<longleftrightarrow> (\<exists>k \<le> n. i = schedule_id k)"

definition ids_ok :: "InMemoryScheduler \<Rightarrow> bool" where
  "ids_ok s \<longleftrightarrow> set (map fst (is_pending s)) \<inter> set (map fst (is_fired s)) = {} \<and>
     (\<forall>i \<in> set (map fst (is_pending s)) \<union> set (map fst (is_fired s)). issued (is_seq s) i)"

definition sched_ok :: "InMemoryScheduler \<Rightarrow> bool" where
  "sched_ok s \<longleftrightarrow>
     map timer_view (is_timers s) = map entry_view (is_pending s) \<and>
     (\<forall>e \<in> set (is_pending s). ps_id (snd e) = fst e) \<and>
     distinct (map fst (is_pending s)) \<and> distinct (map st_handle (is_timers s)) \<and>
     (\<forall>tm \<in> set (is_timers s). st_handle tm < is_nextTimer s) \<and> ids_ok s"

lemma schedule_id_inject [simp]: "schedule_id m = schedule_id n \<longleftrightarrow> m = n"
  by (simp add: schedule_id_def)

lemma issued_mono: "issued m i \<Longrightarrow> m \<le> n \<Longrightarrow> issued n i"
  by (auto simp: issued_def intro: le_trans)

lemma issued_next: "issued (Suc n) (schedule_id (Suc n))" "\<not> issued n (schedule_id (Suc n))"
  by (auto simp: issued_def)

lemma sched_ok_ids:
  assumes "sched_ok s"
  shows "map st_id (is_timers s) = map fst (is_pending s)"
proof -
  have "map fst (map timer_view (is_timers s)) = map fst (map entry_view (is_pending s))"
    using assms by (simp add: sched_ok_def)
  then show ?thesis by (simp add: comp_def timer_view_def entry_view_def)
qed

text \<open>Removing one element by a key that occurs once.\<close>

lemma filter_key_splice1:
  "distinct (map f xs) \<Longrightarrow> i < length xs \<Longrightarrow> filter (\<lambda>x. f x \<noteq> f (xs ! i)) xs = splice1 i xs"
proof (induction xs arbitrary: i)
  case Nil
  then show ?case by simp
next
  case (Cons x xs)
  show ?case
  proof (cases i)
    case 0
    with Cons.prems have "filter (\<lambda>y. f y \<noteq> f x) xs = xs" by (simp add: filter_id_conv) (metis image_eqI)
    with 0 show ?thesis by (simp add: splice1_def)
  next
    case (Suc j)
    with Cons.prems have "f x \<noteq> f (xs ! j)" by auto
    with Suc Cons show ?thesis by (simp add: splice1_def)
  qed
qed

text \<open>Both lists shrink together when the timer and the entry of one id go.\<close>

lemma remove_schedule_ok:
  assumes ok: "sched_ok s" and i: "i < length (is_timers s)"
  shows "map timer_view (splice1 i (is_timers s)) =
      map entry_view (js_map_delete (is_pending s) (st_id (is_timers s ! i)))"
proof -
  have len: "length (is_pending s) = length (is_timers s)"
    using ok by (metis sched_ok_def length_map)
  have id: "st_id (is_timers s ! i) = fst (is_pending s ! i)"
    using sched_ok_ids [OF ok] i len by (metis nth_map)
  have "js_map_delete (is_pending s) (fst (is_pending s ! i)) = splice1 i (is_pending s)"
    using filter_key_splice1 [of fst "is_pending s" i] ok i len
    by (simp add: js_map_delete_def sched_ok_def case_prod_unfold)
  then show ?thesis
    using ok by (simp add: id map_splice1 sched_ok_def)
qed

lemma cleared_timers:
  assumes ok: "sched_ok s" and get: "js_map_get (is_pending s) k = Some p"
  shows "\<exists>i < length (is_timers s). st_id (is_timers s ! i) = k \<and>
    filter (\<lambda>tm. st_handle tm \<noteq> ps_timer p) (is_timers s) = splice1 i (is_timers s)"
proof -
  have view: "map timer_view (is_timers s) = map entry_view (is_pending s)"
    using ok by (simp add: sched_ok_def)
  from js_map_get_in_set [OF get] obtain i where i: "i < length (is_pending s)" "is_pending s ! i = (k, p)"
    by (metis in_set_conv_nth)
  then have len: "i < length (is_timers s)" using view by (metis length_map)
  have "timer_view (is_timers s ! i) = entry_view (k, p)"
    using view i len by (metis nth_map)
  then have "st_id (is_timers s ! i) = k" "st_handle (is_timers s ! i) = ps_timer p"
    by (simp_all add: timer_view_def entry_view_def)
  moreover have "distinct (map st_handle (is_timers s))" using ok by (simp add: sched_ok_def)
  ultimately show ?thesis using filter_key_splice1 [of st_handle "is_timers s" i] len by auto
qed

lemma sched_ok_removed:
  assumes ok: "sched_ok s" and i: "i < length (is_timers s)" and id: "st_id (is_timers s ! i) = k"
    and s': "is_timers s' = splice1 i (is_timers s)" "is_pending s' = js_map_delete (is_pending s) k"
      "is_nextTimer s' = is_nextTimer s" "is_seq s \<le> is_seq s'"
      "is_fired s' = is_fired s \<or> is_fired s' = is_fired s @ [(k, x)]"
  shows "sched_ok s'"
proof -
  have sub: "set (is_pending s') \<subseteq> set (is_pending s)" "set (is_timers s') \<subseteq> set (is_timers s)"
    using s' set_splice1_subset [of i "is_timers s"] by (auto simp: js_map_delete_def)
  have gone: "k \<notin> set (map fst (is_pending s'))" using s' by (auto simp: js_map_delete_def)
  have there: "k \<in> set (map fst (is_pending s))"
    using sched_ok_ids [OF ok] i id by (metis in_set_conv_nth length_map nth_map)
  have ids: "set (map fst (is_pending s')) \<subseteq> set (map fst (is_pending s))"
    "set (map fst (is_fired s')) \<subseteq> insert k (set (map fst (is_fired s)))"
    using sub(1) s'(5) by auto
  have "ids_ok s" using ok by (simp add: sched_ok_def)
  then have "ids_ok s'"
    using gone there ids issued_mono [OF _ s'(4)] unfolding ids_ok_def by blast
  moreover have "distinct (map st_handle (is_timers s'))" "distinct (map fst (is_pending s'))"
    using ok s' by (simp_all add: sched_ok_def map_splice1 distinct_splice1 distinct_js_map_delete)
  moreover have "map timer_view (is_timers s') = map entry_view (is_pending s')"
    using remove_schedule_ok [OF ok i] s' id by simp
  ultimately show ?thesis using ok sub s'(3) by (auto simp: sched_ok_def)
qed

lemma schedule_new:
  assumes "sched_ok s"
  shows "schedule_id (Suc (is_seq s)) \<notin> set (map fst (is_pending s)) \<union> set (map fst (is_fired s))"
  using assms issued_next(2) unfolding sched_ok_def ids_ok_def by blast

lemma schedule_fresh:
  assumes "sched_ok s"
  shows "js_map_set (is_pending s) (schedule_id (Suc (is_seq s))) v =
    is_pending s @ [(schedule_id (Suc (is_seq s)), v)]"
  by (rule js_map_set_fresh) (use schedule_new [OF assms] in \<open>simp add: js_map_get_None_iff\<close>)

lemma schedule_ok:
  assumes ok: "sched_ok s"
  shows "sched_ok (fst (schedule d p at s))"
proof -
  note fresh = schedule_fresh [OF ok]
  have new: "schedule_id (Suc (is_seq s)) \<notin> fst ` set (is_pending s)"
    "schedule_id (Suc (is_seq s)) \<notin> fst ` set (is_fired s)" using schedule_new [OF ok] by auto
  have "ids_ok (fst (schedule d p at s))"
    using ok new issued_next(1) issued_mono [of "is_seq s" _ "Suc (is_seq s)"]
    by (auto simp: schedule_def Let_def fresh sched_ok_def ids_ok_def)
  then show ?thesis
    using ok new by (auto simp: schedule_def Let_def fresh sched_ok_def timer_view_def entry_view_def less_Suc_eq)
qed

lemma fire_schedule_ok:
  assumes "sched_ok s" "i < length (is_timers s)"
  shows "sched_ok (fire_schedule i s)"
  by (rule sched_ok_removed [OF assms refl]) (simp_all add: fire_schedule_def dispatch_def Let_def)

lemma cancel_ok:
  assumes "sched_ok s"
  shows "sched_ok (cancel h s)"
proof (cases "js_map_get (is_pending s) (sh_id h)")
  case None
  with assms show ?thesis by (simp add: cancel_def)
next
  case (Some p)
  from cleared_timers [OF assms Some] obtain i where
    "i < length (is_timers s)" "st_id (is_timers s ! i) = sh_id h"
    "filter (\<lambda>tm. st_handle tm \<noteq> ps_timer p) (is_timers s) = splice1 i (is_timers s)" by blast
  with Some show ?thesis
    by (intro sched_ok_removed [OF assms]) (simp_all add: cancel_def clear_timeout_def)
qed

lemma fold_clear_timeout:
  "fold (\<lambda>p. clear_timeout (ps_timer p)) ps s =
     s\<lparr>is_timers := filter (\<lambda>tm. st_handle tm \<notin> ps_timer ` set ps) (is_timers s)\<rparr>"
  by (induction ps arbitrary: s) (auto simp: clear_timeout_def intro: filter_cong)

lemma asyncDispose_timers:
  assumes "sched_ok s"
  shows "is_timers (asyncDispose s) = []"
proof -
  have "map (fst \<circ> snd) (map timer_view (is_timers s)) = map (fst \<circ> snd) (map entry_view (is_pending s))"
    using assms by (simp add: sched_ok_def)
  then have "map st_handle (is_timers s) = map (ps_timer \<circ> snd) (is_pending s)"
    by (simp add: comp_def timer_view_def entry_view_def)
  then have "set (map st_handle (is_timers s)) = set (map (ps_timer \<circ> snd) (is_pending s))" by simp
  then have "\<forall>tm \<in> set (is_timers s). st_handle tm \<in> ps_timer ` set (map snd (is_pending s))"
    by (auto simp: image_comp)
  then show ?thesis
    by (simp add: asyncDispose_def Let_def fold_clear_timeout filter_empty_conv image_image)
qed

lemma asyncDispose_ok:
  assumes "sched_ok s"
  shows "sched_ok (asyncDispose s)"
proof -
  have "is_pending (asyncDispose s) = []" "is_fired (asyncDispose s) = is_fired s"
    "is_seq (asyncDispose s) = is_seq s"
    by (simp_all add: asyncDispose_def Let_def fold_clear_timeout)
  with asyncDispose_timers [OF assms] assms show ?thesis by (simp add: sched_ok_def ids_ok_def)
qed

text \<open>Operations that touch neither the schedules nor the timers.\<close>

lemma sched_ok_frame:
  assumes "sched_ok s" "is_timers s' = is_timers s" "is_pending s' = is_pending s"
    "is_nextTimer s' = is_nextTimer s" "is_seq s \<le> is_seq s'" "is_fired s' = is_fired s"
  shows "sched_ok s'"
  using assms(1-4,6) issued_mono [OF _ assms(5)] by (auto simp: sched_ok_def ids_ok_def)

lemma sched_exec_ok:
  assumes "sched_exec throws e s = Some s'" "sched_ok s"
  shows "sched_ok s'"
proof (cases e)
  case (SSchedule d p at)
  with assms show ?thesis by (auto simp: schedule_ok)
next
  case (SCancel h)
  with assms show ?thesis by (auto simp: cancel_ok)
next
  case (STimer i)
  with assms show ?thesis by (auto simp: fire_schedule_ok split: if_splits)
next
  case SDispose
  with assms show ?thesis by (auto simp: asyncDispose_ok)
qed (use assms in \<open>auto intro!: sched_ok_frame [OF assms(2)] simp: sendNow_def dispatch_def Let_def consume_def
    consume_unsubscribe_def run_dispatch_def is_publish_def split: option.splits list.splits if_splits\<close>)

lemma is_init_ok: "sched_ok is_init"
  by (simp add: sched_ok_def ids_ok_def is_init_def)

lemma sched_run_ok: "sched_run throws es s = Some s' \<Longrightarrow> sched_ok s \<Longrightarrow> sched_ok s'"
  by (induction rule: sched_run_induct) (auto intro: sched_exec_ok)


section \<open>One schedule through a run\<close>

text \<open>
  The fate of the schedule \<open>k\<close>: it fires once its delivery time has come, and until then it is
  listed with its destination, payload and time.
\<close>

definition on_course :: "string \<Rightarrow> destination \<Rightarrow> string \<Rightarrow> millis \<Rightarrow> millis \<Rightarrow> InMemoryScheduler \<Rightarrow> bool" where
  "on_course k d p at due s \<longleftrightarrow>
     (k, d, p) \<in> set (is_fired s) \<and> due \<le> is_now s \<or>
     (\<exists>t. (k, \<lparr>ps_id = k, ps_destination = d, ps_body = p, ps_deliverAt = at, ps_timer = t\<rparr>) \<in> set (is_pending s) \<and>
        (\<forall>tm \<in> set (is_timers s). st_id tm = k \<longrightarrow> st_due tm = due))"

lemma on_course_frame:
  "on_course k d p at due s \<Longrightarrow> is_timers s' = is_timers s \<Longrightarrow> is_pending s' = is_pending s \<Longrightarrow>
     is_fired s' = is_fired s \<Longrightarrow> is_now s \<le> is_now s' \<Longrightarrow> on_course k d p at due s'"
  by (auto simp: on_course_def)

lemma on_course_removed:
  assumes ok: "sched_ok s" and course: "on_course k d p at due s"
    and i: "i < length (is_timers s)" "st_id (is_timers s ! i) \<noteq> k"
    and s': "is_timers s' = splice1 i (is_timers s)"
      "is_pending s' = js_map_delete (is_pending s) (st_id (is_timers s ! i))"
      "set (is_fired s) \<subseteq> set (is_fired s')" "is_now s' = is_now s"
  shows "on_course k d p at due s'"
  using course s' i(2) set_splice1_subset [of i "is_timers s"]
  by (auto simp: on_course_def js_map_delete_def)

lemma schedule_on_course:
  assumes ok: "sched_ok s" and "k \<noteq> schedule_id (Suc (is_seq s))" and "on_course k d p at due s"
  shows "on_course k d p at due (fst (schedule d' p' at' s))"
  using assms(2,3) by (auto simp: on_course_def schedule_def Let_def schedule_fresh [OF ok])

lemma fire_on_course:
  assumes ok: "sched_ok s" and i: "i < length (is_timers s)" "st_due (is_timers s ! i) \<le> is_now s"
    and course: "on_course k d p at due s"
  shows "on_course k d p at due (fire_schedule i s)"
proof (cases "st_id (is_timers s ! i) = k")
  case False
  then show ?thesis
    by (intro on_course_removed [OF ok course i(1)]) (auto simp: fire_schedule_def dispatch_def Let_def)
next
  case True
  let ?tm = "is_timers s ! i"
  have mem: "?tm \<in> set (is_timers s)" using i(1) by simp
  show ?thesis
  proof (cases "(k, d, p) \<in> set (is_fired s) \<and> due \<le> is_now s")
    case True
    then show ?thesis by (simp add: on_course_def fire_schedule_def dispatch_def Let_def)
  next
    case False
    with course obtain t where e: "(k, \<lparr>ps_id = k, ps_destination = d, ps_body = p, ps_deliverAt = at,
        ps_timer = t\<rparr>) \<in> set (is_pending s)" and due: "st_due ?tm = due"
      using mem True by (auto simp: on_course_def)
    have "timer_view ?tm \<in> set (map entry_view (is_pending s))"
      using ok mem by (metis image_eqI list.set_map sched_ok_def)
    then obtain k' v where kv: "(k', v) \<in> set (is_pending s)" "timer_view ?tm = entry_view (k', v)"
      by auto
    then have "k' = k" using True by (simp add: timer_view_def entry_view_def)
    moreover have "distinct (map fst (is_pending s))" using ok by (simp add: sched_ok_def)
    ultimately have "v = \<lparr>ps_id = k, ps_destination = d, ps_body = p, ps_deliverAt = at, ps_timer = t\<rparr>"
      using kv(1) e eq_key_imp_eq_value by fast
    with kv(2) have "st_destination ?tm = d" "st_payload ?tm = p"
      by (simp_all add: timer_view_def entry_view_def)
    with True i(2) due show ?thesis by (simp add: on_course_def fire_schedule_def dispatch_def Let_def)
  qed
qed

lemma cancel_on_course:
  assumes ok: "sched_ok s" and "sh_id h \<noteq> k" and course: "on_course k d p at due s"
  shows "on_course k d p at due (cancel h s)"
proof (cases "js_map_get (is_pending s) (sh_id h)")
  case None
  with course show ?thesis by (simp add: cancel_def)
next
  case (Some e)
  from cleared_timers [OF ok Some] obtain i where
    "i < length (is_timers s)" "st_id (is_timers s ! i) = sh_id h"
    "filter (\<lambda>tm. st_handle tm \<noteq> ps_timer e) (is_timers s) = splice1 i (is_timers s)" by blast
  with Some assms(2) show ?thesis
    by (intro on_course_removed [OF ok course]) (auto simp: cancel_def clear_timeout_def)
qed

lemma sched_exec_seq: "sched_exec throws e s = Some s' \<Longrightarrow> is_seq s \<le> is_seq s'"
  by (cases e) (auto simp: sendNow_def dispatch_def Let_def schedule_def cancel_def clear_timeout_def
      consume_def consume_unsubscribe_def run_dispatch_def fire_schedule_def is_publish_def
      asyncDispose_def fold_clear_timeout split: option.splits list.splits if_splits)

lemma on_course_step:
  assumes run: "sched_exec throws e s = Some s'" and ok: "sched_ok s"
    and course: "on_course k d p at due s" and k: "k \<noteq> schedule_id (Suc (is_seq s))"
    and keep: "\<forall>h. e = SCancel h \<longrightarrow> sh_id h \<noteq> k" "e \<noteq> SDispose"
  shows "on_course k d p at due s'"
proof (cases e)
  case (SSchedule d' p' at')
  with run schedule_on_course [OF ok k course] show ?thesis by auto
next
  case (SCancel h)
  with run keep cancel_on_course [OF ok _ course] show ?thesis by auto
next
  case (STimer i)
  with run fire_on_course [OF ok _ _ course] show ?thesis by (auto split: if_splits)
qed (use run keep in \<open>auto intro!: on_course_frame [OF course] simp: sendNow_def dispatch_def Let_def
    consume_def consume_unsubscribe_def run_dispatch_def is_publish_def
    split: option.splits list.splits if_splits\<close>)

lemma on_course_run:
  assumes "sched_run throws es s = Some s'" and "sched_ok s" and "on_course (schedule_id n) d p at due s"
    and "n \<le> is_seq s" and "\<forall>h. SCancel h \<in> set es \<longrightarrow> sh_id h \<noteq> schedule_id n" and "SDispose \<notin> set es"
  shows "on_course (schedule_id n) d p at due s' \<and> sched_ok s'"
proof -
  have "on_course (schedule_id n) d p at due s' \<and> sched_ok s' \<and> n \<le> is_seq s'"
    using assms(1)
  proof (induction rule: sched_run_induct)
    case start
    show ?case using assms by simp
  next
    case (step s e s')
    then have "on_course (schedule_id n) d p at due s'"
      using assms(5,6) by (intro on_course_step [of throws e s s']) auto
    moreover have "sched_ok s'" "n \<le> is_seq s'"
      using step sched_exec_ok sched_exec_seq by (blast, meson le_trans)
    ultimately show ?case by blast
  qed
  then show ?thesis by blast
qed

lemma schedule_starts_course:
  assumes ok: "sched_ok s"
  shows "on_course (schedule_id (Suc (is_seq s))) d p at
    (is_now s + timeout_delay (max 0 (at - is_now s))) (fst (schedule d p at s))"
proof -
  have "schedule_id (Suc (is_seq s)) \<notin> st_id ` set (is_timers s)"
    using schedule_new [OF ok] sched_ok_ids [OF ok] by (metis UnCI list.set_map)
  then show ?thesis
    by (auto simp: on_course_def schedule_def Let_def schedule_fresh [OF ok] rev_image_eqI)
qed

lemma on_course_listed:
  assumes "sched_ok s" "on_course k d p at due s" "is_now s < due"
  shows "\<lparr>si_id = k, si_destination = d, si_deliverAt = Some at\<rparr> \<in> set (listScheduled d s)"
    and "(k, d, p) \<notin> set (is_fired s)"
proof -
  obtain t where e: "(k, \<lparr>ps_id = k, ps_destination = d, ps_body = p, ps_deliverAt = at, ps_timer = t\<rparr>) \<in> set (is_pending s)"
    using assms(2,3) by (auto simp: on_course_def)
  then show "\<lparr>si_id = k, si_destination = d, si_deliverAt = Some at\<rparr> \<in> set (listScheduled d s)"
    by (force simp: listScheduled_def)
  have there: "k \<in> set (map fst (is_pending s))" using e by force
  show "(k, d, p) \<notin> set (is_fired s)"
  proof
    assume "(k, d, p) \<in> set (is_fired s)"
    then have "k \<in> set (map fst (is_fired s))" by force
    with there assms(1) show False unfolding sched_ok_def ids_ok_def by blast
  qed
qed

lemma listed_ids:
  assumes "sched_ok s"
  shows "map si_id (listScheduled d s) = map fst (filter (\<lambda>e. ps_destination (snd e) = d) (is_pending s))"
proof -
  have "map si_id (listScheduled d s) =
      map (ps_id \<circ> snd) (filter (\<lambda>e. ps_destination (snd e) = d) (is_pending s))"
    by (simp add: listScheduled_def filter_map comp_def)
  with assms show ?thesis by (simp add: sched_ok_def)
qed

lemma on_course_done:
  assumes "sched_ok s" "on_course k d p at due s" "due \<le> is_now s"
    and "\<forall>tm \<in> set (is_timers s). is_now s < st_due tm"
  shows "(k, d, p) \<in> set (is_fired s)"
proof (rule ccontr)
  assume "(k, d, p) \<notin> set (is_fired s)"
  with assms(2) have "k \<in> fst ` set (is_pending s)"
    and due: "\<forall>tm \<in> set (is_timers s). st_id tm = k \<longrightarrow> st_due tm = due"
    by (force simp: on_course_def)+
  then have "k \<in> st_id ` set (is_timers s)" using sched_ok_ids [OF assms(1)] by (metis list.set_map)
  with due assms(3,4) show False by force
qed

text \<open>A cancelled schedule has no timer left and its id is never issued again.\<close>

lemma sched_exec_ids:
  assumes "sched_exec throws e s = Some s'" and "sched_ok s"
  shows "fst ` set (is_pending s') \<subseteq> insert (schedule_id (Suc (is_seq s))) (fst ` set (is_pending s))"
    and "fst ` set (is_fired s') \<subseteq> fst ` set (is_fired s) \<union> st_id ` set (is_timers s)"
  using assms(1) by (cases e; auto simp: sendNow_def dispatch_def Let_def schedule_def
      schedule_fresh [OF assms(2)] cancel_def clear_timeout_def consume_def consume_unsubscribe_def
      run_dispatch_def fire_schedule_def is_publish_def asyncDispose_def fold_clear_timeout js_map_delete_def
      intro: rev_image_eqI split: option.splits list.splits if_splits)+

lemma cancelled_never_fires:
  assumes "sched_run throws es s = Some s'" and "sched_ok s" and "issued (is_seq s) k"
    and "k \<notin> set (map fst (is_pending s))" and "k \<notin> set (map fst (is_fired s))"
  shows "k \<notin> set (map fst (is_fired s'))"
proof -
  have "sched_ok s' \<and> issued (is_seq s') k \<and> k \<notin> set (map fst (is_pending s')) \<and>
      k \<notin> set (map fst (is_fired s'))"
    using assms(1)
  proof (induction rule: sched_run_induct)
    case start
    show ?case using assms by simp
  next
    case (step s e s')
    then have ok: "sched_ok s" and iss: "issued (is_seq s) k"
      and p: "k \<notin> set (map fst (is_pending s))" and f: "k \<notin> set (map fst (is_fired s))" by auto
    have "k \<noteq> schedule_id (Suc (is_seq s))" using iss issued_next(2) by blast
    moreover have "k \<notin> st_id ` set (is_timers s)" using sched_ok_ids [OF ok] p by (metis list.set_map)
    ultimately have "k \<notin> set (map fst (is_pending s')) \<and> k \<notin> set (map fst (is_fired s'))"
      using sched_exec_ids [OF step.hyps(2) ok] p f by auto
    then show ?case
      using sched_exec_ok [OF step.hyps(2) ok] issued_mono [OF iss sched_exec_seq [OF step.hyps(2)]] by blast
  qed
  then show ?thesis by blast
qed

end
