(* ===== verification/Scheduler_Port.thy ===== *)
theory Scheduler_Port
  imports Abstractions
begin

text \<open>
  The contract of the scheduler port (\<open>abstractions/message-scheduler.ts\<close>): \<open>cancel\<close> and
  \<open>listScheduled\<close> throw \<open>NotSupportedError\<close> when, and only when, the adapter declares the operation
  unsupported. A scenario classifies an attempt by that error; the lemmas of the locale say that on
  an adapter that keeps the contract the classification agrees with the declared capabilities.
\<close>

text \<open>How a scenario reads the outcome of an optional operation.\<close>

datatype attempt = Done | Unsupported | Broke

definition attempt_of :: "js_error + 'r \<Rightarrow> attempt" where
  "attempt_of r = (case r of Inr _ \<Rightarrow> Done | Inl e \<Rightarrow> if is_NotSupported e then Unsupported else Broke)"

locale scheduler_port =
  fixes caps :: Capabilities
    and do_cancel :: "ScheduleHandle \<Rightarrow> 's \<Rightarrow> js_error + 's"
    and do_list :: "destination \<Rightarrow> 's \<Rightarrow> js_error + ScheduledInfo list"
  assumes cancel_refused: "\<not> cap_supportsCancel caps \<Longrightarrow>
      \<exists>op brk r. do_cancel h s = Inl (NotSupportedError op brk r)"
    and cancel_attempted: "cap_supportsCancel caps \<Longrightarrow> do_cancel h s = Inl e \<Longrightarrow> \<not> is_NotSupported e"
    and list_refused: "\<not> cap_supportsList caps \<Longrightarrow>
      \<exists>op brk r. do_list d s = Inl (NotSupportedError op brk r)"
    and list_attempted: "cap_supportsList caps \<Longrightarrow> do_list d s = Inl e \<Longrightarrow> \<not> is_NotSupported e"
begin

lemma cancel_verdict: "attempt_of (do_cancel h s) = Unsupported \<longleftrightarrow> \<not> cap_supportsCancel caps"
  using cancel_refused [of h s] cancel_attempted [of h s]
  by (cases "cap_supportsCancel caps") (auto simp: attempt_of_def split: sum.splits)

lemma list_verdict: "attempt_of (do_list d s) = Unsupported \<longleftrightarrow> \<not> cap_supportsList caps"
  using list_refused [of d s] list_attempted [of d s]
  by (cases "cap_supportsList caps") (auto simp: attempt_of_def split: sum.splits)

end

end
