(* ===== verification/Scheduler_Properties.thy ===== *)
theory Scheduler_Properties
  imports In_Memory_Scheduler Scheduler_Port
begin

text \<open>The properties of the in-process scheduler.\<close>

section \<open>The port contract\<close>

interpretation memory_port: scheduler_port is_capabilities
  "\<lambda>h s. Inr (cancel h s)" "\<lambda>d s. Inr (listScheduled d s)"
  by unfold_locales (simp_all add: is_capabilities_def)

section \<open>Delivery time\<close>



text \<open>Beyond 2147483647 ms the timer overflows: a message scheduled for the year-scale future is
delivered after one millisecond.\<close>

theorem far_schedule_fires_early:
  "\<exists>s. sched_run (\<lambda>_ _. False) [SSchedule ''t'' ''x'' 3000000000, STick 1, STimer 0] is_init = Some s \<and>
     is_now s = 1 \<and> map rm_body (is_microtasks s) = [''x''] \<and> listScheduled ''t'' s = []"
proof -
  let ?es = "[SSchedule ''t'' ''x'' 3000000000, STick 1, STimer 0]"
  define s where "s = the (sched_run (\<lambda>_ _. False) ?es is_init)"
  have "sched_run (\<lambda>_ _. False) ?es is_init \<noteq> None" by code_simp
  then have "sched_run (\<lambda>_ _. False) ?es is_init = Some s" by (simp add: s_def)
  moreover have "is_now s = 1" "map rm_body (is_microtasks s) = [''x'']" "map si_id (listScheduled ''t'' s) = []"
    unfolding s_def by code_simp+
  ultimately show ?thesis by auto
qed

text \<open>C18. Cancelling before the timer runs prevents delivery for good: if a handle's schedule has not
fired when it is cancelled, it never fires in any continuation, and it is no longer listed.\<close>

theorem cancel_prevents_delivery:
  assumes "sched_run throws es0 is_init = Some s0" and "sh_id h \<in> set (map fst (is_pending s0))"
    and "sched_run throws es (cancel h s0) = Some s"
  shows "sh_id h \<notin> set (map fst (is_fired s)) \<and>
    sh_id h \<notin> set (map si_id (listScheduled d (cancel h s0)))"
proof -
  have ok: "sched_ok s0" using sched_run_ok [OF assms(1) is_init_ok] .
  obtain p where p: "js_map_get (is_pending s0) (sh_id h) = Some p"
    using assms(2) by (cases "js_map_get (is_pending s0) (sh_id h)") (auto simp: js_map_get_None_iff)
  have c: "is_pending (cancel h s0) = js_map_delete (is_pending s0) (sh_id h)"
    "is_fired (cancel h s0) = is_fired s0" "is_seq (cancel h s0) = is_seq s0"
    using p by (simp_all add: cancel_def clear_timeout_def)
  have gone: "sh_id h \<notin> set (map fst (is_pending (cancel h s0)))" by (auto simp: c js_map_delete_def)
  have "sh_id h \<notin> set (map fst (is_fired (cancel h s0)))" "issued (is_seq (cancel h s0)) (sh_id h)"
    using ok assms(2) by (auto simp: c sched_ok_def ids_ok_def)
  from cancelled_never_fires [OF assms(3) cancel_ok [OF ok] this(2) gone this(1)]
  have "sh_id h \<notin> set (map fst (is_fired s))" .
  moreover have "sh_id h \<notin> set (map si_id (listScheduled d (cancel h s0)))"
    using gone unfolding listed_ids [OF cancel_ok [OF ok]] by auto
  ultimately show ?thesis ..
qed

theorem cancel_prevents_delivery_witness:
  "(let (s, h) = schedule ''t'' ''x'' 50 is_init
    in \<exists>s'. sched_run (\<lambda>_ _. False) [STick 100] (cancel h s) = Some s' \<and> sh_id h \<notin> set (map fst (is_fired s')))"
proof -
  let ?s = "fst (schedule ''t'' ''x'' 50 is_init)" and ?h = "snd (schedule ''t'' ''x'' 50 is_init)"
  define s' where "s' = the (sched_run (\<lambda>_ _. False) [STick 100] (cancel ?h ?s))"
  have "sched_run (\<lambda>_ _. False) [STick 100] (cancel ?h ?s) \<noteq> None" by code_simp
  then have r: "sched_run (\<lambda>_ _. False) [STick 100] (cancel ?h ?s) = Some s'" by (simp add: s'_def)
  have "sched_run (\<lambda>_ _. False) [SSchedule ''t'' ''x'' 50] is_init = Some ?s" by simp
  moreover have "sh_id ?h \<in> set (map fst (is_pending ?s))" by code_simp
  ultimately show ?thesis
    using cancel_prevents_delivery [OF _ _ r, of "[SSchedule ''t'' ''x'' 50]"] r
    unfolding case_prod_unfold Let_def by blast
qed

text \<open>The listing is exact: in every run, what is listed for a destination are the ids of precisely
the timers that are still running for it, in order of scheduling.\<close>

theorem listing_matches_timers:
  assumes "sched_run throws es is_init = Some s"
  shows "map si_id (listScheduled d s) = map st_id (filter (\<lambda>tm. st_destination tm = d) (is_timers s))"
proof -
  have ok: "sched_ok s" using sched_run_ok [OF assms is_init_ok] .
  have "map fst (filter (\<lambda>v. fst (snd (snd v)) = d) (map timer_view (is_timers s))) =
      map fst (filter (\<lambda>v. fst (snd (snd v)) = d) (map entry_view (is_pending s)))"
    using ok by (simp add: sched_ok_def)
  then have "map st_id (filter (\<lambda>tm. st_destination tm = d) (is_timers s)) =
      map fst (filter (\<lambda>e. ps_destination (snd e) = d) (is_pending s))"
    by (simp add: filter_map comp_def timer_view_def entry_view_def)
  with listed_ids [OF ok] show ?thesis by simp
qed

theorem listing_matches_timers_witness:
  "map si_id (listScheduled ''t'' (fst (schedule ''t'' ''x'' 50 is_init))) = [''mem-1''] \<and>
   map st_id (filter (\<lambda>tm. st_destination tm = ''t'') (is_timers (fst (schedule ''t'' ''x'' 50 is_init)))) = [''mem-1'']"
proof -
  have "sched_run (\<lambda>_ _. False) [SSchedule ''t'' ''x'' 50] is_init = Some (fst (schedule ''t'' ''x'' 50 is_init))"
    by simp
  from listing_matches_timers [OF this, of "''t''"]
  have "map si_id (listScheduled ''t'' (fst (schedule ''t'' ''x'' 50 is_init))) =
      map st_id (filter (\<lambda>tm. st_destination tm = ''t'') (is_timers (fst (schedule ''t'' ''x'' 50 is_init))))" .
  moreover have "map si_id (listScheduled ''t'' (fst (schedule ''t'' ''x'' 50 is_init))) = [''mem-1'']" by code_simp
  ultimately show ?thesis by simp
qed

end
