(* ===== verification/Idempotency.thy ===== *)
theory Idempotency
  imports Abstractions
begin

text \<open>
  Time-windowed idempotency (\<open>typescript/src/idempotency/\<close>): the handler wrapper, the in-memory store
  and the Redis store. A store operation, a handler and an acknowledgement are state-passing functions;
  what throws returns an error beside the state. The Redis client is a parameter.
\<close>

section \<open>The store contract\<close>

text \<open>
  \<open>until s k\<close> is the time up to which \<open>k\<close> counts as seen. \<open>mark\<close> answers whether the key is seen now;
  a fresh key becomes seen for \<open>ttl\<close> seconds, atomically with the answer.
\<close>

locale idempotency_store =
  fixes mark :: "string \<Rightarrow> int \<Rightarrow> 's \<Rightarrow> bool \<times> 's"
    and now :: "'s \<Rightarrow> millis"
    and until :: "'s \<Rightarrow> string \<rightharpoonup> millis"
    and tick :: "millis \<Rightarrow> 's \<Rightarrow> 's"
  assumes answer: "fst (mark k ttl s) \<longleftrightarrow> (\<exists>e. until s k = Some e \<and> now s < e)"
    and duplicate: "fst (mark k ttl s) \<Longrightarrow> snd (mark k ttl s) = s"
    and fresh: "\<not> fst (mark k ttl s) \<Longrightarrow> until (snd (mark k ttl s)) = (until s)(k \<mapsto> now s + ttl * 1000)"
    and mark_now: "now (snd (mark k ttl s)) = now s"
    and tick_now: "now (tick dt s) = now s + dt"
    and tick_until: "until (tick dt s) = until s"
begin

text \<open>A history of the store: each entry is a pause, a key and a window; the answers in order.\<close>

fun answers :: "(millis \<times> string \<times> int) list \<Rightarrow> 's \<Rightarrow> bool list" where
  "answers [] s = []"
| "answers ((dt, k, ttl) # es) s =
     (case mark k ttl (tick dt s) of (seen, s') \<Rightarrow> seen # answers es s')"

lemma other_key: "k' \<noteq> k \<Longrightarrow> until (snd (mark k ttl s)) k' = until s k'"
  using duplicate [of k ttl s] fresh [of k ttl s] by (cases "fst (mark k ttl s)") simp_all

text \<open>While a key's window lasts it stays marked, whatever else happens.\<close>

lemma stays_marked:
  assumes "until s k = Some e" "now s < e"
  shows "until (snd (mark k' ttl s)) k = Some e"
proof (cases "k' = k")
  case True
  with assms have "fst (mark k' ttl s)" by (auto simp: answer)
  with assms(1) duplicate show ?thesis by simp
next
  case False
  with assms(1) other_key show ?thesis by simp
qed

lemma answers_within_window:
  "until s k = Some e \<Longrightarrow> \<forall>x \<in> set es. 0 \<le> fst x \<Longrightarrow> i < length es \<Longrightarrow> fst (snd (es ! i)) = k \<Longrightarrow>
   now s + sum_list (map fst (take (Suc i) es)) < e \<Longrightarrow> answers es s ! i"
proof (induction es arbitrary: s i)
  case Nil
  then show ?case by simp
next
  case (Cons x es)
  obtain dt k' ttl where x: "x = (dt, k', ttl)" by (cases x) auto
  let ?t = "tick dt s"
  have u: "until ?t k = Some e" using Cons.prems(1) by (simp add: tick_until)
  have ge: "0 \<le> sum_list (map fst (take n es))" for n
    using Cons.prems(2) by (intro sum_list_nonneg) (auto dest: in_set_takeD)
  show ?case
  proof (cases i)
    case 0
    with Cons.prems x u show ?thesis by (auto simp: answer tick_now split: prod.splits)
        (metis answer fst_conv tick_now u)
  next
    case (Suc j)
    have "now ?t < e" using Cons.prems(5) Suc x ge [of "Suc j"] by (simp add: tick_now)
    from stays_marked [OF u this] have "until (snd (mark k' ttl ?t)) k = Some e" .
    from Cons.IH [OF this, of j] Cons.prems Suc x show ?thesis
      by (simp add: mark_now tick_now case_prod_unfold add.assoc)
  qed
qed

end

section \<open>The in-memory store\<close>

record MemoryStore =
  ms_seen :: "string \<rightharpoonup> millis"
  ms_now :: millis

definition empty_store :: MemoryStore where
  "empty_store = \<lparr>ms_seen = Map.empty, ms_now = 0\<rparr>"

definition tryMarkSeen :: "string \<Rightarrow> int \<Rightarrow> MemoryStore \<Rightarrow> bool \<times> MemoryStore" where
  "tryMarkSeen key ttlSeconds s =
     (case ms_seen s key of
        Some expiry \<Rightarrow>
          if expiry > ms_now s then (True, s)
          else (False, s\<lparr>ms_seen := (ms_seen s)(key \<mapsto> ms_now s + ttlSeconds * 1000)\<rparr>)
      | None \<Rightarrow> (False, s\<lparr>ms_seen := (ms_seen s)(key \<mapsto> ms_now s + ttlSeconds * 1000)\<rparr>))"

definition store_tick :: "millis \<Rightarrow> MemoryStore \<Rightarrow> MemoryStore" where
  "store_tick dt s = s\<lparr>ms_now := ms_now s + dt\<rparr>"

interpretation memory: idempotency_store tryMarkSeen ms_now ms_seen store_tick
  by unfold_locales (auto simp: tryMarkSeen_def store_tick_def split: option.splits if_splits)

section \<open>The handler wrapper\<close>

type_synonym 'w effect = "'w \<Rightarrow> js_error option \<times> 'w"

definition DEFAULT_TTL_SECONDS :: int where
  "DEFAULT_TTL_SECONDS = 300"

text \<open>
  \<open>idempotentHandler\<close>: anything thrown while asking the store, by the key function or by the store, is
  logged and read as not seen.
\<close>

definition ask_store :: "(string \<Rightarrow> int \<Rightarrow> 'w \<Rightarrow> (js_error + bool) \<times> 'w) \<Rightarrow> (IncomingMessage \<Rightarrow> js_error + string) \<Rightarrow>
    int \<Rightarrow> IncomingMessage \<Rightarrow> 'w \<Rightarrow> bool \<times> 'w" where
  "ask_store store keyOf ttl m w =
     (case keyOf m of
        Inl e \<Rightarrow> (False, w)
      | Inr key \<Rightarrow>
          (case store key ttl w of
             (Inl e, w') \<Rightarrow> (False, w')
           | (Inr alreadySeen, w') \<Rightarrow> (alreadySeen, w')))"

definition idempotentHandler :: "(string \<Rightarrow> int \<Rightarrow> 'w \<Rightarrow> (js_error + bool) \<times> 'w) \<Rightarrow>
    (IncomingMessage \<Rightarrow> 'w effect) \<Rightarrow> (IncomingMessage \<Rightarrow> 'w effect) \<Rightarrow>
    (IncomingMessage \<Rightarrow> js_error + string) \<Rightarrow> int \<Rightarrow> IncomingMessage \<Rightarrow> 'w effect" where
  "idempotentHandler store inner ackMsg keyOf ttl m w =
     (case ask_store store keyOf ttl m w of
        (alreadySeen, w') \<Rightarrow> if \<not> alreadySeen then inner m w' else ackMsg m w')"

definition body_key :: "IncomingMessage \<Rightarrow> js_error + string" where
  "body_key m = Inr (rm_body m)"

section \<open>A run of wrapped deliveries\<close>

text \<open>
  The world of a consumer: its store, the messages its inner handler was run on and the messages the
  wrapper acknowledged. Whether the inner handler throws is the client's choice (\<open>fails\<close>).
\<close>

record World =
  w_store :: MemoryStore
  w_ran :: "IncomingMessage list"
  w_acked :: "IncomingMessage list"

definition w_mark :: "string \<Rightarrow> int \<Rightarrow> World \<Rightarrow> (js_error + bool) \<times> World" where
  "w_mark k ttl w = (case tryMarkSeen k ttl (w_store w) of (b, s) \<Rightarrow> (Inr b, w\<lparr>w_store := s\<rparr>))"

definition w_inner :: "(IncomingMessage \<Rightarrow> bool) \<Rightarrow> IncomingMessage \<Rightarrow> World effect" where
  "w_inner fails m w = (if fails m then Some (Error ''handler'') else None, w\<lparr>w_ran := w_ran w @ [m]\<rparr>)"

definition w_ack :: "IncomingMessage \<Rightarrow> World effect" where
  "w_ack m w = (None, w\<lparr>w_acked := w_acked w @ [m]\<rparr>)"

definition w_handle :: "(IncomingMessage \<Rightarrow> bool) \<Rightarrow> int \<Rightarrow> IncomingMessage \<Rightarrow> World effect" where
  "w_handle fails ttl = idempotentHandler w_mark (w_inner fails) w_ack body_key ttl"

text \<open>Deliveries one after the other, each after a pause; a thrown error does not stop the consumer.\<close>

fun deliveries :: "(IncomingMessage \<Rightarrow> bool) \<Rightarrow> int \<Rightarrow> (millis \<times> IncomingMessage) list \<Rightarrow> World \<Rightarrow> World" where
  "deliveries fails ttl [] w = w"
| "deliveries fails ttl ((dt, m) # ds) w =
     deliveries fails ttl ds (snd (w_handle fails ttl m (w\<lparr>w_store := store_tick dt (w_store w)\<rparr>)))"

definition as_marks :: "int \<Rightarrow> (millis \<times> IncomingMessage) list \<Rightarrow> (millis \<times> string \<times> int) list" where
  "as_marks ttl ds = map (\<lambda>(dt, m). (dt, rm_body m, ttl)) ds"

lemma w_handle_eq:
  "snd (w_handle fails ttl m w) =
     (case tryMarkSeen (rm_body m) ttl (w_store w) of
        (True, s) \<Rightarrow> w\<lparr>w_store := s, w_acked := w_acked w @ [m]\<rparr>
      | (False, s) \<Rightarrow> w\<lparr>w_store := s, w_ran := w_ran w @ [m]\<rparr>)"
  by (simp add: w_handle_def idempotentHandler_def ask_store_def body_key_def w_mark_def w_inner_def
      w_ack_def split: prod.splits bool.splits)

text \<open>The inner handler runs exactly on the messages the store answered as fresh.\<close>

lemma deliveries_split:
  "w_ran (deliveries fails ttl ds w) = w_ran w @
     map snd (filter (\<lambda>(seen, m). \<not> seen) (zip (memory.answers (as_marks ttl ds) (w_store w)) (map snd ds))) \<and>
   w_acked (deliveries fails ttl ds w) = w_acked w @
     map snd (filter (\<lambda>(seen, m). seen) (zip (memory.answers (as_marks ttl ds) (w_store w)) (map snd ds)))"
proof (induction ds arbitrary: w)
  case Nil
  then show ?case by (simp add: as_marks_def)
next
  case (Cons d ds)
  obtain dt m where d: "d = (dt, m)" by (cases d)
  obtain b s where t: "tryMarkSeen (rm_body m) ttl (store_tick dt (w_store w)) = (b, s)"
    by (cases "tryMarkSeen (rm_body m) ttl (store_tick dt (w_store w))")
  show ?case by (cases b) (simp_all add: d t w_handle_eq as_marks_def Cons.IH)
qed

lemma answers_length [simp]: "length (memory.answers es s) = length es"
  by (induction es arbitrary: s) (auto split: prod.splits)

section \<open>The Redis store\<close>

text \<open>
  The client is created on first use and kept. \<open>SET key 1 EX ttl NX\<close> is the parameter \<open>redis_set\<close>, which
  answers the reply (\<open>null\<close> is \<open>None\<close>) and the state of the server.
\<close>

record 'c RedisStore =
  rs_client :: "'c option"
  rs_url :: string

definition ensureClient :: "(string \<Rightarrow> 'c) \<Rightarrow> 'c RedisStore \<Rightarrow> 'c \<times> 'c RedisStore" where
  "ensureClient newRedis st =
     (case rs_client st of
        Some c \<Rightarrow> (c, st)
      | None \<Rightarrow> let c = newRedis (rs_url st) in (c, st\<lparr>rs_client := Some c\<rparr>))"

definition redis_tryMarkSeen :: "(string \<Rightarrow> 'c) \<Rightarrow>
    ('c \<Rightarrow> string \<Rightarrow> string \<Rightarrow> int \<Rightarrow> 'r \<Rightarrow> (js_error + string option) \<times> 'r) \<Rightarrow>
    string \<Rightarrow> int \<Rightarrow> 'c RedisStore \<times> 'r \<Rightarrow> (js_error + bool) \<times> 'c RedisStore \<times> 'r" where
  "redis_tryMarkSeen newRedis redis_set key ttlSeconds st =
     (case ensureClient newRedis (fst st) of
        (c, rs) \<Rightarrow>
          (case redis_set c key ''1'' ttlSeconds (snd st) of
             (Inl e, r) \<Rightarrow> (Inl e, rs, r)
           | (Inr result, r) \<Rightarrow> (Inr (result = None), rs, r)))"

lemma ensureClient_same:
  "ensureClient newRedis st = (c, st') \<Longrightarrow> ensureClient newRedis st' = (c, st')"
  by (auto simp: ensureClient_def Let_def split: option.splits)

end
