(* ===== verification/Idempotency_Properties.thy ===== *)
theory Idempotency_Properties
  imports Idempotency
begin

text \<open>The properties of the idempotency wrapper and its stores.\<close>

section \<open>One run per window\<close>

text \<open>
  \<open>marked M t s\<close>: exactly the keys of \<open>M\<close> were marked, each for longer than \<open>t\<close> from now.
\<close>

definition marked :: "string set \<Rightarrow> millis \<Rightarrow> MemoryStore \<Rightarrow> bool" where
  "marked M t s \<longleftrightarrow> dom (ms_seen s) = M \<and> (\<forall>k \<in> M. \<exists>e. ms_seen s k = Some e \<and> ms_now s + t < e)"

lemma handle_marked:
  assumes "marked M (t + dt) s" "0 \<le> t" "0 \<le> dt" "t + dt < ttl * 1000"
  shows "tryMarkSeen k ttl (store_tick dt s) = (k \<in> M, snd (tryMarkSeen k ttl (store_tick dt s)))"
    and "marked (insert k M) t (snd (tryMarkSeen k ttl (store_tick dt s)))"
proof -
  let ?s = "store_tick dt s"
  have m: "marked M t ?s" using assms(1) by (fastforce simp: marked_def store_tick_def algebra_simps)
  have live: "\<exists>e. ms_seen ?s k = Some e \<and> ms_now ?s < e" if "k \<in> M"
    using m that assms(2) by (fastforce simp: marked_def)
  have none: "ms_seen ?s k = None" if "k \<notin> M" using m that by (auto simp: marked_def)
  show "tryMarkSeen k ttl ?s = (k \<in> M, snd (tryMarkSeen k ttl ?s))"
    using live none by (cases "k \<in> M") (auto simp: tryMarkSeen_def)
  show "marked (insert k M) t (snd (tryMarkSeen k ttl ?s))"
  proof (cases "k \<in> M")
    case True
    with live m show ?thesis by (auto simp: tryMarkSeen_def insert_absorb)
  next
    case False
    with none m assms(3,4) show ?thesis by (auto simp: tryMarkSeen_def marked_def)
  qed
qed

lemma deliveries_in_window:
  "marked M (sum_list (map fst ds)) (w_store w) \<Longrightarrow> \<forall>d \<in> set ds. 0 \<le> fst d \<Longrightarrow>
   sum_list (map fst ds) < ttl * 1000 \<Longrightarrow>
   \<exists>ran acked. w_ran (deliveries fails ttl ds w) = w_ran w @ ran \<and>
     w_acked (deliveries fails ttl ds w) = w_acked w @ acked \<and>
     distinct (map rm_body ran) \<and> set (map rm_body ran) = rm_body ` snd ` set ds - M \<and>
     mset ran + mset acked = mset (map snd ds)"
proof (induction ds arbitrary: M w)
  case Nil
  then show ?case by simp
next
  case (Cons d ds)
  obtain dt m where d: "d = (dt, m)" by (cases d)
  let ?t = "sum_list (map fst ds)" and ?k = "rm_body m"
  let ?s = "snd (tryMarkSeen ?k ttl (store_tick dt (w_store w)))"
  have t: "0 \<le> ?t" using Cons.prems(2) by (intro sum_list_nonneg) auto
  have dt: "0 \<le> dt" and sum: "?t + dt < ttl * 1000"
    using Cons.prems(2,3) d by (simp_all add: add.commute)
  have mk: "marked M (?t + dt) (w_store w)" using Cons.prems(1) d by (simp add: add.commute)
  note h = handle_marked [OF mk t dt sum, of ?k]
  have run: "deliveries fails ttl (d # ds) w = deliveries fails ttl ds
      (if ?k \<in> M then w\<lparr>w_store := ?s, w_acked := w_acked w @ [m]\<rparr>
       else w\<lparr>w_store := ?s, w_ran := w_ran w @ [m]\<rparr>)"
    using h(1) by (simp add: d w_handle_eq split: prod.splits bool.splits) (simp add: prod_eq_iff)
  have rest: "\<forall>d \<in> set ds. 0 \<le> fst d" "?t < ttl * 1000" using Cons.prems(2) dt sum by auto
  show ?case
  proof (cases "?k \<in> M")
    case True
    with h(2) have "marked M ?t ?s" by (simp add: insert_absorb)
    from Cons.IH [OF _ rest, of M "w\<lparr>w_store := ?s, w_acked := w_acked w @ [m]\<rparr>"] this
    obtain ran acked where "w_ran (deliveries fails ttl (d # ds) w) = w_ran w @ ran"
      "w_acked (deliveries fails ttl (d # ds) w) = w_acked w @ m # acked"
      "distinct (map rm_body ran)" "set (map rm_body ran) = rm_body ` snd ` set ds - M"
      "mset ran + mset acked = mset (map snd ds)"
      unfolding run if_P [OF True] by auto
    with True d show ?thesis by (intro exI [of _ ran] exI [of _ "m # acked"]) auto
  next
    case False
    from Cons.IH [OF _ rest, of "insert ?k M" "w\<lparr>w_store := ?s, w_ran := w_ran w @ [m]\<rparr>"] h(2)
    obtain ran acked where "w_ran (deliveries fails ttl (d # ds) w) = w_ran w @ m # ran"
      "w_acked (deliveries fails ttl (d # ds) w) = w_acked w @ acked"
      "distinct (map rm_body ran)" "set (map rm_body ran) = rm_body ` snd ` set ds - insert ?k M"
      "mset ran + mset acked = mset (map snd ds)"
      unfolding run if_not_P [OF False] by auto
    with False d show ?thesis by (intro exI [of _ "m # ran"] exI [of _ acked]) auto
  qed
qed

definition fresh_world :: World where
  "fresh_world = \<lparr>w_store = empty_store, w_ran = [], w_acked = []\<rparr>"

text \<open>C20. Within one window the wrapped handler is idempotent: however often messages are redelivered,
the inner handler runs exactly once per body, every other delivery is acknowledged without it, and no
delivery is neither.\<close>

theorem inner_once_per_window:
  assumes "\<forall>d \<in> set ds. 0 \<le> fst d" and "sum_list (map fst ds) < ttl * 1000"
  shows "distinct (map rm_body (w_ran (deliveries fails ttl ds fresh_world))) \<and>
    set (map rm_body (w_ran (deliveries fails ttl ds fresh_world))) = rm_body ` snd ` set ds \<and>
    mset (w_ran (deliveries fails ttl ds fresh_world)) + mset (w_acked (deliveries fails ttl ds fresh_world)) =
      mset (map snd ds)"
  using deliveries_in_window [of "{}" ds fresh_world ttl fails] assms
  by (auto simp: marked_def fresh_world_def empty_store_def)

definition sample_message :: "string \<Rightarrow> IncomingMessage" where
  "sample_message body = \<lparr>rm_id = ''m'', rm_destination = ''t'', rm_body = body, rm_headers = [],
     im_deliveryCount = Some 1, im_replyTo = None, im_correlationId = None, im_groupId = None,
     im_priority = None\<rparr>"

theorem inner_once_per_window_witness:
  "map rm_body (w_ran (deliveries (\<lambda>_. False) 300
      [(0, sample_message ''a''), (5, sample_message ''a''), (1, sample_message ''b'')] fresh_world)) = [''a'', ''b''] \<and>
   distinct (map rm_body (w_ran (deliveries (\<lambda>_. False) 300
      [(0, sample_message ''a''), (5, sample_message ''a''), (1, sample_message ''b'')] fresh_world)))"
proof -
  have "map rm_body (w_ran (deliveries (\<lambda>_. False) 300
      [(0, sample_message ''a''), (5, sample_message ''a''), (1, sample_message ''b'')] fresh_world)) = [''a'', ''b'']"
    by code_simp
  moreover have "\<forall>d \<in> set [(0, sample_message ''a''), (5, sample_message ''a''), (1::int, sample_message ''b'')]. 0 \<le> fst d"
    "sum_list (map fst [(0, sample_message ''a''), (5, sample_message ''a''), (1, sample_message ''b'')]) < (300::int) * 1000"
    by simp_all
  from inner_once_per_window [OF this] show ?thesis using calculation by blast
qed

text \<open>After the window the key is fresh again: a delivery at or after the expiry of its body's mark
runs the inner handler, and one before it does not.\<close>

theorem window_expires:
  assumes "ms_seen (w_store w) (rm_body m) = Some expiry"
  shows "w_ran (snd (w_handle fails ttl m w)) = (if ms_now (w_store w) < expiry then w_ran w else w_ran w @ [m]) \<and>
    w_acked (snd (w_handle fails ttl m w)) = (if ms_now (w_store w) < expiry then w_acked w @ [m] else w_acked w)"
  using assms by (simp add: w_handle_eq tryMarkSeen_def split: prod.splits)

definition marked_world :: World where
  "marked_world = fresh_world\<lparr>w_store := \<lparr>ms_seen = [''a'' \<mapsto> 1000], ms_now = 1000\<rparr>\<rparr>"

theorem window_expires_witness:
  "w_ran (snd (w_handle (\<lambda>_. False) 300 (sample_message ''a'') marked_world)) = [sample_message ''a'']"
proof -
  have "ms_seen (w_store marked_world) (rm_body (sample_message ''a'')) = Some 1000" by (simp add: marked_world_def sample_message_def)
  from window_expires [OF this] show ?thesis by (simp add: marked_world_def fresh_world_def)
qed


text \<open>A server that answers as documented, to apply the refinement to.\<close>

definition documented_set :: "unit \<Rightarrow> string \<Rightarrow> string \<Rightarrow> int \<Rightarrow> MemoryStore \<Rightarrow> (js_error + string option) \<times> MemoryStore" where
  "documented_set c k v ttl r =
     (if \<exists>e. ms_seen r k = Some e \<and> ms_now r < e then (Inr None, r)
      else (Inr (Some ''OK''), r\<lparr>ms_seen := (ms_seen r)(k \<mapsto> ms_now r + ttl * 1000)\<rparr>))"


section \<open>Where the wrapper does not protect\<close>

text \<open>The wrapper fails open: when the store throws, the inner handler runs on every message, seen or
not, and no error reaches the caller unless the inner handler throws.\<close>

theorem store_down_runs_inner:
  assumes "keyOf m = Inr key" and "store key ttl w = (Inl e, w')"
  shows "idempotentHandler store inner ackMsg keyOf ttl m w = inner m w'"
  using assms by (simp add: idempotentHandler_def ask_store_def)

theorem store_down_runs_inner_witness:
  "idempotentHandler (\<lambda>k ttl w. (Inl (Error ''ECONNREFUSED''), w)) (w_inner (\<lambda>_. False)) w_ack body_key 300
     (sample_message ''a'') marked_world =
   w_inner (\<lambda>_. False) (sample_message ''a'') marked_world"
  by (rule store_down_runs_inner [of body_key _ "''a''"]) (simp_all add: body_key_def sample_message_def)

text \<open>A message is marked before it is handled: if the inner handler throws on a fresh message, its
redelivery within the window is acknowledged without being handled, so its processing is lost.\<close>

theorem failed_handling_is_lost:
  assumes "fails m" and "ms_seen (w_store w) (rm_body m) = None" and "0 \<le> dt" and "dt < ttl * 1000"
  shows "fst (w_handle fails ttl m w) = Some (Error ''handler'') \<and>
    w_acked (deliveries fails ttl [(0, m), (dt, m)] w) = w_acked w @ [m] \<and>
    w_ran (deliveries fails ttl [(0, m), (dt, m)] w) = w_ran w @ [m]"
  using assms
  by (simp add: w_handle_eq tryMarkSeen_def store_tick_def)
    (simp add: w_handle_def idempotentHandler_def ask_store_def body_key_def w_mark_def tryMarkSeen_def w_inner_def)

theorem failed_handling_is_lost_witness:
  "w_acked (deliveries (\<lambda>_. True) 300 [(0, sample_message ''a''), (10, sample_message ''a'')] fresh_world) =
     [sample_message ''a'']"
  using failed_handling_is_lost [of "\<lambda>_. True" "sample_message ''a''" fresh_world 10 300]
  by (simp add: fresh_world_def empty_store_def)

end
