(* ===== verification/Decorators.thy ===== *)
theory Decorators
  imports In_Memory_Scheduler Scheduler_Port
begin

text \<open>
  The two ports as a record of operations (\<open>abstractions/message-scheduler.ts\<close>,
  \<open>abstractions/message-bus.ts\<close>), the in-process adapter as an instance, and the two decorators over
  any adapter: \<open>fault/fault-injecting-bus.ts\<close> and \<open>resilience/resilient-scheduler.ts\<close>. An operation is a
  state-passing function whose result is an error or a value; the retry and circuit-breaker pipeline
  of the cockatiel package is a parameter.
\<close>

section \<open>Ports\<close>

datatype 'sub port_result = RUnit | RHandle ScheduleHandle | RList "ScheduledInfo list" | RSub 'sub

type_synonym ('w, 'sub) operation = "'w \<Rightarrow> (js_error + 'sub port_result) \<times> 'w"

record ('w, 'sub) Adapter =
  ad_name :: string
  ad_capabilities :: Capabilities
  ad_busCapabilities :: BusCapabilities
  ad_connect :: "('w, 'sub) operation"
  ad_sendNow :: "destination \<Rightarrow> string \<Rightarrow> ('w, 'sub) operation"
  ad_schedule :: "destination \<Rightarrow> string \<Rightarrow> millis \<Rightarrow> ('w, 'sub) operation"
  ad_cancel :: "ScheduleHandle \<Rightarrow> ('w, 'sub) operation"
  ad_listScheduled :: "destination \<Rightarrow> ('w, 'sub) operation"
  ad_consume :: "destination \<Rightarrow> handler \<Rightarrow> ('w, 'sub) operation"
  ad_connectBus :: "('w, 'sub) operation"
  ad_publish :: "destination \<Rightarrow> string \<Rightarrow> string option \<Rightarrow> PublishOptions option \<Rightarrow> ('w, 'sub) operation"
  ad_subscribe :: "destination \<Rightarrow> handler \<Rightarrow> SubscribeOptions option \<Rightarrow> ('w, 'sub) operation"
  ad_dispose :: "('w, 'sub) operation"

definition returns :: "'sub port_result \<Rightarrow> 'w \<Rightarrow> (js_error + 'sub port_result) \<times> 'w" where
  "returns r w = (Inr r, w)"

definition memory_adapter :: "(InMemoryScheduler, nat \<times> handler) Adapter" where
  "memory_adapter = \<lparr>ad_name = ''In-Memory (reference)'', ad_capabilities = is_capabilities,
     ad_busCapabilities = is_busCapabilities,
     ad_connect = returns RUnit,
     ad_sendNow = (\<lambda>d p s. returns RUnit (sendNow d p s)),
     ad_schedule = (\<lambda>d p at s. case schedule d p at s of (s', h) \<Rightarrow> returns (RHandle h) s'),
     ad_cancel = (\<lambda>h s. returns RUnit (cancel h s)),
     ad_listScheduled = (\<lambda>d s. returns (RList (listScheduled d s)) s),
     ad_consume = (\<lambda>d h s. case consume d h s of (s', sub) \<Rightarrow> returns (RSub sub) s'),
     ad_connectBus = returns RUnit,
     ad_publish = (\<lambda>t p rk opts s. returns RUnit (is_publish t p rk opts s)),
     ad_subscribe = (\<lambda>t h opts s. case is_subscribe t h opts s of (s', sub) \<Rightarrow> returns (RSub sub) s'),
     ad_dispose = (\<lambda>s. returns RUnit (asyncDispose s))\<rparr>"

section \<open>Fault injection\<close>

text \<open>The decorator's state is \<open>failuresRemaining\<close> beside the inner adapter's state.\<close>

type_synonym 'w faulty = "int \<times> 'w"

definition transient :: js_error where
  "transient = TransientFault ''simulated broker disconnect''"

definition injectFailures :: "int \<Rightarrow> 'w faulty \<Rightarrow> 'w faulty" where
  "injectFailures n s = (n, snd s)"

definition inside :: "('w, 'sub) operation \<Rightarrow> ('w faulty, 'sub) operation" where
  "inside op s = (case op (snd s) of (r, w) \<Rightarrow> (r, fst s, w))"

definition maybeFail :: "('w faulty, 'sub) operation \<Rightarrow> ('w faulty, 'sub) operation" where
  "maybeFail op s = (if fst s > 0 then (Inl transient, fst s - 1, snd s) else op s)"

definition FaultInjectingBus :: "('w, 'sub) Adapter \<Rightarrow> ('w faulty, 'sub) Adapter" where
  "FaultInjectingBus inner = \<lparr>ad_name = ad_name inner @ '' (fault-injectable)'',
     ad_capabilities = ad_capabilities inner, ad_busCapabilities = ad_busCapabilities inner,
     ad_connect = inside (ad_connect inner),
     ad_sendNow = (\<lambda>d p. maybeFail (inside (ad_sendNow inner d p))),
     ad_schedule = (\<lambda>d p at. inside (ad_schedule inner d p at)),
     ad_cancel = (\<lambda>h. inside (ad_cancel inner h)),
     ad_listScheduled = (\<lambda>d. inside (ad_listScheduled inner d)),
     ad_consume = (\<lambda>d h. inside (ad_consume inner d h)),
     ad_connectBus = inside (ad_connectBus inner),
     ad_publish = (\<lambda>t p rk opts. maybeFail (inside (ad_publish inner t p rk None))),
     ad_subscribe = (\<lambda>t h opts. inside (ad_subscribe inner t h opts)),
     ad_dispose = inside (ad_dispose inner)\<rparr>"

section \<open>Resilience\<close>

record ResilienceOptions =
  maxRetryAttempts :: nat
  initialDelayMs :: millis
  maxDelayMs :: millis
  consecutiveFailures :: nat
  halfOpenAfterMs :: millis

definition DEFAULT_RESILIENCE :: ResilienceOptions where
  "DEFAULT_RESILIENCE = \<lparr>maxRetryAttempts = 3, initialDelayMs = 200, maxDelayMs = 3000,
     consecutiveFailures = 5, halfOpenAfterMs = 5000\<rparr>"

definition ALL_BUS_FALSE :: BusCapabilities where
  "ALL_BUS_FALSE = \<lparr>supportsTopic = False, supportsFanout = False, supportsManualAck = False,
     supportsDeadLetter = False, reportsDeliveryCount = False, supportsDedup = False,
     supportsStreamReplay = False, supportsMessageGroups = None\<rparr>"

datatype ResilienceEvent = RetryEvent nat string | BreakerOpen | BreakerHalfOpen | BreakerClose

text \<open>The policy given to \<open>handleWhen\<close>: what counts as a transient fault.\<close>

definition handled :: "js_error \<Rightarrow> bool" where
  "handled err \<longleftrightarrow> \<not> is_NotSupported err"

text \<open>
  The \<open>onRetry\<close> callback: the counter \<open>attempt\<close> belongs to the scheduler object, not to the call.
\<close>

definition on_retry :: "string option \<Rightarrow> nat \<times> ResilienceEvent list \<Rightarrow> nat \<times> ResilienceEvent list" where
  "on_retry reason s = (Suc (fst s), snd s @ [RetryEvent (Suc (fst s)) (coalesce reason ''transient'')])"

text \<open>
  \<open>pipeline.execute\<close> for the wrapped policies: given the policy, the options and an operation it maps the
  pipeline's own state and the adapter's state to a result and new states.
\<close>

type_synonym ('p, 'w, 'sub) pipeline =
  "(js_error \<Rightarrow> bool) \<Rightarrow> ResilienceOptions \<Rightarrow> ('w, 'sub) operation \<Rightarrow> ('p \<times> 'w, 'sub) operation"

definition ResilientScheduler :: "('p, 'w, 'sub) pipeline \<Rightarrow> ResilienceOptions \<Rightarrow> ('w, 'sub) Adapter \<Rightarrow>
    ('p \<times> 'w, 'sub) Adapter" where
  "ResilientScheduler execute options inner =
     (let run = execute handled options
      in \<lparr>ad_name = ad_name inner @ '' + Cockatiel'',
          ad_capabilities = ad_capabilities inner,
          ad_busCapabilities = coalesce (cap_bus (ad_capabilities inner)) ALL_BUS_FALSE,
          ad_connect = run (ad_connect inner),
          ad_sendNow = (\<lambda>d p. run (ad_sendNow inner d p)),
          ad_schedule = (\<lambda>d p at. run (ad_schedule inner d p at)),
          ad_cancel = (\<lambda>h. run (ad_cancel inner h)),
          ad_listScheduled = (\<lambda>d. run (ad_listScheduled inner d)),
          ad_consume = (\<lambda>d h. run (ad_consume inner d h)),
          ad_connectBus = run (ad_connectBus inner),
          ad_publish = (\<lambda>t p rk opts. run (ad_publish inner t p rk opts)),
          ad_subscribe = (\<lambda>t h opts. run (ad_subscribe inner t h opts)),
          ad_dispose = (\<lambda>s. case ad_dispose inner (snd s) of (r, w) \<Rightarrow> (r, fst s, w))\<rparr>)"

lemma ResilientScheduler_sel [simp]:
  "ad_publish (ResilientScheduler execute options inner) t p rk opts = execute handled options (ad_publish inner t p rk opts)"
  "ad_cancel (ResilientScheduler execute options inner) h = execute handled options (ad_cancel inner h)"
  by (simp_all add: ResilientScheduler_def Let_def)

lemma FaultInjectingBus_publish [simp]:
  "ad_publish (FaultInjectingBus inner) t p rk opts = maybeFail (inside (ad_publish inner t p rk None))"
  by (simp add: FaultInjectingBus_def)

text \<open>
  Retrying as the package documents it: an operation that fails with a handled error is run again, at
  most \<open>n\<close> more times; any other outcome is returned.
\<close>

fun retry_up_to :: "nat \<Rightarrow> (js_error \<Rightarrow> bool) \<Rightarrow> ('w, 'sub) operation \<Rightarrow> ('w, 'sub) operation" where
  "retry_up_to 0 policy op w = op w"
| "retry_up_to (Suc n) policy op w =
     (case op w of
        (Inl e, w') \<Rightarrow> if policy e then retry_up_to n policy op w' else (Inl e, w')
      | (Inr r, w') \<Rightarrow> (Inr r, w'))"

lemma retry_unhandled: "op w = (Inl e, w') \<Longrightarrow> \<not> policy e \<Longrightarrow> retry_up_to n policy op w = (Inl e, w')"
  by (cases n) simp_all

text \<open>Retrying over an operation that fails as often as faults were injected.\<close>

lemma retry_through_faults:
  "k \<le> n \<Longrightarrow> handled transient \<Longrightarrow> op w = (Inr r, w') \<Longrightarrow>
     retry_up_to n handled (maybeFail (inside op)) (int k, w) = (Inr r, 0, w')"
proof (induction n arbitrary: k)
  case 0
  then show ?case by (simp add: maybeFail_def inside_def)
next
  case (Suc n)
  show ?case
  proof (cases k)
    case 0
    with Suc.prems show ?thesis by (simp add: maybeFail_def inside_def)
  next
    case (Suc j)
    with Suc.prems Suc.IH [of j] show ?thesis by (simp add: maybeFail_def)
  qed
qed

lemma retry_exhausted:
  "n < k \<Longrightarrow> retry_up_to n handled (maybeFail (inside op)) (int k, w) = (Inl transient, int k - int n - 1, w)"
proof (induction n arbitrary: k)
  case 0
  then show ?case by (simp add: maybeFail_def)
next
  case (Suc n)
  then obtain j where j: "k = Suc j" "n < j" by (cases k) auto
  have "handled transient" by (simp add: handled_def transient_def)
  with j Suc.IH [OF j(2)] show ?case by (simp add: maybeFail_def)
qed

section \<open>Brokers\<close>

definition KNOWN_BROKERS :: "string list" where
  "KNOWN_BROKERS = [''artemis'', ''rabbitmq'', ''kafka'', ''in-memory'']"

fun join_strings :: "string \<Rightarrow> string list \<Rightarrow> string" where
  "join_strings sep [] = []"
| "join_strings sep [x] = x"
| "join_strings sep (x # xs) = x @ sep @ join_strings sep xs"

end
