(* ===== verification/Decorator_Properties.thy ===== *)
theory Decorator_Properties
  imports Decorators
begin

text \<open>The properties of the fault-injecting and the resilient decorator.\<close>

section \<open>Fault injection\<close>

text \<open>A sequence of publishes of one message: the outcomes and the final state.\<close>

fun publishes :: "('w, 'sub) Adapter \<Rightarrow> nat \<Rightarrow> destination \<Rightarrow> string \<Rightarrow> 'w \<Rightarrow>
    (js_error + 'sub port_result) list \<times> 'w" where
  "publishes a 0 t p w = ([], w)"
| "publishes a (Suc n) t p w =
     (case ad_publish a t p None None w of
        (r, w1) \<Rightarrow> case publishes a n t p w1 of (rs, w2) \<Rightarrow> (r # rs, w2))"

lemma publishes_exhausted:
  "k \<le> 0 \<Longrightarrow> publishes (FaultInjectingBus inner) n t p (k, w) =
     (fst (publishes inner n t p w), k, snd (publishes inner n t p w))"
  by (induction n arbitrary: w) (simp_all add: maybeFail_def inside_def split: prod.splits)

text \<open>Injecting \<open>k\<close> failures makes exactly the next \<open>k\<close> publishes fail with a transient fault and
without reaching the inner adapter; the ones after them behave as the inner adapter's.\<close>

theorem injected_failures_exact:
  "publishes (FaultInjectingBus inner) (k + n) t p (injectFailures (int k) (f, w)) =
     (replicate k (Inl transient) @ fst (publishes inner n t p w), 0, snd (publishes inner n t p w))"
proof (induction k)
  case 0
  then show ?case by (simp add: injectFailures_def publishes_exhausted)
next
  case (Suc k)
  then show ?case by (simp add: injectFailures_def maybeFail_def)
qed

text \<open>Publishing one message twice, and the length of the in-process log of its topic.\<close>

definition publish_twice :: "PublishOptions option \<Rightarrow> ('w, 'sub) Adapter \<Rightarrow> 'w \<Rightarrow> 'w" where
  "publish_twice opts a w =
     snd (ad_publish a ''t'' ''x'' None opts (snd (ad_publish a ''t'' ''x'' None opts w)))"

definition logged :: "InMemoryScheduler \<Rightarrow> nat" where
  "logged s = length (coalesce (b_streamLog (is_bus s) ''t'') [])"

definition dedup_options :: "PublishOptions option" where
  "dedup_options = Some (no_publish_options\<lparr>po_dedupId := Some ''d''\<rparr>)"

text \<open>The fault-injecting bus drops the publish options: what it does with any options it does
without them. On the in-process adapter a repeated dedup id is therefore published twice, where the
adapter itself drops the repeat.\<close>

theorem fault_bus_drops_options:
  "ad_publish (FaultInjectingBus inner) t p rk opts = ad_publish (FaultInjectingBus inner) t p rk None \<and>
   logged (publish_twice dedup_options memory_adapter is_init) = 1 \<and>
   logged (snd (publish_twice dedup_options (FaultInjectingBus memory_adapter) (0, is_init))) = 2"
proof (intro conjI)
  show "ad_publish (FaultInjectingBus inner) t p rk opts = ad_publish (FaultInjectingBus inner) t p rk None"
    by (simp add: FaultInjectingBus_def)
  show "logged (publish_twice dedup_options memory_adapter is_init) = 1" by code_simp
  show "logged (snd (publish_twice dedup_options (FaultInjectingBus memory_adapter) (0, is_init))) = 2"
    by code_simp
qed

section \<open>Resilience\<close>

text \<open>C22. A publish survives a brief disconnect: if the pipeline retries as documented while its circuit is
closed, then with no more injected faults than retries the publish through the resilient decorator
returns what the inner adapter returns and reaches the inner adapter exactly once.\<close>

theorem resilient_publish_recovers:
  assumes "\<And>op p w. closed p \<Longrightarrow> maxRetryAttempts options < consecutiveFailures options \<Longrightarrow>
      fst (execute handled options op (p, w)) = fst (retry_up_to (maxRetryAttempts options) handled op w) \<and>
      snd (snd (execute handled options op (p, w))) = snd (retry_up_to (maxRetryAttempts options) handled op w)"
    and "closed p0" and "maxRetryAttempts options < consecutiveFailures options"
    and "k \<le> maxRetryAttempts options"
    and "ad_publish inner t payload rk None w = (Inr r, w')"
  shows "fst (ad_publish (ResilientScheduler execute options (FaultInjectingBus inner)) t payload rk opts
      (p0, int k, w)) = Inr r \<and>
    snd (snd (ad_publish (ResilientScheduler execute options (FaultInjectingBus inner)) t payload rk opts
      (p0, int k, w))) = (0, w')"
proof -
  have "handled transient" by (simp add: handled_def transient_def)
  from retry_through_faults [OF assms(4) this, where op = "ad_publish inner t payload rk None", OF assms(5)]
    assms(1) [OF assms(2,3)]
  show ?thesis by simp
qed

text \<open>A pipeline that behaves as documented while closed; its state is whether the circuit is closed.\<close>

definition documented_execute :: "(bool, 'w, 'sub) pipeline" where
  "documented_execute policy options op s =
     (case retry_up_to (maxRetryAttempts options) policy op (snd s) of (r, w) \<Rightarrow> (r, fst s, w))"

theorem resilient_publish_recovers_witness:
  "fst (ad_publish (ResilientScheduler documented_execute DEFAULT_RESILIENCE (FaultInjectingBus memory_adapter))
      ''t'' ''x'' None None (True, 3, is_init)) = Inr RUnit"
proof -
  have "ad_publish memory_adapter ''t'' ''x'' None None is_init = (Inr RUnit, is_publish ''t'' ''x'' None None is_init)"
    by (simp add: memory_adapter_def returns_def)
  note res = resilient_publish_recovers [of id DEFAULT_RESILIENCE documented_execute True 3, OF _ _ _ _ this]
  have "fst (ad_publish (ResilientScheduler documented_execute DEFAULT_RESILIENCE (FaultInjectingBus memory_adapter))
      ''t'' ''x'' None None (True, int 3, is_init)) = Inr RUnit"
    by (rule res [THEN conjunct1])
      (simp_all add: documented_execute_def DEFAULT_RESILIENCE_def case_prod_unfold)
  then show ?thesis by simp
qed

text \<open>An unsupported operation stays unsupported behind the decorator and is attempted once: under the
same assumption, a cancel the inner adapter refuses with \<open>NotSupportedError\<close> returns that very error and
the inner state after a single attempt, so a scenario's verdict is the same with and without it.\<close>

theorem resilient_keeps_unsupported:
  assumes "\<And>op p w. closed p \<Longrightarrow> maxRetryAttempts options < consecutiveFailures options \<Longrightarrow>
      fst (execute handled options op (p, w)) = fst (retry_up_to (maxRetryAttempts options) handled op w) \<and>
      snd (snd (execute handled options op (p, w))) = snd (retry_up_to (maxRetryAttempts options) handled op w)"
    and "closed p0" and "maxRetryAttempts options < consecutiveFailures options"
    and "ad_cancel inner h w = (Inl (NotSupportedError op brk reason), w')"
  shows "fst (ad_cancel (ResilientScheduler execute options inner) h (p0, w)) = fst (ad_cancel inner h w) \<and>
    snd (snd (ad_cancel (ResilientScheduler execute options inner) h (p0, w))) = w' \<and>
    attempt_of (fst (ad_cancel (ResilientScheduler execute options inner) h (p0, w))) = Unsupported"
proof -
  have "retry_up_to (maxRetryAttempts options) handled (ad_cancel inner h) w =
      (Inl (NotSupportedError op brk reason), w')"
    by (rule retry_unhandled [where op = "ad_cancel inner h", OF assms(4)]) (simp add: handled_def)
  with assms(1) [OF assms(2,3), of "ad_cancel inner h" w] assms(4) show ?thesis
    by (simp add: attempt_of_def)
qed

definition refusing_adapter :: "(InMemoryScheduler, nat \<times> handler) Adapter" where
  "refusing_adapter = memory_adapter\<lparr>ad_cancel := \<lambda>h s. (Inl (NotSupportedError ''cancel'' ''b'' None), s)\<rparr>"

theorem resilient_keeps_unsupported_witness:
  "attempt_of (fst (ad_cancel (ResilientScheduler documented_execute DEFAULT_RESILIENCE refusing_adapter)
      \<lparr>sh_id = ''x'', sh_destination = ''t'', sh_deliverAt = 0\<rparr> (True, is_init))) = Unsupported"
proof -
  have "ad_cancel refusing_adapter \<lparr>sh_id = ''x'', sh_destination = ''t'', sh_deliverAt = 0\<rparr> is_init =
      (Inl (NotSupportedError ''cancel'' ''b'' None), is_init)"
    by (simp add: refusing_adapter_def)
  note res = resilient_keeps_unsupported [of id DEFAULT_RESILIENCE documented_execute True, OF _ _ _ this]
  show ?thesis
    by (rule res [THEN conjunct2, THEN conjunct2])
      (simp_all add: documented_execute_def DEFAULT_RESILIENCE_def case_prod_unfold)
qed

end
