(* ===== verification/Js_Value.thy ===== *)
theory Js_Value
  imports Prelude
begin

text \<open>
  The JavaScript values that cross the program's untyped borders: message headers and queue arguments
  of the broker clients, decoded JSON. A number is an integer (\<open>JNum\<close>) or, where decoded JSON has one with a
  fraction, its decimal rendering (\<open>JReal\<close>); an object is its properties in insertion order.
\<close>

datatype js_value =
    Undef
  | Null
  | JBool bool
  | JNum int
  | JReal string
  | JStr string
  | JArr "js_value list"
  | JObj "(string \<times> js_value) list"

text \<open>Property access with \<open>?.\<close>: \<open>undefined\<close> on anything that is not an object or has no such property.\<close>

fun js_prop :: "string \<Rightarrow> js_value \<Rightarrow> js_value" where
  "js_prop k (JObj ps) = (case js_map_get ps k of None \<Rightarrow> Undef | Some v \<Rightarrow> v)"
| "js_prop k _ = Undef"

fun truthy :: "js_value \<Rightarrow> bool" where
  "truthy Undef = False"
| "truthy Null = False"
| "truthy (JBool b) = b"
| "truthy (JNum n) = (n \<noteq> 0)"
| "truthy (JReal _) = True"
| "truthy (JStr s) = (s \<noteq> [])"
| "truthy (JArr _) = True"
| "truthy (JObj _) = True"

text \<open>A string option that is neither absent nor empty.\<close>

definition truthy_string :: "string option \<Rightarrow> bool" where
  "truthy_string s = (case s of None \<Rightarrow> False | Some x \<Rightarrow> x \<noteq> [])"

lemma truthy_string_simps [simp]:
  "\<not> truthy_string None" "truthy_string (Some x) \<longleftrightarrow> x \<noteq> []"
  by (simp_all add: truthy_string_def)

definition show_int :: "int \<Rightarrow> string" where
  "show_int n = (if n < 0 then ''-'' @ show_nat (nat (- n)) else show_nat (nat n))"

fun comma_join :: "string list \<Rightarrow> string" where
  "comma_join [] = []"
| "comma_join [x] = x"
| "comma_join (x # xs) = x @ '','' @ comma_join xs"

text \<open>\<open>String(v)\<close>; inside an array \<open>null\<close> and \<open>undefined\<close> render as nothing.\<close>

fun js_String :: "js_value \<Rightarrow> string" where
  "js_String Undef = ''undefined''"
| "js_String Null = ''null''"
| "js_String (JBool b) = (if b then ''true'' else ''false'')"
| "js_String (JNum n) = show_int n"
| "js_String (JReal s) = s"
| "js_String (JStr s) = s"
| "js_String (JArr vs) =
     comma_join (map (\<lambda>v. if v = Undef \<or> v = Null then [] else js_String v) vs)"
| "js_String (JObj ps) = ''[object Object]''"

definition dquote :: string where "dquote = [CHR 0x22]"

text \<open>Typed views of a value.\<close>

fun as_number :: "js_value \<Rightarrow> int option" where
  "as_number (JNum n) = Some n"
| "as_number _ = None"

fun as_string :: "js_value \<Rightarrow> string option" where
  "as_string (JStr s) = Some s"
| "as_string _ = None"

end
