(* ===== verification/Settlement_Port.thy ===== *)
theory Settlement_Port
  imports Abstractions
begin

text \<open>
  The contract of \<open>ack\<close> and \<open>nack\<close> on a delivered message (\<open>IncomingMessage\<close>), shared by the broker
  adapters: the first call settles the message and decides which broker commands are sent; every later
  call does nothing. \<open>deliver\<close> runs a handler in isolation: a handler that throws is a failed delivery
  and the message is nacked for redelivery unless the handler settled it before.
\<close>

datatype settle_call = CallAck | CallNack bool

locale settlement =
  fixes ack_op :: "'i \<Rightarrow> 'i \<times> 'c list"
    and nack_op :: "bool \<Rightarrow> 'i \<Rightarrow> 'i \<times> 'c list"
    and settled :: "'i \<Rightarrow> bool"
  assumes ack_settles: "settled (fst (ack_op i))"
    and nack_settles: "settled (fst (nack_op r i))"
    and ack_inert: "settled i \<Longrightarrow> ack_op i = (i, [])"
    and nack_inert: "settled i \<Longrightarrow> nack_op r i = (i, [])"
begin

fun call :: "settle_call \<Rightarrow> 'i \<Rightarrow> 'i \<times> 'c list" where
  "call CallAck i = ack_op i"
| "call (CallNack r) i = nack_op r i"

fun calls :: "settle_call list \<Rightarrow> 'i \<Rightarrow> 'i \<times> 'c list" where
  "calls [] i = (i, [])"
| "calls (x # xs) i = (case call x i of (i1, cs1) \<Rightarrow> case calls xs i1 of (i2, cs2) \<Rightarrow> (i2, cs1 @ cs2))"

text \<open>A handler is the calls it makes before it returns or throws.\<close>

definition deliver :: "settle_call list \<Rightarrow> bool \<Rightarrow> 'i \<Rightarrow> 'i \<times> 'c list" where
  "deliver made throws i = calls (if throws then made @ [CallNack True] else made) i"

lemma call_inert: "settled i \<Longrightarrow> call x i = (i, [])"
  by (cases x) (simp_all add: ack_inert nack_inert)

lemma call_settles: "settled (fst (call x i))"
  by (cases x) (simp_all add: ack_settles nack_settles)

lemma calls_inert: "settled i \<Longrightarrow> calls xs i = (i, [])"
  by (induction xs) (simp_all add: call_inert)

lemma first_call_decides: "calls (x # xs) i = call x i"
  using call_settles [of x i] by (simp add: calls_inert case_prod_unfold)

lemma deliver_settled: "made \<noteq> [] \<Longrightarrow> deliver made throws i = call (hd made) i"
  by (cases made) (simp_all add: deliver_def first_call_decides del: calls.simps)

lemma deliver_unsettled:
  "deliver [] True i = nack_op True i" "deliver [] False i = (i, [])"
  by (simp_all add: deliver_def case_prod_unfold)

end

end
