(* ===== verification/Rabbit_Mq.thy ===== *)
theory Rabbit_Mq
  imports Decorators Js_Value Settlement_Port
begin

text \<open>
  The RabbitMQ adapter: class \<open>RabbitMqScheduler\<close> of \<open>adapters/rabbitmq.ts\<close>.

  The adapter is a client: what it does is the sequence of calls it makes on amqplib channels, which
  \<open>rb_log\<close> records in order. Channel 0, 1, ... are the channels in order of creation. The broker's own
  behaviour is not modelled; where a property needs it, it is a named hypothesis. Random suffixes and
  consumer tags are parameters (\<open>rand\<close>, \<open>tag\<close>). Every call may be refused, by a rejected promise or by
  an exception (a closed channel throws): \<open>rb_refuses n\<close> is the error the \<open>n\<close>-th call of the log fails
  with, \<open>None\<close> when the broker accepts it.
\<close>

section \<open>Configuration and state\<close>

record RabbitConfig =
  rc_url :: string
  rc_exchange :: string

definition rabbitConfigFromEnv :: "(string \<rightharpoonup> string) \<Rightarrow> RabbitConfig" where
  "rabbitConfigFromEnv env =
     (let host = coalesce (env ''RABBITMQ_HOST'') ''localhost'';
          port = coalesce (env ''RABBITMQ_PORT'') ''5673'';
          user = coalesce (env ''RABBITMQ_USER'') ''guest'';
          pass = coalesce (env ''RABBITMQ_PASSWORD'') ''guest''
      in \<lparr>rc_url = coalesce (env ''RABBITMQ_URL'')
            (''amqp://'' @ user @ '':'' @ pass @ ''@'' @ host @ '':'' @ port),
          rc_exchange = coalesce (env ''RABBITMQ_EXCHANGE'') ''mbc.delayed''\<rparr>)"

datatype rb_call =
    RConnect string
  | RCreateChannel nat
  | RPrefetch nat nat
  | RAssertExchange nat string string js_value
  | RAssertQueue nat string js_value
  | RBindQueue nat string string string
  | RPublish nat string string string js_value
  | RConsume nat string js_value
  | RAck nat nat
  | RNack nat nat bool bool
  | RCancel nat string
  | RClose nat
  | RCloseModel

record RbRetry =
  rr_mainQueue :: string
  rr_maxDeliveries :: nat
  rr_dlaExchange :: string

datatype consumer_mode =
    SchedulerConsumer destination
  | BusConsumer destination "RbRetry option"
  | StreamConsumer destination

record RbConsumer =
  rk_channel :: nat
  rk_queue :: string
  rk_mode :: consumer_mode
  rk_handler :: handler

record RabbitMq =
  rb_cfg :: RabbitConfig
  rb_model :: bool
  rb_channel :: "nat option"
  rb_topology :: "destination set"
  rb_busTopology :: "destination set"
  rb_hashTopology :: "destination set"
  rb_nextChannel :: nat
  rb_now :: millis
  rb_draws :: nat
  rb_consumers :: "RbConsumer list"
  rb_log :: "rb_call list"
  rb_refuses :: "nat \<Rightarrow> js_error option"

definition rabbit_init :: "RabbitConfig \<Rightarrow> RabbitMq" where
  "rabbit_init cfg = \<lparr>rb_cfg = cfg, rb_model = False, rb_channel = None, rb_topology = {},
     rb_busTopology = {}, rb_hashTopology = {}, rb_nextChannel = 0, rb_now = 0, rb_draws = 0,
     rb_consumers = [], rb_log = [], rb_refuses = (\<lambda>_. None)\<rparr>"

definition rabbit_name :: string where
  "rabbit_name = ''RabbitMQ (delayed-message plugin)''"

definition rabbit_busCapabilities :: BusCapabilities where
  "rabbit_busCapabilities = \<lparr>supportsTopic = True, supportsFanout = True, supportsManualAck = True,
     supportsDeadLetter = True, reportsDeliveryCount = False, supportsDedup = False,
     supportsStreamReplay = True, supportsMessageGroups = Some True\<rparr>"

definition rabbit_capabilities :: Capabilities where
  "rabbit_capabilities = \<lparr>cap_protocol = ''AMQP 0.9.1'', cap_nativeScheduling = False,
     cap_supportsCancel = False, cap_supportsList = False, cap_bus = Some rabbit_busCapabilities\<rparr>"

type_synonym 'r rabbit_op = "RabbitMq \<Rightarrow> (js_error + 'r) \<times> RabbitMq"

definition emit :: "rb_call list \<Rightarrow> RabbitMq \<Rightarrow> RabbitMq" where
  "emit cs s = s\<lparr>rb_log := rb_log s @ cs\<rparr>"

lemma emit_sel [simp]:
  "rb_log (emit cs s) = rb_log s @ cs" "rb_channel (emit cs s) = rb_channel s" "rb_model (emit cs s) = rb_model s"
  "rb_busTopology (emit cs s) = rb_busTopology s" "rb_hashTopology (emit cs s) = rb_hashTopology s"
  "rb_topology (emit cs s) = rb_topology s" "rb_consumers (emit cs s) = rb_consumers s"
  "rb_cfg (emit cs s) = rb_cfg s" "rb_refuses (emit cs s) = rb_refuses s"
  by (simp_all add: emit_def)

text \<open>One call, awaited: it is made, and fails when the broker refuses it.\<close>

definition rb_send :: "rb_call \<Rightarrow> unit rabbit_op" where
  "rb_send c s =
     (case rb_refuses s (length (rb_log s)) of
        None \<Rightarrow> (Inr (), emit [c] s)
      | Some e \<Rightarrow> (Inl e, emit [c] s))"

text \<open>Calls one after the other; the first that fails is the last that is made.\<close>

primrec does :: "rb_call list \<Rightarrow> unit rabbit_op" where
  "does [] = (\<lambda>s. (Inr (), s))"
| "does (c # cs) = and_then (rb_send c) (\<lambda>_. does cs)"

declare does.simps [simp del]

section \<open>Connection\<close>

definition ensureModel :: "unit rabbit_op" where
  "ensureModel s =
     (if rb_model s then (Inr (), s)
      else and_then (rb_send (RConnect (rc_url (rb_cfg s)))) (\<lambda>_ s. (Inr (), s\<lparr>rb_model := True\<rparr>)) s)"

definition createChannel :: "nat rabbit_op" where
  "createChannel s =
     (let ch = rb_nextChannel s
      in and_then (rb_send (RCreateChannel ch)) (\<lambda>_ s. (Inr ch, s\<lparr>rb_nextChannel := Suc ch\<rparr>)) s)"

text \<open>The channel is assigned before its prefetch is awaited.\<close>

definition assignChannel :: "nat rabbit_op" where
  "assignChannel = and_then createChannel (\<lambda>ch s. (Inr ch, s\<lparr>rb_channel := Some ch\<rparr>))"

definition ensureChannel :: "nat rabbit_op" where
  "ensureChannel = and_then ensureModel (\<lambda>_ s.
     case rb_channel s of
       Some ch \<Rightarrow> (Inr ch, s)
     | None \<Rightarrow> and_then assignChannel (\<lambda>ch. and_then (does [RPrefetch ch 1]) (\<lambda>_ s. (Inr ch, s))) s)"

text \<open>\<open>this.channel!\<close> and \<open>this.model!\<close>: using either before it exists is a \<open>TypeError\<close>.\<close>

definition theChannel :: "nat rabbit_op" where
  "theChannel s =
     (case rb_channel s of
        None \<Rightarrow> (Inl (Error ''Cannot read properties of undefined''), s)
      | Some ch \<Rightarrow> (Inr ch, s))"

definition durable :: js_value where
  "durable = JObj [(''durable'', JBool True)]"

definition rb_connect :: "unit rabbit_op" where
  "rb_connect = and_then ensureChannel (\<lambda>ch s.
     does [RAssertExchange ch (rc_exchange (rb_cfg s)) ''x-delayed-message''
       (JObj [(''durable'', JBool True), (''arguments'', JObj [(''x-delayed-type'', JStr ''direct'')])])] s)"

definition rb_connectBus :: "unit rabbit_op" where
  "rb_connectBus = and_then ensureChannel (\<lambda>ch s. (Inr (), s))"

definition rb_dispose :: "unit rabbit_op" where
  "rb_dispose s = does ((case rb_channel s of None \<Rightarrow> [] | Some ch \<Rightarrow> [RClose ch]) @
     (if rb_model s then [RCloseModel] else [])) s"

section \<open>Scheduler port\<close>

definition queueName :: "destination \<Rightarrow> string" where
  "queueName destination = ''q.'' @ destination"

definition ensureTopology :: "destination \<Rightarrow> string rabbit_op" where
  "ensureTopology destination s =
     (let queue = queueName destination
      in if destination \<in> rb_topology s then (Inr queue, s)
         else and_then theChannel (\<lambda>ch s.
           and_then (does [RAssertQueue ch queue durable,
              RBindQueue ch queue (rc_exchange (rb_cfg s)) destination]) (\<lambda>_ s.
           (Inr queue, s\<lparr>rb_topology := insert destination (rb_topology s)\<rparr>)) s) s)"

definition rb_sendNow :: "destination \<Rightarrow> string \<Rightarrow> unit rabbit_op" where
  "rb_sendNow destination payload =
     and_then (ensureTopology destination) (\<lambda>_. and_then theChannel (\<lambda>ch s.
       does [RPublish ch (rc_exchange (rb_cfg s)) destination payload
         (JObj [(''persistent'', JBool True)])] s))"

definition rb_schedule :: "(nat \<Rightarrow> string) \<Rightarrow> destination \<Rightarrow> string \<Rightarrow> millis \<Rightarrow> ScheduleHandle rabbit_op" where
  "rb_schedule rand destination payload deliverAt =
     and_then (ensureTopology destination) (\<lambda>_. and_then theChannel (\<lambda>ch s.
       let delay = max 0 (deliverAt - rb_now s);
           sid = ''rmq-'' @ show_int (rb_now s) @ ''-'' @ rand (rb_draws s);
           props = JObj [(''persistent'', JBool True),
             (''headers'', JObj [(''x-delay'', JNum delay), (''scheduleId'', JStr sid)])]
       in and_then (does [RPublish ch (rc_exchange (rb_cfg s)) destination payload props]) (\<lambda>_ s.
            (Inr \<lparr>sh_id = sid, sh_destination = destination, sh_deliverAt = deliverAt\<rparr>, s))
            (s\<lparr>rb_draws := Suc (rb_draws s)\<rparr>)))"

definition rb_cancel :: "ScheduleHandle \<Rightarrow> unit rabbit_op" where
  "rb_cancel handle s = (Inl (NotSupportedError ''cancel'' rabbit_name
     (Some ''the delayed-message plugin has no API to remove a pending message'')), s)"

definition rb_listScheduled :: "destination \<Rightarrow> ScheduledInfo list rabbit_op" where
  "rb_listScheduled destination s = (Inl (NotSupportedError ''listScheduled'' rabbit_name
     (Some ''pending delayed messages live in a node-local Mnesia table, not a queue'')), s)"

definition add_rb_consumer :: "nat \<Rightarrow> string \<Rightarrow> consumer_mode \<Rightarrow> handler \<Rightarrow> js_value \<Rightarrow> nat rabbit_op" where
  "add_rb_consumer ch queue mode h opts =
     and_then (does [RConsume ch queue opts]) (\<lambda>_ s.
       (Inr (length (rb_consumers s)), s\<lparr>rb_consumers := rb_consumers s @
          [\<lparr>rk_channel = ch, rk_queue = queue, rk_mode = mode, rk_handler = h\<rparr>]\<rparr>))"

definition noAck_false :: js_value where
  "noAck_false = JObj [(''noAck'', JBool False)]"

definition rb_consume :: "destination \<Rightarrow> handler \<Rightarrow> nat rabbit_op" where
  "rb_consume destination h =
     and_then (ensureTopology destination) (\<lambda>queue. and_then theChannel (\<lambda>ch.
       add_rb_consumer ch queue (SchedulerConsumer destination) h noAck_false))"

text \<open>
  \<open>unsubscribe\<close> of the \<open>i\<close>-th consumer: a scheduler consumer is cancelled by its tag, a bus or stream
  consumer closes its own channel and ignores the failure of that.
\<close>

definition rb_unsubscribe :: "(nat \<Rightarrow> string) \<Rightarrow> nat \<Rightarrow> unit rabbit_op" where
  "rb_unsubscribe tag i s =
     (let k = rb_consumers s ! i
      in case rk_mode k of
           SchedulerConsumer _ \<Rightarrow> and_then theChannel (\<lambda>ch. does [RCancel ch (tag i)]) s
         | _ \<Rightarrow> swallow (does [RClose (rk_channel k)]) s)"

section \<open>Publishing\<close>

definition topicExchange :: "destination \<Rightarrow> string" where
  "topicExchange topic = ''x.t.'' @ topic"

definition fanoutExchange :: "destination \<Rightarrow> string" where
  "fanoutExchange topic = ''x.f.'' @ topic"

definition hashExchange :: "destination \<Rightarrow> string" where
  "hashExchange topic = ''x.h.'' @ topic"

definition ensureBusExchanges :: "destination \<Rightarrow> unit rabbit_op" where
  "ensureBusExchanges topic s =
     (if topic \<in> rb_busTopology s then (Inr (), s)
      else and_then theChannel (\<lambda>ch s.
        and_then (does [RAssertExchange ch (topicExchange topic) ''topic'' durable,
           RAssertExchange ch (fanoutExchange topic) ''fanout'' durable]) (\<lambda>_ s.
        (Inr (), s\<lparr>rb_busTopology := insert topic (rb_busTopology s)\<rparr>)) s) s)"

definition ensureHashExchange :: "destination \<Rightarrow> unit rabbit_op" where
  "ensureHashExchange topic s =
     (if topic \<in> rb_hashTopology s then (Inr (), s)
      else and_then theChannel (\<lambda>ch s.
        and_then (does [RAssertExchange ch (hashExchange topic) ''x-consistent-hash'' durable]) (\<lambda>_ s.
        (Inr (), s\<lparr>rb_hashTopology := insert topic (rb_hashTopology s)\<rparr>)) s) s)"

text \<open>\<open>obj[key] = value\<close> when a condition holds.\<close>

definition set_when :: "bool \<Rightarrow> string \<Rightarrow> js_value \<Rightarrow> (string \<times> js_value) list \<Rightarrow> (string \<times> js_value) list" where
  "set_when c k v obj = (if c then js_map_set obj k v else obj)"

definition publishProps :: "PublishOptions option \<Rightarrow> js_value" where
  "publishProps options =
     (let g = opt_field po_groupId options;
          d = opt_field po_dedupId options;
          r = opt_field po_replyTo options;
          c = opt_field po_correlationId options;
          headers0 = map (\<lambda>(k, v). (k, JStr v)) (coalesce (opt_field po_headers options) []);
          headers1 = set_when (truthy_string g) ''x-group-id'' (JStr (coalesce g [])) headers0;
          headers2 = set_when (truthy_string d) ''x-dedup-id'' (JStr (coalesce d [])) headers1;
          props0 = [(''persistent'', JBool True), (''headers'', JObj headers2)];
          props1 = (case opt_field po_priority options of
                      None \<Rightarrow> props0 | Some p \<Rightarrow> js_map_set props0 ''priority'' (JNum p));
          props2 = set_when (truthy_string r) ''replyTo'' (JStr (coalesce r [])) props1;
          props3 = set_when (truthy_string c) ''correlationId'' (JStr (coalesce c [])) props2
      in JObj (case opt_field po_ttlMs options of
                 None \<Rightarrow> props3
               | Some ttl \<Rightarrow> js_map_set props3 ''expiration'' (JStr (show_int ttl))))"

definition rb_publish :: "destination \<Rightarrow> string \<Rightarrow> string option \<Rightarrow> PublishOptions option \<Rightarrow> unit rabbit_op" where
  "rb_publish topic payload routingKey options =
     and_then (ensureBusExchanges topic) (\<lambda>_. and_then theChannel (\<lambda>ch.
       and_then (does [RPublish ch (topicExchange topic) (coalesce routingKey topic) payload (publishProps options),
                       RPublish ch (fanoutExchange topic) [] payload (publishProps options)]) (\<lambda>_ s.
         if truthy_string (opt_field po_groupId options) then
           and_then (ensureHashExchange topic) (\<lambda>_. does [RPublish ch (hashExchange topic)
             (coalesce (opt_field po_groupId options) []) payload (publishProps options)]) s
         else (Inr (), s))))"

section \<open>Subscribing\<close>

definition openChannel :: "nat \<Rightarrow> nat rabbit_op" where
  "openChannel qos s =
     (if \<not> rb_model s then (Inl (Error ''Cannot read properties of undefined''), s)
      else and_then createChannel (\<lambda>ch. and_then (does [RPrefetch ch qos]) (\<lambda>_ s. (Inr ch, s))) s)"

definition streamQueueName :: "destination \<Rightarrow> string" where
  "streamQueueName topic = ''stream.'' @ topic"

definition subscribeStreamReplay :: "destination \<Rightarrow> handler \<Rightarrow> nat rabbit_op" where
  "subscribeStreamReplay topic h =
     (let queue = streamQueueName topic
      in and_then (openChannel 10) (\<lambda>ch.
         and_then (does [RAssertQueue ch queue (JObj [(''durable'', JBool True),
                           (''arguments'', JObj [(''x-queue-type'', JStr ''stream'')])]),
                         RBindQueue ch queue (topicExchange topic) ''#'']) (\<lambda>_.
           add_rb_consumer ch queue (StreamConsumer topic) h
             (JObj [(''noAck'', JBool False), (''arguments'', JObj [(''x-stream-offset'', JStr ''first'')])]))))"

definition retryEnabled :: "SubscribeOptions \<Rightarrow> bool" where
  "retryEnabled options \<longleftrightarrow> coalesce (so_deadLetter options) False \<and>
     (case so_retryDelayMs options of None \<Rightarrow> False | Some ms \<Rightarrow> 0 < ms)"

text \<open>The queue's name; a random suffix is drawn for a missing id and for a partitioned consumer.\<close>

definition bus_queue_name :: "(nat \<Rightarrow> string) \<Rightarrow> destination \<Rightarrow> SubscribeOptions \<Rightarrow> string rabbit_op" where
  "bus_queue_name rand topic options s =
     (let (sid, s1) = (case so_subscriberId options of
            Some x \<Rightarrow> (x, s)
          | None \<Rightarrow> (''sub-'' @ rand (rb_draws s), s\<lparr>rb_draws := Suc (rb_draws s)\<rparr>))
      in if coalesce (so_partitionByGroup options) False
         then (Inr (''bus.'' @ topic @ ''.'' @ sid @ ''.'' @ rand (rb_draws s1)),
               s1\<lparr>rb_draws := Suc (rb_draws s1)\<rparr>)
         else (Inr (''bus.'' @ topic @ ''.'' @ sid), s1))"

definition retryQueue :: "string \<Rightarrow> string" where
  "retryQueue queue = queue @ ''.retry''"

text \<open>The arguments the dead-letter options put on the main queue, and what they declare beside it.\<close>

definition deadLetterArgs :: "destination \<Rightarrow> string \<Rightarrow> SubscribeOptions \<Rightarrow> (string \<times> js_value) list" where
  "deadLetterArgs topic queue options =
     (if retryEnabled options then
        [(''x-dead-letter-exchange'', JStr []), (''x-dead-letter-routing-key'', JStr (retryQueue queue))]
      else if coalesce (so_deadLetter options) False then
        [(''x-queue-type'', JStr ''quorum''),
         (''x-delivery-limit'', JNum (int (coalesce (so_maxDeliveries options) DEFAULT_MAX_DELIVERIES))),
         (''x-dead-letter-exchange'', JStr (fanoutExchange (deadLetterAddress topic)))]
      else [])"

definition retryQueueArgs :: "string \<Rightarrow> SubscribeOptions \<Rightarrow> js_value" where
  "retryQueueArgs queue options =
     JObj [(''durable'', JBool True), (''arguments'', JObj
       [(''x-message-ttl'', case so_retryDelayMs options of None \<Rightarrow> Undef | Some ms \<Rightarrow> JNum ms),
        (''x-dead-letter-exchange'', JStr []), (''x-dead-letter-routing-key'', JStr queue)])]"

definition declareDeadLetter :: "nat \<Rightarrow> destination \<Rightarrow> string \<Rightarrow> SubscribeOptions \<Rightarrow> unit rabbit_op" where
  "declareDeadLetter ch topic queue options =
     (if retryEnabled options then
        and_then (ensureBusExchanges (deadLetterAddress topic)) (\<lambda>_.
          does [RAssertQueue ch (retryQueue queue) (retryQueueArgs queue options)])
      else if coalesce (so_deadLetter options) False then ensureBusExchanges (deadLetterAddress topic)
      else (\<lambda>s. (Inr (), s)))"

definition queueArgs :: "destination \<Rightarrow> string \<Rightarrow> SubscribeOptions \<Rightarrow> (string \<times> js_value) list" where
  "queueArgs topic queue options =
     (let args0 = deadLetterArgs topic queue options;
          args1 = set_when (coalesce (so_priorityQueue options) False) ''x-max-priority'' (JNum 10) args0;
          args2 = set_when (coalesce (so_singleActiveConsumer options) False)
                    ''x-single-active-consumer'' (JBool True) args1
      in set_when (so_ttlMs options \<noteq> None) ''x-dead-letter-exchange''
           (JStr (fanoutExchange (expiryAddress topic))) args2)"

definition transientSubscribe :: "nat \<Rightarrow> destination \<Rightarrow> string \<Rightarrow> handler \<Rightarrow> SubscribeOptions \<Rightarrow> nat rabbit_op" where
  "transientSubscribe ch topic queue h options =
     and_then (does [RAssertQueue ch queue (JObj [(''durable'', JBool False), (''exclusive'', JBool True),
                       (''autoDelete'', JBool True)]),
                     RBindQueue ch queue (topicExchange topic) (coalesce (so_routingKey options) ''#'')])
       (\<lambda>_. add_rb_consumer ch queue (BusConsumer topic None) h noAck_false)"

definition bindMain :: "nat \<Rightarrow> destination \<Rightarrow> string \<Rightarrow> SubscribeOptions \<Rightarrow> unit rabbit_op" where
  "bindMain ch topic queue options =
     (if coalesce (so_partitionByGroup options) False then
        and_then (ensureHashExchange topic) (\<lambda>_. does [RBindQueue ch queue (hashExchange topic) ''1''])
      else if coalesce (so_kind options) Topic = Fanout then
        does [RBindQueue ch queue (fanoutExchange topic) []]
      else does [RBindQueue ch queue (topicExchange topic) (coalesce (so_routingKey options) ''#'')])"

definition retryOf :: "destination \<Rightarrow> string \<Rightarrow> SubscribeOptions \<Rightarrow> RbRetry option" where
  "retryOf topic queue options =
     (if retryEnabled options then
        Some \<lparr>rr_mainQueue = queue,
              rr_maxDeliveries = coalesce (so_maxDeliveries options) DEFAULT_MAX_DELIVERIES,
              rr_dlaExchange = (if coalesce (so_deadLetter options) False
                then fanoutExchange (deadLetterAddress topic) else [])\<rparr>
      else None)"

definition durableSubscribe :: "nat \<Rightarrow> destination \<Rightarrow> string \<Rightarrow> handler \<Rightarrow> SubscribeOptions \<Rightarrow> nat rabbit_op" where
  "durableSubscribe ch topic queue h options =
     and_then (if so_ttlMs options \<noteq> None then ensureBusExchanges (expiryAddress topic)
               else (\<lambda>s. (Inr (), s))) (\<lambda>_.
     and_then (does [RAssertQueue ch queue (JObj [(''durable'', JBool True),
                       (''arguments'', JObj (queueArgs topic queue options))])]) (\<lambda>_.
     and_then (bindMain ch topic queue options) (\<lambda>_.
       add_rb_consumer ch queue (BusConsumer topic (retryOf topic queue options)) h noAck_false)))"

definition rb_subscribe :: "(nat \<Rightarrow> string) \<Rightarrow> destination \<Rightarrow> handler \<Rightarrow> SubscribeOptions option \<Rightarrow> nat rabbit_op" where
  "rb_subscribe rand topic h opts =
     (let options = coalesce opts no_subscribe_options
      in and_then (ensureBusExchanges topic) (\<lambda>_.
         if coalesce (so_streamReplay options) False then subscribeStreamReplay topic h
         else
           and_then (bus_queue_name rand topic options) (\<lambda>queue.
           and_then (openChannel 1) (\<lambda>ch.
           and_then (declareDeadLetter ch topic queue options) (\<lambda>_.
             if coalesce (so_transient options) False then transientSubscribe ch topic queue h options
             else durableSubscribe ch topic queue h options)))))"

section \<open>Deliveries\<close>

text \<open>What the broker hands to a consumer callback.\<close>

record ConsumeMessage =
  cm_tag :: nat
  cm_content :: string
  cm_redelivered :: bool
  cm_messageId :: "string option"
  cm_headers :: "(string \<times> js_value) list option"
  cm_replyTo :: "string option"
  cm_correlationId :: "string option"
  cm_priority :: "int option"

definition normalizeHeaders :: "(string \<times> js_value) list option \<Rightarrow> headers" where
  "normalizeHeaders hs = map (\<lambda>(k, v). (k, js_String v)) (coalesce hs [])"

definition header :: "string \<Rightarrow> ConsumeMessage \<Rightarrow> js_value" where
  "header k m = (case cm_headers m of None \<Rightarrow> Undef | Some hs \<Rightarrow> js_prop k (JObj hs))"

definition xDeathCount :: "(string \<times> js_value) list option \<Rightarrow> string \<Rightarrow> int" where
  "xDeathCount headers mainQueue =
     (case (case headers of None \<Rightarrow> Undef | Some hs \<Rightarrow> js_prop ''x-death'' (JObj hs)) of
        JArr xd \<Rightarrow>
          (case find (\<lambda>e. js_prop ''queue'' e = JStr mainQueue) xd of
             None \<Rightarrow> 0
           | Some entry \<Rightarrow> coalesce (as_number (js_prop ''count'' entry)) 0)
      | _ \<Rightarrow> 0)"

text \<open>The callback of a scheduler consumer: the handler runs, then the message is acknowledged.\<close>

definition schedulerCallback :: "nat \<Rightarrow> destination \<Rightarrow> bool \<Rightarrow> ConsumeMessage option \<Rightarrow>
    ReceivedMessage option \<times> rb_call list" where
  "schedulerCallback ch destination throws msg =
     (case msg of
        None \<Rightarrow> (None, [])
      | Some m \<Rightarrow>
          (Some \<lparr>rm_id = coalesce (cm_messageId m) [], rm_destination = destination,
             rm_body = cm_content m, rm_headers = normalizeHeaders (cm_headers m)\<rparr>,
           if throws then [] else [RAck ch (cm_tag m)]))"

record RbIncoming =
  ri_message :: IncomingMessage
  ri_channel :: nat
  ri_tag :: nat
  ri_count :: "int option"
  ri_retry :: "RbRetry option"
  ri_settled :: bool

definition deliveryCountOf :: "ConsumeMessage \<Rightarrow> RbRetry option \<Rightarrow> int option" where
  "deliveryCountOf m retry =
     (case retry of
        Some r \<Rightarrow> Some (xDeathCount (cm_headers m) (rr_mainQueue r) + 1)
      | None \<Rightarrow>
          (case as_number (header ''x-delivery-count'' m) of
             Some deaths \<Rightarrow> Some (deaths + 1)
           | None \<Rightarrow> if cm_redelivered m then None else Some 1))"

definition toIncoming :: "nat \<Rightarrow> destination \<Rightarrow> ConsumeMessage \<Rightarrow> RbRetry option \<Rightarrow> RbIncoming" where
  "toIncoming ch topic m retry =
     \<lparr>ri_message = \<lparr>rm_id = coalesce (cm_messageId m) [], rm_destination = topic, rm_body = cm_content m,
        rm_headers = normalizeHeaders (cm_headers m),
        im_deliveryCount = map_option nat (deliveryCountOf m retry), im_replyTo = cm_replyTo m,
        im_correlationId = cm_correlationId m, im_groupId = as_string (header ''x-group-id'' m),
        im_priority = cm_priority m\<rparr>,
      ri_channel = ch, ri_tag = cm_tag m, ri_count = deliveryCountOf m retry, ri_retry = retry,
      ri_settled = False\<rparr>"

definition rb_ack :: "RbIncoming \<Rightarrow> RbIncoming \<times> rb_call list" where
  "rb_ack i = (if ri_settled i then (i, []) else (i\<lparr>ri_settled := True\<rparr>, [RAck (ri_channel i) (ri_tag i)]))"

definition rb_nack :: "bool \<Rightarrow> RbIncoming \<Rightarrow> RbIncoming \<times> rb_call list" where
  "rb_nack requeue i =
     (if ri_settled i then (i, [])
      else (i\<lparr>ri_settled := True\<rparr>,
        case ri_retry i of
          Some r \<Rightarrow>
            if \<not> requeue \<or> int (rr_maxDeliveries r) \<le> coalesce (ri_count i) 1 then
              [RPublish (ri_channel i) (rr_dlaExchange r) [] (rm_body (ri_message i))
                 (JObj [(''persistent'', JBool True)]),
               RAck (ri_channel i) (ri_tag i)]
            else [RNack (ri_channel i) (ri_tag i) False False]
        | None \<Rightarrow> [RNack (ri_channel i) (ri_tag i) False requeue]))"

definition toStreamIncoming :: "nat \<Rightarrow> destination \<Rightarrow> ConsumeMessage \<Rightarrow> RbIncoming" where
  "toStreamIncoming ch topic m =
     \<lparr>ri_message = \<lparr>rm_id = coalesce (cm_messageId m) [], rm_destination = topic, rm_body = cm_content m,
        rm_headers = normalizeHeaders (cm_headers m), im_deliveryCount = None, im_replyTo = None,
        im_correlationId = None, im_groupId = None, im_priority = None\<rparr>,
      ri_channel = ch, ri_tag = cm_tag m, ri_count = None, ri_retry = None, ri_settled = False\<rparr>"

definition stream_nack :: "bool \<Rightarrow> RbIncoming \<Rightarrow> RbIncoming \<times> rb_call list" where
  "stream_nack requeue i = rb_ack i"

interpretation rabbit_settlement: settlement rb_ack rb_nack ri_settled
  by unfold_locales (simp_all add: rb_ack_def rb_nack_def)

interpretation stream_settlement: settlement rb_ack stream_nack ri_settled
  by unfold_locales (simp_all add: rb_ack_def stream_nack_def)

text \<open>
  \<open>deliver\<close>: the handler makes its calls and returns or throws; a throw is a \<open>nack(true)\<close>, which does nothing
  after the handler has settled.
\<close>

definition rb_handle :: "settle_call list \<Rightarrow> RbIncoming \<Rightarrow> RbIncoming \<times> rb_call list" where
  "rb_handle made i =
     foldl (\<lambda>(i, cs) x. case (case x of CallAck \<Rightarrow> rb_ack i | CallNack r \<Rightarrow> rb_nack r i) of (i', cs') \<Rightarrow> (i', cs @ cs'))
       (i, []) made"

definition rb_deliver :: "settle_call list \<Rightarrow> bool \<Rightarrow> RbIncoming \<Rightarrow> RbIncoming \<times> rb_call list" where
  "rb_deliver made throws i =
     (case rb_handle made i of
        (i', cs) \<Rightarrow> if throws then (case rb_nack True i' of (i'', cs') \<Rightarrow> (i'', cs @ cs')) else (i', cs))"

lemma rb_handle_calls:
  "foldl (\<lambda>(i, cs) x. case (case x of CallAck \<Rightarrow> rb_ack i | CallNack r \<Rightarrow> rb_nack r i) of (i', cs') \<Rightarrow> (i', cs @ cs'))
     (i, acc) made =
   (fst (rabbit_settlement.calls made i), acc @ snd (rabbit_settlement.calls made i))"
proof (induction made arbitrary: i acc)
  case (Cons x made)
  then show ?case by (cases x) (simp_all add: split_def)
qed simp

lemma rabbit_calls_append:
  "rabbit_settlement.calls (xs @ ys) i =
     (case rabbit_settlement.calls xs i of (i', cs) \<Rightarrow> case rabbit_settlement.calls ys i' of (i'', cs') \<Rightarrow> (i'', cs @ cs'))"
  by (induction xs arbitrary: i) (simp_all add: split_def)

lemma rb_handle_eq: "rb_handle made i = rabbit_settlement.calls made i"
  unfolding rb_handle_def rb_handle_calls by simp

lemma rb_deliver_eq: "rb_deliver made throws i = rabbit_settlement.deliver made throws i"
  by (simp add: rb_deliver_def rb_handle_eq rabbit_settlement.deliver_def rabbit_calls_append split_def)

interpretation rabbit_port: scheduler_port rabbit_capabilities
  "\<lambda>h s. case rb_cancel h s of (Inl e, _) \<Rightarrow> Inl e | (Inr (), s') \<Rightarrow> Inr s'"
  "\<lambda>d s. fst (rb_listScheduled d s)"
  by unfold_locales (simp_all add: rabbit_capabilities_def rb_cancel_def rb_listScheduled_def)

section \<open>The adapter\<close>

definition lift_result :: "('r \<Rightarrow> nat port_result) \<Rightarrow> 'r rabbit_op \<Rightarrow> (RabbitMq, nat) operation" where
  "lift_result f op s = (case op s of (Inl e, s') \<Rightarrow> (Inl e, s') | (Inr x, s') \<Rightarrow> (Inr (f x), s'))"

definition rabbit_adapter :: "(nat \<Rightarrow> string) \<Rightarrow> (RabbitMq, nat) Adapter" where
  "rabbit_adapter rand = \<lparr>ad_name = rabbit_name, ad_capabilities = rabbit_capabilities,
     ad_busCapabilities = rabbit_busCapabilities,
     ad_connect = lift_result (\<lambda>_. RUnit) rb_connect,
     ad_sendNow = (\<lambda>d p. lift_result (\<lambda>_. RUnit) (rb_sendNow d p)),
     ad_schedule = (\<lambda>d p at. lift_result RHandle (rb_schedule rand d p at)),
     ad_cancel = (\<lambda>h. lift_result (\<lambda>_. RUnit) (rb_cancel h)),
     ad_listScheduled = (\<lambda>d. lift_result RList (rb_listScheduled d)),
     ad_consume = (\<lambda>d h. lift_result RSub (rb_consume d h)),
     ad_connectBus = lift_result (\<lambda>_. RUnit) rb_connectBus,
     ad_publish = (\<lambda>t p rk opts. lift_result (\<lambda>_. RUnit) (rb_publish t p rk opts)),
     ad_subscribe = (\<lambda>t h opts. lift_result RSub (rb_subscribe rand t h opts)),
     ad_dispose = lift_result (\<lambda>_. RUnit) rb_dispose\<rparr>"

end
