(* ===== verification/Rabbit_Properties.thy ===== *)
theory Rabbit_Properties
  imports Rabbit_Mq Bus_Steps
begin

text \<open>The properties of the RabbitMQ adapter.\<close>

section \<open>Settlement\<close>

text \<open>
  The message the broker redelivers after \<open>n\<close> rejections from the main queue: its \<open>x-death\<close> header has
  an entry for that queue with that count.
\<close>

definition rejected_times :: "nat \<Rightarrow> string \<Rightarrow> ConsumeMessage \<Rightarrow> bool" where
  "rejected_times n queue m \<longleftrightarrow>
     (if n = 0 then header ''x-death'' m = Undef
      else \<exists>xd e. header ''x-death'' m = JArr xd \<and> find (\<lambda>e. js_prop ''queue'' e = JStr queue) xd = Some e \<and>
        js_prop ''count'' e = JNum (int n))"

lemma rejected_times_count: "rejected_times n queue m \<Longrightarrow> xDeathCount (cm_headers m) queue = int n"
  by (auto simp: rejected_times_def xDeathCount_def header_def split: if_splits option.splits)

text \<open>C24. The retry budget is exact: on the delivery after \<open>n\<close> rejections, a handler that throws without
settling (or requeues first) sends the message to the parking queue while \<open>n + 1\<close> is below the limit,
and at the limit publishes its body to the dead-letter exchange and acknowledges it; whatever the
handler calls afterwards sends nothing more.\<close>

theorem rabbit_retry_budget:
  assumes "rejected_times n (rr_mainQueue r) m"
  shows "snd (rb_deliver [] True (toIncoming ch topic m (Some r))) =
      (if rr_maxDeliveries r \<le> Suc n
       then [RPublish ch (rr_dlaExchange r) [] (cm_content m) (JObj [(''persistent'', JBool True)]), RAck ch (cm_tag m)]
       else [RNack ch (cm_tag m) False False]) \<and>
    snd (rb_deliver (CallNack True # made) throws (toIncoming ch topic m (Some r))) =
      snd (rb_deliver [] True (toIncoming ch topic m (Some r))) \<and>
    snd (rb_deliver (CallAck # made) throws (toIncoming ch topic m (Some r))) = [RAck ch (cm_tag m)]"
  using rejected_times_count [OF assms]
  by (simp add: rb_deliver_eq rabbit_settlement.deliver_unsettled rabbit_settlement.deliver_settled rb_nack_def rb_ack_def
      toIncoming_def deliveryCountOf_def)

definition third_delivery :: ConsumeMessage where
  "third_delivery = \<lparr>cm_tag = 7, cm_content = ''poison'', cm_redelivered = False, cm_messageId = None,
     cm_headers = Some [(''x-death'', JArr [JObj [(''queue'', JStr ''bus.t.a.retry''), (''count'', JNum 2)],
                                           JObj [(''queue'', JStr ''bus.t.a''), (''count'', JNum 2)]])],
     cm_replyTo = None, cm_correlationId = None, cm_priority = None\<rparr>"

theorem rabbit_retry_budget_witness:
  "snd (rb_deliver [] True (toIncoming 1 ''t'' third_delivery
      (Some \<lparr>rr_mainQueue = ''bus.t.a'', rr_maxDeliveries = 3, rr_dlaExchange = ''x.f.t.dlq''\<rparr>))) =
   [RPublish 1 ''x.f.t.dlq'' [] ''poison'' (JObj [(''persistent'', JBool True)]), RAck 1 7]"
proof -
  have "rejected_times 2 ''bus.t.a'' third_delivery"
    by (simp add: rejected_times_def third_delivery_def header_def)
  with rabbit_retry_budget [of 2 "\<lparr>rr_mainQueue = ''bus.t.a'', rr_maxDeliveries = 3, rr_dlaExchange = ''x.f.t.dlq''\<rparr>"
      third_delivery 1 "''t''"]
  show ?thesis by (simp add: third_delivery_def)
qed

section \<open>Routing\<close>

text \<open>
  The documented rule of a topic exchange: words are dot-separated, \<open>*\<close> stands for one word and \<open>#\<close> for
  any number of words.
\<close>

definition binding_accepts :: "string \<Rightarrow> string \<Rightarrow> bool" where
  "binding_accepts pattern key \<longleftrightarrow> matches_words (split_on (CHR ''.'') pattern) (split_on (CHR ''.'') key)"



section \<open>Publishing\<close>

text \<open>How many of a list of calls reach a queue bound to an exchange with a key predicate.\<close>

fun reaches :: "string \<Rightarrow> (string \<Rightarrow> bool) \<Rightarrow> rb_call \<Rightarrow> bool" where
  "reaches x accepts (RPublish ch x' k body props) = (x' = x \<and> accepts k)"
| "reaches x accepts _ = False"

definition copies :: "string \<Rightarrow> (string \<Rightarrow> bool) \<Rightarrow> rb_call list \<Rightarrow> nat" where
  "copies x accepts calls = length (filter (reaches x accepts) calls)"

lemma copies_simps [simp]:
  "copies x accepts [] = 0" "copies x accepts (cs @ ds) = copies x accepts cs + copies x accepts ds"
  "copies x accepts (c # cs) = (if reaches x accepts c then Suc (copies x accepts cs) else copies x accepts cs)"
  by (simp_all add: copies_def)

lemma exchanges_distinct [simp]:
  "topicExchange t \<noteq> fanoutExchange t'" "fanoutExchange t \<noteq> topicExchange t'"
  "topicExchange t \<noteq> hashExchange t'" "hashExchange t \<noteq> topicExchange t'"
  "fanoutExchange t \<noteq> hashExchange t'" "hashExchange t \<noteq> fanoutExchange t'"
  by (simp_all add: topicExchange_def fanoutExchange_def hashExchange_def)

text \<open>While every call is accepted, a list of calls is made in one go.\<close>

lemma does_accepted: "rb_refuses s = (\<lambda>_. None) \<Longrightarrow> does cs s = (Inr (), emit cs s)"
proof (induction cs arbitrary: s)
  case (Cons c cs)
  have "rb_send c s = (Inr (), emit [c] s)" using Cons.prems by (simp add: rb_send_def)
  then have "does (c # cs) s = does cs (emit [c] s)" by (simp add: does.simps)
  also have "\<dots> = (Inr (), emit cs (emit [c] s))" using Cons.prems by (intro Cons.IH) simp
  finally show ?case by (simp add: emit_def)
qed (simp add: emit_def does.simps)

lemma ensureBusExchanges_ready:
  assumes "rb_channel s = Some ch" and "rb_refuses s = (\<lambda>_. None)"
  shows "\<exists>cs. ensureBusExchanges topic s = (Inr (), (emit cs s)\<lparr>rb_busTopology := insert topic (rb_busTopology s)\<rparr>) \<and>
    (\<forall>x accepts. copies x accepts cs = 0) \<and> (topic \<in> rb_busTopology s \<longrightarrow> cs = [])"
proof (cases "topic \<in> rb_busTopology s")
  case True
  then show ?thesis
    by (intro exI [of _ "[]"]) (simp add: ensureBusExchanges_def emit_def insert_absorb)
next
  case False
  then show ?thesis
    using assms by (auto simp: ensureBusExchanges_def theChannel_def and_then_def does_accepted)
qed

lemma ensureHashExchange_ready:
  assumes "rb_channel s = Some ch" and "rb_refuses s = (\<lambda>_. None)"
  shows "\<exists>cs. ensureHashExchange topic s = (Inr (), (emit cs s)\<lparr>rb_hashTopology := insert topic (rb_hashTopology s)\<rparr>) \<and>
    (\<forall>x accepts. copies x accepts cs = 0)"
proof (cases "topic \<in> rb_hashTopology s")
  case True
  then show ?thesis
    by (intro exI [of _ "[]"]) (simp add: ensureHashExchange_def emit_def insert_absorb)
next
  case False
  then show ?thesis
    using assms by (auto simp: ensureHashExchange_def theChannel_def and_then_def does_accepted)
qed

text \<open>On a connected adapter whose calls are accepted a publish reaches every queue at most once, by exactly one copy: a queue
bound to the topic exchange gets one copy if its key accepts the routing key (the topic itself when
none is given), a queue bound to the fanout exchange gets one, and a partitioned queue gets one exactly
when the message has a group and its share of the hash covers it.\<close>

theorem rabbit_publish_one_copy:
  assumes "rb_channel s = Some ch" and "rb_refuses s = (\<lambda>_. None)"
  shows "\<exists>calls s'. rb_publish topic payload routingKey options s = (Inr (), s') \<and> rb_log s' = rb_log s @ calls \<and>
    copies (topicExchange topic) accepts calls = (if accepts (coalesce routingKey topic) then 1 else 0) \<and>
    copies (fanoutExchange topic) (\<lambda>_. True) calls = 1 \<and>
    copies (hashExchange topic) share calls =
      (case opt_field po_groupId options of None \<Rightarrow> 0 | Some g \<Rightarrow> if g \<noteq> [] \<and> share g then 1 else 0)"
proof -
  obtain cs where e: "ensureBusExchanges topic s =
      (Inr (), (emit cs s)\<lparr>rb_busTopology := insert topic (rb_busTopology s)\<rparr>)"
    and cs: "\<forall>x accepts. copies x accepts cs = 0"
    using ensureBusExchanges_ready [OF assms] by blast
  let ?ps = "[RPublish ch (topicExchange topic) (coalesce routingKey topic) payload (publishProps options),
    RPublish ch (fanoutExchange topic) [] payload (publishProps options)]"
  let ?s1 = "(emit cs s)\<lparr>rb_busTopology := insert topic (rb_busTopology s)\<rparr>"
  have chan: "theChannel ?s1 = (Inr ch, ?s1)" using assms by (simp add: theChannel_def)
  show ?thesis
  proof (cases "truthy_string (opt_field po_groupId options)")
    case False
    then have none: "(case opt_field po_groupId options of None \<Rightarrow> 0 | Some g \<Rightarrow> if g \<noteq> [] \<and> share g then 1 else (0::nat)) = 0"
      by (auto split: option.splits)
    have "rb_publish topic payload routingKey options s = (Inr (), emit ?ps ?s1)"
      using False assms(2) by (simp add: rb_publish_def e chan does_accepted)
    with cs none show ?thesis by (intro exI [of _ "cs @ ?ps"] exI [of _ "emit ?ps ?s1"]) simp
  next
    case True
    then obtain g where g: "opt_field po_groupId options = Some g" "g \<noteq> []"
      by (auto simp: truthy_string_def split: option.splits)
    have "rb_channel (emit ?ps ?s1) = Some ch" "rb_refuses (emit ?ps ?s1) = (\<lambda>_. None)" using assms by simp_all
    from ensureHashExchange_ready [OF this, of topic] obtain ds where
      h: "ensureHashExchange topic (emit ?ps ?s1) = (Inr (), (emit ds (emit ?ps ?s1))
        \<lparr>rb_hashTopology := insert topic (rb_hashTopology (emit ?ps ?s1))\<rparr>)"
      and ds: "\<forall>x accepts. copies x accepts ds = 0" by blast
    let ?h = "[RPublish ch (hashExchange topic) g payload (publishProps options)]"
    let ?s2 = "emit ?h ((emit ds (emit ?ps ?s1))\<lparr>rb_hashTopology := insert topic (rb_hashTopology (emit ?ps ?s1))\<rparr>)"
    have "rb_publish topic payload routingKey options s = (Inr (), ?s2)"
      using True g h assms(2) by (simp add: rb_publish_def e chan does_accepted)
    with cs ds g show ?thesis by (intro exI [of _ "cs @ ?ps @ ds @ ?h"] exI [of _ ?s2]) simp
  qed
qed

theorem rabbit_publish_one_copy_witness:
  "\<exists>calls s'. rb_publish ''t'' ''x'' None None ((rabbit_init (rabbitConfigFromEnv Map.empty))\<lparr>rb_channel := Some 0\<rparr>) = (Inr (), s') \<and>
     copies (fanoutExchange ''t'') (\<lambda>_. True) calls = 1"
  using rabbit_publish_one_copy [of "(rabbit_init (rabbitConfigFromEnv Map.empty))\<lparr>rb_channel := Some 0\<rparr>" 0 "''t''" "''x''" None None]
  by (auto simp: rabbit_init_def)

section \<open>Dead-lettering\<close>

text \<open>Where the main queue dead-letters to: to its retry queue when a retry delay is set, to the
dead-letter fanout when only dead-lettering is, but a time to live overrides either: then rejected
messages leave for the expiry fanout, and the retry queue that was declared never receives one.\<close>

theorem rabbit_dead_letter_exchange:
  "js_map_get (queueArgs topic queue options) ''x-dead-letter-exchange'' =
    (if so_ttlMs options \<noteq> None then Some (JStr (fanoutExchange (expiryAddress topic)))
     else if retryEnabled options then Some (JStr [])
     else if coalesce (so_deadLetter options) False then Some (JStr (fanoutExchange (deadLetterAddress topic)))
     else None) \<and>
   js_map_get (queueArgs topic queue options) ''x-dead-letter-routing-key'' =
    (if retryEnabled options then Some (JStr (retryQueue queue)) else None)"
  by (simp add: queueArgs_def deadLetterArgs_def set_when_def Let_def)

text \<open>The bindings of a queue in a log of calls, and the exchange its rejected messages go to.\<close>

definition bindings_of :: "string \<Rightarrow> rb_call list \<Rightarrow> (string \<times> string) list" where
  "bindings_of queue calls = concat (map (\<lambda>c. case c of
     RBindQueue ch q x k \<Rightarrow> if q = queue then [(x, k)] else [] | _ \<Rightarrow> []) calls)"

definition dlq_session :: "(js_error + nat) \<times> RabbitMq" where
  "dlq_session =
     (let rand = (\<lambda>n. show_nat n);
          opts = (\<lambda>sid. no_subscribe_options\<lparr>so_subscriberId := Some sid\<rparr>)
      in and_then rb_connectBus (\<lambda>_.
         and_then (rb_subscribe rand ''orders'' 1 (Some ((opts ''a'')\<lparr>so_deadLetter := Some True\<rparr>))) (\<lambda>_.
           rb_subscribe rand (deadLetterAddress ''orders'') 2 (Some (opts ''dead''))))
         (rabbit_init (rabbitConfigFromEnv Map.empty)))"

text \<open>A dead-letter subscriber of the default topic kind hears nothing on RabbitMQ: the queue of the
topic dead-letters to the fanout exchange of the dead-letter address, while the subscriber's queue is
bound only to its topic exchange.\<close>

theorem rabbit_topic_dlq_subscriber_unreached:
  "bindings_of ''bus.orders.dlq.dead'' (rb_log (snd dlq_session)) = [(''x.t.orders.dlq'', ''#'')] \<and>
   js_map_get (queueArgs ''orders'' ''bus.orders.a'' (no_subscribe_options\<lparr>so_subscriberId := Some ''a'', so_deadLetter := Some True\<rparr>))
     ''x-dead-letter-exchange'' = Some (JStr ''x.f.orders.dlq'')"
  by code_simp

end
