(* ===== verification/Rabbit_Topology.thy ===== *)
theory Rabbit_Topology
  imports Rabbit_Properties
begin

text \<open>
  What the RabbitMQ adapter relies on at the broker: exchanges and queues it has declared. The invariant
  \<open>topo_ok\<close> says that the caches of the adapter only name what the broker has accepted, and \<open>triple\<close> is the
  contract of an operation: given the resources \<open>A\<close> it keeps the invariant, whichever of its calls are
  refused, and when it succeeds the resources \<open>B\<close> are there.
\<close>

section \<open>Resources\<close>

datatype resource = Exchange string | Queue string

fun declares :: "rb_call \<Rightarrow> resource set" where
  "declares (RAssertExchange ch x kind opts) = {Exchange x}"
| "declares (RAssertQueue ch q opts) = {Queue q}"
| "declares _ = {}"

text \<open>The exchange a queue dead-letters to; the empty name is the default exchange, which is always there.\<close>

definition dead_letter_target :: "js_value \<Rightarrow> resource set" where
  "dead_letter_target opts =
     (case js_prop ''x-dead-letter-exchange'' (js_prop ''arguments'' opts) of
        JStr x \<Rightarrow> if x = [] then {} else {Exchange x}
      | _ \<Rightarrow> {})"

fun uses :: "rb_call \<Rightarrow> resource set" where
  "uses (RPublish ch x k body props) = {Exchange x}"
| "uses (RBindQueue ch q x k) = {Queue q, Exchange x}"
| "uses (RConsume ch q opts) = {Queue q}"
| "uses (RAssertQueue ch q opts) = dead_letter_target opts"
| "uses _ = {}"

text \<open>Declared by an accepted call, and known: declared, or the exchange of the configuration.\<close>

definition declared :: "(nat \<Rightarrow> js_error option) \<Rightarrow> rb_call list \<Rightarrow> resource \<Rightarrow> bool" where
  "declared refuses calls r \<longleftrightarrow> (\<exists>j < length calls. refuses j = None \<and> r \<in> declares (calls ! j))"

definition known :: "RabbitMq \<Rightarrow> resource set" where
  "known s = {r. r = Exchange (rc_exchange (rb_cfg s)) \<or> declared (rb_refuses s) (rb_log s) r}"

definition ordered :: "RabbitMq \<Rightarrow> bool" where
  "ordered s \<longleftrightarrow> (\<forall>i r. i < length (rb_log s) \<longrightarrow> r \<in> uses (rb_log s ! i) \<longrightarrow>
     r = Exchange (rc_exchange (rb_cfg s)) \<or> declared (rb_refuses s) (take i (rb_log s)) r)"

lemma declared_snoc:
  "declared f (cs @ [c]) r \<longleftrightarrow> declared f cs r \<or> (f (length cs) = None \<and> r \<in> declares c)"
proof -
  have "(\<exists>j < length cs. f j = None \<and> r \<in> declares ((cs @ [c]) ! j)) \<longleftrightarrow> declared f cs r"
    unfolding declared_def by (rule ex_cong) (simp add: nth_append)
  then show ?thesis by (auto simp: declared_def Ex_less_Suc)
qed

lemma known_emit:
  "known (emit [c] s) = known s \<union> (if rb_refuses s (length (rb_log s)) = None then declares c else {})"
  by (auto simp: known_def declared_snoc)

lemma ordered_emit: "ordered s \<Longrightarrow> uses c \<subseteq> known s \<Longrightarrow> ordered (emit [c] s)"
proof -
  assume o: "ordered s" and u: "uses c \<subseteq> known s"
  have "r = Exchange (rc_exchange (rb_cfg s)) \<or> declared (rb_refuses s) (take i (rb_log s @ [c])) r"
    if i: "i < Suc (length (rb_log s))" and r: "r \<in> uses ((rb_log s @ [c]) ! i)" for i r
  proof (cases "i < length (rb_log s)")
    case True
    with r o show ?thesis by (simp add: ordered_def nth_append)
  next
    case False
    with i have "i = length (rb_log s)" by simp
    with r u show ?thesis by (auto simp: known_def)
  qed
  then show "ordered (emit [c] s)" by (simp add: ordered_def)
qed

section \<open>The invariant and the contract\<close>

definition consumer_ok :: "resource set \<Rightarrow> RbConsumer \<Rightarrow> bool" where
  "consumer_ok A k \<longleftrightarrow> Queue (rk_queue k) \<in> A \<and>
     (case rk_mode k of BusConsumer t (Some r) \<Rightarrow> Exchange (rr_dlaExchange r) \<in> A | _ \<Rightarrow> True)"

definition topo_ok :: "RabbitMq \<Rightarrow> bool" where
  "topo_ok s \<longleftrightarrow> ordered s \<and>
     (\<forall>t. t \<in> rb_busTopology s \<longrightarrow> {Exchange (topicExchange t), Exchange (fanoutExchange t)} \<subseteq> known s) \<and>
     (\<forall>t. t \<in> rb_hashTopology s \<longrightarrow> Exchange (hashExchange t) \<in> known s) \<and>
     (\<forall>d. d \<in> rb_topology s \<longrightarrow> Queue (queueName d) \<in> known s) \<and>
     (\<forall>k. k \<in> set (rb_consumers s) \<longrightarrow> consumer_ok (known s) k)"

lemma consumer_ok_mono: "consumer_ok A k \<Longrightarrow> A \<subseteq> B \<Longrightarrow> consumer_ok B k"
  by (auto simp: consumer_ok_def split: consumer_mode.splits option.splits)

text \<open>What no operation undoes.\<close>

definition frame :: "RabbitMq \<Rightarrow> RabbitMq \<Rightarrow> bool" where
  "frame s s' \<longleftrightarrow> rb_cfg s' = rb_cfg s \<and> rb_refuses s' = rb_refuses s \<and> known s \<subseteq> known s' \<and>
     (\<forall>ch. rb_channel s = Some ch \<longrightarrow> rb_channel s' = Some ch)"

lemma frame_refl [simp]: "frame s s"
  by (simp add: frame_def)

lemma frame_trans: "frame s t \<Longrightarrow> frame t u \<Longrightarrow> frame s u"
  by (auto simp: frame_def)

definition good :: "('a \<Rightarrow> resource set) \<Rightarrow> RabbitMq \<Rightarrow> (js_error + 'a) \<times> RabbitMq \<Rightarrow> bool" where
  "good B s out \<longleftrightarrow> topo_ok (snd out) \<and> frame s (snd out) \<and> (\<forall>x. fst out = Inr x \<longrightarrow> B x \<subseteq> known (snd out))"

definition triple :: "RabbitConfig \<Rightarrow> resource set \<Rightarrow> 'a rabbit_op \<Rightarrow> ('a \<Rightarrow> resource set) \<Rightarrow> bool" where
  "triple cfg A op B \<longleftrightarrow> (\<forall>s. topo_ok s \<longrightarrow> rb_cfg s = cfg \<longrightarrow> A \<subseteq> known s \<longrightarrow> good B s (op s))"

lemma tripleI: "(\<And>s. topo_ok s \<Longrightarrow> rb_cfg s = cfg \<Longrightarrow> A \<subseteq> known s \<Longrightarrow> good B s (op s)) \<Longrightarrow> triple cfg A op B"
  by (simp add: triple_def)

lemma tripleD: "triple cfg A op B \<Longrightarrow> topo_ok s \<Longrightarrow> rb_cfg s = cfg \<Longrightarrow> A \<subseteq> known s \<Longrightarrow> good B s (op s)"
  by (simp add: triple_def)

lemma triple_weaken: "triple cfg A op B \<Longrightarrow> A \<subseteq> A' \<Longrightarrow> (\<And>x. B' x \<subseteq> B x \<union> A') \<Longrightarrow> triple cfg A' op B'"
proof (rule tripleI)
  fix s assume t: "triple cfg A op B" and sub: "A \<subseteq> A'" "\<And>x. B' x \<subseteq> B x \<union> A'"
    and s: "topo_ok s" "rb_cfg s = cfg" "A' \<subseteq> known s"
  from sub(1) s(3) have "A \<subseteq> known s" by blast
  from tripleD [OF t s(1,2) this] have g: "good B s (op s)" .
  then have "known s \<subseteq> known (snd (op s))" by (simp add: good_def frame_def)
  with g sub(2) s(3) show "good B' s (op s)" unfolding good_def by blast
qed

lemma triple_return: "B x \<subseteq> A \<Longrightarrow> triple cfg A (\<lambda>s. (Inr x, s)) B"
  unfolding triple_def good_def by auto

lemma triple_state: "(\<And>s. rb_cfg s = cfg \<Longrightarrow> triple cfg A (op s) B) \<Longrightarrow> triple cfg A (\<lambda>s. op s s) B"
  by (simp add: triple_def)

lemma triple_if: "(b \<Longrightarrow> triple cfg A f B) \<Longrightarrow> (\<not> b \<Longrightarrow> triple cfg A g B) \<Longrightarrow> triple cfg A (if b then f else g) B"
  by simp

lemma good_and_then:
  assumes "good B s (m s)" and "rb_cfg s = cfg" and "A \<subseteq> known s" and "\<And>x. triple cfg (A \<union> B x) (f x) C"
  shows "good C s (and_then m f s)"
proof -
  obtain r t where m: "m s = (r, t)" by (meson surj_pair)
  with assms(1) have t: "topo_ok t" "frame s t" "\<forall>x. r = Inr x \<longrightarrow> B x \<subseteq> known t"
    by (simp_all add: good_def)
  show ?thesis
  proof (cases r)
    case (Inl e)
    with m t show ?thesis by (simp add: good_def)
  next
    case (Inr x)
    have "rb_cfg t = cfg" "A \<union> B x \<subseteq> known t" using t assms(2,3) Inr by (auto simp: frame_def)
    from tripleD [OF assms(4) t(1) this] have "good C t (f x t)" .
    with m Inr t(2) show ?thesis unfolding good_def by (auto intro: frame_trans)
  qed
qed

lemma triple_and_then:
  "triple cfg A m B \<Longrightarrow> (\<And>x. triple cfg (A \<union> B x) (f x) C) \<Longrightarrow> triple cfg A (and_then m f) C"
  by (rule tripleI, rule good_and_then, rule tripleD)

lemma triple_swallow: "triple cfg A m B \<Longrightarrow> triple cfg A (swallow m) (\<lambda>_. {})"
  by (simp add: triple_def good_def swallow_def)

section \<open>Calls\<close>

lemma topo_ok_emit:
  assumes "topo_ok s" and "uses c \<subseteq> known s"
  shows "topo_ok (emit [c] s)"
proof -
  have k: "known s \<subseteq> known (emit [c] s)" by (simp add: known_emit)
  show ?thesis
    using assms k ordered_emit [OF _ assms(2)] consumer_ok_mono [OF _ k] unfolding topo_ok_def emit_sel by blast
qed

lemma triple_send:
  assumes "uses c \<subseteq> insert (Exchange (rc_exchange cfg)) A"
  shows "triple cfg A (rb_send c) (\<lambda>_. declares c)"
proof (rule tripleI)
  fix s assume s: "topo_ok s" "rb_cfg s = cfg" "A \<subseteq> known s"
  have "Exchange (rc_exchange cfg) \<in> known s" using s(2) by (simp add: known_def)
  with assms s(3) have "uses c \<subseteq> known s" by blast
  from topo_ok_emit [OF s(1) this] show "good (\<lambda>_. declares c) s (rb_send c s)"
    by (auto simp: good_def rb_send_def frame_def known_emit split: option.splits)
qed

text \<open>A list of calls that declares what it uses, given \<open>A\<close>.\<close>

primrec covered :: "resource set \<Rightarrow> rb_call list \<Rightarrow> bool" where
  "covered A [] \<longleftrightarrow> True"
| "covered A (c # cs) \<longleftrightarrow> uses c \<subseteq> A \<and> covered (A \<union> declares c) cs"

lemma triple_does:
  "covered (insert (Exchange (rc_exchange cfg)) A) cs \<Longrightarrow> triple cfg A (does cs) (\<lambda>_. \<Union> (declares ` set cs))"
proof (induction cs arbitrary: A)
  case Nil
  show ?case by (simp add: does.simps triple_return)
next
  case (Cons c cs)
  from Cons.prems have c: "uses c \<subseteq> insert (Exchange (rc_exchange cfg)) A"
    and cs: "covered (insert (Exchange (rc_exchange cfg)) (A \<union> declares c)) cs" by simp_all
  have "triple cfg (A \<union> declares c) (does cs) (\<lambda>_. \<Union> (declares ` set (c # cs)))"
    by (rule triple_weaken [OF Cons.IH [OF cs]]) auto
  with triple_send [OF c] show ?case unfolding does.simps by (rule triple_and_then)
qed

section \<open>Bookkeeping\<close>

lemma known_update [simp]:
  "known (s\<lparr>rb_model := m\<rparr>) = known s" "known (s\<lparr>rb_channel := c\<rparr>) = known s"
  "known (s\<lparr>rb_nextChannel := n\<rparr>) = known s" "known (s\<lparr>rb_now := at\<rparr>) = known s"
  "known (s\<lparr>rb_draws := n\<rparr>) = known s" "known (s\<lparr>rb_topology := ds\<rparr>) = known s"
  "known (s\<lparr>rb_busTopology := ds\<rparr>) = known s" "known (s\<lparr>rb_hashTopology := ds\<rparr>) = known s"
  "known (s\<lparr>rb_consumers := ks\<rparr>) = known s"
  by (simp_all add: known_def)

lemma topo_ok_update [simp]:
  "topo_ok (s\<lparr>rb_model := m\<rparr>) = topo_ok s" "topo_ok (s\<lparr>rb_channel := c\<rparr>) = topo_ok s"
  "topo_ok (s\<lparr>rb_nextChannel := n\<rparr>) = topo_ok s" "topo_ok (s\<lparr>rb_now := at\<rparr>) = topo_ok s"
  "topo_ok (s\<lparr>rb_draws := n\<rparr>) = topo_ok s"
  by (simp_all add: topo_ok_def ordered_def)

lemma topo_ok_insert:
  "topo_ok s \<Longrightarrow> {Exchange (topicExchange t), Exchange (fanoutExchange t)} \<subseteq> known s \<Longrightarrow>
     topo_ok (s\<lparr>rb_busTopology := insert t (rb_busTopology s)\<rparr>)"
  "topo_ok s \<Longrightarrow> Exchange (hashExchange t) \<in> known s \<Longrightarrow>
     topo_ok (s\<lparr>rb_hashTopology := insert t (rb_hashTopology s)\<rparr>)"
  "topo_ok s \<Longrightarrow> Queue (queueName d) \<in> known s \<Longrightarrow> topo_ok (s\<lparr>rb_topology := insert d (rb_topology s)\<rparr>)"
  "topo_ok s \<Longrightarrow> consumer_ok (known s) k \<Longrightarrow> topo_ok (s\<lparr>rb_consumers := rb_consumers s @ [k]\<rparr>)"
  by (auto simp: topo_ok_def ordered_def)

lemma triple_theChannel: "triple cfg A theChannel (\<lambda>_. {})"
  by (auto simp: triple_def good_def theChannel_def split: option.splits)

lemma triple_ensureModel: "triple cfg A ensureModel (\<lambda>_. {})"
proof (rule tripleI)
  fix s assume s: "topo_ok s" "rb_cfg s = cfg" "A \<subseteq> known s"
  have "triple cfg A (and_then (rb_send (RConnect (rc_url (rb_cfg s)))) (\<lambda>_ s. (Inr (), s\<lparr>rb_model := True\<rparr>))) (\<lambda>_. {})"
    by (rule triple_and_then [OF triple_send]) (auto simp: triple_def good_def frame_def)
  from tripleD [OF this s] s(1) show "good (\<lambda>_. {}) s (ensureModel s)"
    by (simp add: ensureModel_def good_def)
qed

lemma triple_createChannel: "triple cfg A createChannel (\<lambda>_. {})"
  unfolding createChannel_def Let_def
  by (rule triple_state, rule triple_and_then [OF triple_send]) (auto simp: triple_def good_def frame_def)

lemma good_assignChannel:
  assumes "topo_ok s" and "rb_channel s = None"
  shows "good (\<lambda>_. {}) s (assignChannel s)"
  using topo_ok_emit [OF assms(1), of "RCreateChannel (rb_nextChannel s)"] assms
  by (cases "rb_refuses s (length (rb_log s))")
    (simp_all add: good_def assignChannel_def createChannel_def rb_send_def and_then_def frame_def known_emit Let_def)

lemma triple_quiet: "\<forall>c \<in> set cs. uses c = {} \<Longrightarrow> triple cfg A (does cs) (\<lambda>_. {})"
proof -
  have "covered X cs" if "\<forall>c \<in> set cs. uses c = {}" for X cs
    using that by (induction cs arbitrary: X) auto
  then show "\<forall>c \<in> set cs. uses c = {} \<Longrightarrow> triple cfg A (does cs) (\<lambda>_. {})"
    by (intro triple_weaken [OF triple_does]) auto
qed

text \<open>A list of calls that only uses what there is, and whose declarations nobody waits for.\<close>

lemma triple_use:
  "covered (insert (Exchange (rc_exchange cfg)) A) cs \<Longrightarrow> triple cfg A (does cs) (\<lambda>_. {})"
  by (rule triple_weaken [OF triple_does]) auto

lemma triple_use_state:
  "(\<And>s. rb_cfg s = cfg \<Longrightarrow> covered (insert (Exchange (rc_exchange cfg)) A) (C s)) \<Longrightarrow>
     triple cfg A (\<lambda>s. does (C s) s) (\<lambda>_. {})"
  by (rule triple_state [where op = "\<lambda>s. does (C s)"], rule triple_use)

lemma triple_cond:
  "(b \<Longrightarrow> triple cfg A f B) \<Longrightarrow> (\<not> b \<Longrightarrow> triple cfg A g B) \<Longrightarrow> triple cfg A (\<lambda>s. if b then f s else g s) B"
  by (cases b) simp_all

lemma triple_ensureChannel: "triple cfg A ensureChannel (\<lambda>_. {})"
  unfolding ensureChannel_def
proof (rule triple_and_then [OF triple_ensureModel], rule tripleI)
  fix u :: unit and s assume s: "topo_ok s" "rb_cfg s = cfg" "A \<union> {} \<subseteq> known s"
  show "good (\<lambda>_. {}) s (case rb_channel s of Some ch \<Rightarrow> (Inr ch, s)
     | None \<Rightarrow> and_then assignChannel (\<lambda>ch. and_then (does [RPrefetch ch 1]) (\<lambda>_ s. (Inr ch, s))) s)"
  proof (cases "rb_channel s")
    case None
    have "good (\<lambda>_. {}) s (and_then assignChannel (\<lambda>ch. and_then (does [RPrefetch ch 1]) (\<lambda>_ s. (Inr ch, s))) s)"
    proof (rule good_and_then [where m = assignChannel and B = "\<lambda>_. {}"])
      show "good (\<lambda>_. {}) s (assignChannel s)" by (rule good_assignChannel [OF s(1) None])
      show "rb_cfg s = cfg" "A \<union> {} \<subseteq> known s" using s by simp_all
      show "triple cfg (A \<union> {} \<union> {}) (and_then (does [RPrefetch ch 1]) (\<lambda>_ s. (Inr ch, s))) (\<lambda>_. {})" for ch
        by (intro triple_and_then [OF triple_quiet] triple_return) auto
    qed
    with None show ?thesis by simp
  next
    case (Some ch)
    with s(1) show ?thesis by (simp add: good_def)
  qed
qed

lemma triple_openChannel: "triple cfg A (openChannel qos) (\<lambda>_. {})"
proof (rule tripleI)
  fix s assume s: "topo_ok s" "rb_cfg s = cfg" "A \<subseteq> known s"
  have "triple cfg A (and_then createChannel (\<lambda>ch. and_then (does [RPrefetch ch qos]) (\<lambda>_ s. (Inr ch, s)))) (\<lambda>_. {})"
    by (intro triple_and_then [OF triple_createChannel] triple_and_then [OF triple_quiet] triple_return) auto
  from tripleD [OF this s] s(1) show "good (\<lambda>_. {}) s (openChannel qos s)"
    by (simp add: openChannel_def good_def)
qed

section \<open>Declarations\<close>

lemma triple_remember:
  "Exchange (topicExchange t) \<in> A \<Longrightarrow> Exchange (fanoutExchange t) \<in> A \<Longrightarrow> B x \<subseteq> A \<Longrightarrow>
     triple cfg A (\<lambda>s. (Inr x, s\<lparr>rb_busTopology := insert t (rb_busTopology s)\<rparr>)) B"
  "Exchange (hashExchange t) \<in> A \<Longrightarrow> B x \<subseteq> A \<Longrightarrow>
     triple cfg A (\<lambda>s. (Inr x, s\<lparr>rb_hashTopology := insert t (rb_hashTopology s)\<rparr>)) B"
  "Queue (queueName d) \<in> A \<Longrightarrow> C y \<subseteq> A \<Longrightarrow>
     triple cfg A (\<lambda>s. (Inr y, s\<lparr>rb_topology := insert d (rb_topology s)\<rparr>)) C"
  unfolding triple_def good_def frame_def by (auto intro!: topo_ok_insert)

lemma dead_letter_target_durable [simp]: "dead_letter_target durable = {}"
  by (simp add: dead_letter_target_def durable_def)

definition bus_exchanges :: "destination \<Rightarrow> resource set" where
  "bus_exchanges t = {Exchange (topicExchange t), Exchange (fanoutExchange t)}"

text \<open>What a cache names is known; what it does not name is declared before it is remembered.\<close>

lemma triple_ensureBusExchanges: "triple cfg A (ensureBusExchanges t) (\<lambda>_. bus_exchanges t)"
proof (rule tripleI)
  fix s assume s: "topo_ok s" "rb_cfg s = cfg" "A \<subseteq> known s"
  have "triple cfg A (and_then theChannel (\<lambda>ch.
      and_then (does [RAssertExchange ch (topicExchange t) ''topic'' durable,
          RAssertExchange ch (fanoutExchange t) ''fanout'' durable])
        (\<lambda>_ s. (Inr (), s\<lparr>rb_busTopology := insert t (rb_busTopology s)\<rparr>)))) (\<lambda>_. bus_exchanges t)"
    by (intro triple_and_then [OF triple_theChannel] triple_and_then [OF triple_does]
        triple_remember) (simp_all add: bus_exchanges_def)
  from tripleD [OF this s] s(1) show "good (\<lambda>_. bus_exchanges t) s (ensureBusExchanges t s)"
    by (simp add: ensureBusExchanges_def good_def topo_ok_def bus_exchanges_def)
qed

lemma triple_ensureHashExchange: "triple cfg A (ensureHashExchange t) (\<lambda>_. {Exchange (hashExchange t)})"
proof (rule tripleI)
  fix s assume s: "topo_ok s" "rb_cfg s = cfg" "A \<subseteq> known s"
  have "triple cfg A (and_then theChannel (\<lambda>ch.
      and_then (does [RAssertExchange ch (hashExchange t) ''x-consistent-hash'' durable])
        (\<lambda>_ s. (Inr (), s\<lparr>rb_hashTopology := insert t (rb_hashTopology s)\<rparr>)))) (\<lambda>_. {Exchange (hashExchange t)})"
    by (intro triple_and_then [OF triple_theChannel] triple_and_then [OF triple_does]
        triple_remember) simp_all
  from tripleD [OF this s] s(1) show "good (\<lambda>_. {Exchange (hashExchange t)}) s (ensureHashExchange t s)"
    by (simp add: ensureHashExchange_def good_def topo_ok_def)
qed

lemma triple_ensureTopology: "triple cfg A (ensureTopology d) (\<lambda>q. {Queue q})"
proof (rule tripleI)
  fix s assume s: "topo_ok s" "rb_cfg s = cfg" "A \<subseteq> known s"
  have "triple cfg A (and_then theChannel (\<lambda>ch s.
      and_then (does [RAssertQueue ch (queueName d) durable,
          RBindQueue ch (queueName d) (rc_exchange (rb_cfg s)) d])
        (\<lambda>_ s. (Inr (queueName d), s\<lparr>rb_topology := insert d (rb_topology s)\<rparr>)) s)) (\<lambda>q. {Queue q})"
    by (rule triple_and_then [OF triple_theChannel], rule triple_state,
        intro triple_and_then [OF triple_does] triple_remember) simp_all
  from tripleD [OF this s] s(1) show "good (\<lambda>q. {Queue q}) s (ensureTopology d s)"
    by (simp add: ensureTopology_def good_def topo_ok_def Let_def)
qed

lemma triple_add_consumer:
  assumes "Queue q \<in> A"
    and "\<And>t r. mode = BusConsumer t (Some r) \<Longrightarrow> Exchange (rr_dlaExchange r) \<in> A"
  shows "triple cfg A (add_rb_consumer ch q mode h opts) (\<lambda>_. {})"
proof -
  have ok: "consumer_ok (known s) \<lparr>rk_channel = ch, rk_queue = q, rk_mode = mode, rk_handler = h\<rparr>" if "A \<subseteq> known s" for s
    using assms that by (auto simp: consumer_ok_def split: consumer_mode.splits option.splits)
  then have "triple cfg A (\<lambda>s. (Inr (length (rb_consumers s)), s\<lparr>rb_consumers := rb_consumers s @
      [\<lparr>rk_channel = ch, rk_queue = q, rk_mode = mode, rk_handler = h\<rparr>]\<rparr>)) (\<lambda>_. {})"
    by (auto simp: triple_def good_def frame_def intro!: topo_ok_insert)
  then show ?thesis
    unfolding add_rb_consumer_def using assms(1)
    by (intro triple_and_then [OF triple_does]) (simp_all add: insert_absorb)
qed

section \<open>Operations\<close>

lemma triple_rb_connect: "triple cfg A rb_connect (\<lambda>_. {})"
  unfolding rb_connect_def
  by (rule triple_and_then [OF triple_ensureChannel], rule triple_use_state) simp

lemma triple_rb_connectBus: "triple cfg A rb_connectBus (\<lambda>_. {})"
  unfolding rb_connectBus_def by (intro triple_and_then [OF triple_ensureChannel] triple_return) simp

lemma triple_rb_dispose: "triple cfg A rb_dispose (\<lambda>_. {})"
  unfolding rb_dispose_def by (rule triple_use_state) (auto split: option.splits)

lemma triple_rb_sendNow: "triple cfg A (rb_sendNow d p) (\<lambda>_. {})"
  unfolding rb_sendNow_def
  by (intro triple_and_then [OF triple_ensureTopology] triple_and_then [OF triple_theChannel] triple_use_state) simp

lemma triple_rb_schedule: "triple cfg A (rb_schedule rand d p at) (\<lambda>_. {})"
proof -
  have "triple cfg A' (\<lambda>s. let delay = max 0 (at - rb_now s);
           sid = ''rmq-'' @ show_int (rb_now s) @ ''-'' @ rand (rb_draws s);
           props = JObj [(''persistent'', JBool True),
             (''headers'', JObj [(''x-delay'', JNum delay), (''scheduleId'', JStr sid)])]
       in and_then (does [RPublish ch (rc_exchange (rb_cfg s)) d p props]) (\<lambda>_ s.
            (Inr \<lparr>sh_id = sid, sh_destination = d, sh_deliverAt = at\<rparr>, s))
            (s\<lparr>rb_draws := Suc (rb_draws s)\<rparr>)) (\<lambda>_. {})" for ch A'
  proof (rule tripleI)
    fix s assume s: "topo_ok s" "rb_cfg s = cfg" "A' \<subseteq> known s"
    let ?sid = "''rmq-'' @ show_int (rb_now s) @ ''-'' @ rand (rb_draws s)"
    let ?props = "JObj [(''persistent'', JBool True),
             (''headers'', JObj [(''x-delay'', JNum (max 0 (at - rb_now s))), (''scheduleId'', JStr ?sid)])]"
    let ?m = "and_then (does [RPublish ch (rc_exchange (rb_cfg s)) d p ?props]) (\<lambda>_ s.
            (Inr \<lparr>sh_id = ?sid, sh_destination = d, sh_deliverAt = at\<rparr>, s))"
    have "triple cfg A' ?m (\<lambda>_. {})"
      using s(2) by (intro triple_and_then [OF triple_does] triple_return) simp_all
    from tripleD [OF this, of "s\<lparr>rb_draws := Suc (rb_draws s)\<rparr>"] s
    have g: "good (\<lambda>_. {}) (s\<lparr>rb_draws := Suc (rb_draws s)\<rparr>) (?m (s\<lparr>rb_draws := Suc (rb_draws s)\<rparr>))" by simp
    have "frame s t" if "frame (s\<lparr>rb_draws := n\<rparr>) t" for t n using that by (simp add: frame_def)
    with g show "good (\<lambda>_. {}) s (let delay = max 0 (at - rb_now s);
           sid = ''rmq-'' @ show_int (rb_now s) @ ''-'' @ rand (rb_draws s);
           props = JObj [(''persistent'', JBool True),
             (''headers'', JObj [(''x-delay'', JNum delay), (''scheduleId'', JStr sid)])]
       in and_then (does [RPublish ch (rc_exchange (rb_cfg s)) d p props]) (\<lambda>_ s.
            (Inr \<lparr>sh_id = sid, sh_destination = d, sh_deliverAt = at\<rparr>, s))
            (s\<lparr>rb_draws := Suc (rb_draws s)\<rparr>))"
      unfolding good_def Let_def by blast
  qed
  then show ?thesis
    unfolding rb_schedule_def
    by (intro triple_and_then [OF triple_ensureTopology] triple_and_then [OF triple_theChannel])
qed

lemma triple_rb_consume: "triple cfg A (rb_consume d h) (\<lambda>_. {})"
  unfolding rb_consume_def
  by (intro triple_and_then [OF triple_ensureTopology] triple_and_then [OF triple_theChannel] triple_add_consumer) auto

lemma triple_rb_unsubscribe: "triple cfg A (rb_unsubscribe tag i) (\<lambda>_. {})"
proof (rule tripleI)
  fix s assume s: "topo_ok s" "rb_cfg s = cfg" "A \<subseteq> known s"
  have "triple cfg A (and_then theChannel (\<lambda>ch. does [RCancel ch (tag i)])) (\<lambda>_. {})"
    by (intro triple_and_then [OF triple_theChannel] triple_use) simp
  moreover have "triple cfg A (swallow (does [RClose ch])) (\<lambda>_. {})" for ch
    by (rule triple_swallow [where B = "\<lambda>_. {}"], rule triple_use) simp
  ultimately show "good (\<lambda>_. {}) s (rb_unsubscribe tag i s)"
    using s unfolding rb_unsubscribe_def Let_def by (auto dest: tripleD split: consumer_mode.split)
qed

lemma triple_rb_publish: "triple cfg A (rb_publish t p rk opts) (\<lambda>_. {})"
proof -
  have hash: "triple cfg A' (and_then (ensureHashExchange t) (\<lambda>_. does [RPublish ch (hashExchange t) g p props])) (\<lambda>_. {})"
    for A' ch g props
    by (intro triple_and_then [OF triple_ensureHashExchange] triple_use) simp
  show ?thesis
    unfolding rb_publish_def
    by (intro triple_and_then [OF triple_ensureBusExchanges] triple_and_then [OF triple_theChannel]
        triple_and_then [OF triple_does] triple_cond hash triple_return) (simp_all add: bus_exchanges_def)
qed

section \<open>Subscribing\<close>

lemma triple_subscribeStreamReplay:
  assumes "Exchange (topicExchange t) \<in> A"
  shows "triple cfg A (subscribeStreamReplay t h) (\<lambda>_. {})"
  unfolding subscribeStreamReplay_def Let_def
  by (intro triple_and_then [OF triple_openChannel] triple_and_then [OF triple_does] triple_add_consumer)
    (use assms in \<open>auto simp: dead_letter_target_def\<close>)

lemma triple_bus_queue_name: "triple cfg A (bus_queue_name rand t options) (\<lambda>_. {})"
  by (rule tripleI) (simp add: bus_queue_name_def good_def frame_def split: option.split)

definition dead_letter_exchanges :: "destination \<Rightarrow> SubscribeOptions \<Rightarrow> resource set" where
  "dead_letter_exchanges t options =
     (if coalesce (so_deadLetter options) False then bus_exchanges (deadLetterAddress t) else {})"

lemma retryEnabled_deadLetter: "retryEnabled options \<Longrightarrow> coalesce (so_deadLetter options) False"
  by (simp add: retryEnabled_def)

lemma retry_queue_target [simp]: "dead_letter_target (retryQueueArgs queue options) = {}"
  by (simp add: dead_letter_target_def retryQueueArgs_def)

lemma triple_declareDeadLetter:
  "triple cfg A (declareDeadLetter ch t queue options) (\<lambda>_. dead_letter_exchanges t options)"
proof -
  have retry: "triple cfg A (and_then (ensureBusExchanges (deadLetterAddress t)) (\<lambda>_.
      does [RAssertQueue ch (retryQueue queue) (retryQueueArgs queue options)])) (\<lambda>_. bus_exchanges (deadLetterAddress t))"
    by (rule triple_and_then [OF triple_ensureBusExchanges], rule triple_weaken [OF triple_use [of cfg A]]) auto
  show ?thesis
    using retry triple_ensureBusExchanges [of cfg A "deadLetterAddress t"] retryEnabled_deadLetter [of options]
      triple_return [of "\<lambda>_. {}" "()" A cfg]
    by (auto simp: declareDeadLetter_def dead_letter_exchanges_def)
qed

lemma queue_target:
  "dead_letter_target (JObj [(''durable'', JBool True), (''arguments'', JObj (queueArgs t queue options))]) \<subseteq>
     dead_letter_exchanges t options \<union>
     (if so_ttlMs options \<noteq> None then bus_exchanges (expiryAddress t) else {})"
  using rabbit_dead_letter_exchange [of t queue options]
  by (auto simp: dead_letter_target_def bus_exchanges_def dead_letter_exchanges_def split: if_splits)

lemma triple_transientSubscribe:
  assumes "Exchange (topicExchange t) \<in> A"
  shows "triple cfg A (transientSubscribe ch t queue h options) (\<lambda>_. {})"
  unfolding transientSubscribe_def
  by (intro triple_and_then [OF triple_does] triple_add_consumer)
    (use assms in \<open>auto simp: dead_letter_target_def\<close>)

lemma triple_bindMain:
  assumes "bus_exchanges t \<subseteq> A" and "Queue queue \<in> A"
  shows "triple cfg A (bindMain ch t queue options) (\<lambda>_. {})"
proof -
  have hash: "triple cfg A (and_then (ensureHashExchange t) (\<lambda>_. does [RBindQueue ch queue (hashExchange t) ''1'']))
      (\<lambda>_. {})"
    by (intro triple_and_then [OF triple_ensureHashExchange] triple_use) (use assms(2) in simp)
  have "triple cfg A (does [RBindQueue ch queue (fanoutExchange t) []]) (\<lambda>_. {})"
    "triple cfg A (does [RBindQueue ch queue (topicExchange t) k]) (\<lambda>_. {})" for k
    using assms by (auto intro!: triple_use simp: bus_exchanges_def)
  with hash show ?thesis by (simp add: bindMain_def)
qed

lemma triple_durableSubscribe:
  assumes "bus_exchanges t \<subseteq> A" and "dead_letter_exchanges t options \<subseteq> A"
  shows "triple cfg A (durableSubscribe ch t queue h options) (\<lambda>_. {})"
proof -
  let ?E = "if so_ttlMs options \<noteq> None then bus_exchanges (expiryAddress t) else {}"
  let ?q = "RAssertQueue ch queue (JObj [(''durable'', JBool True), (''arguments'', JObj (queueArgs t queue options))])"
  have expiry: "triple cfg A (if so_ttlMs options \<noteq> None then ensureBusExchanges (expiryAddress t)
      else (\<lambda>s. (Inr (), s))) (\<lambda>_. ?E)"
    using triple_ensureBusExchanges triple_return [of "\<lambda>_. {}" "()" A cfg] by simp
  have queue: "triple cfg (A \<union> ?E) (does [?q]) (\<lambda>_. {Queue queue})"
  proof (rule triple_weaken [OF triple_does])
    have "uses ?q \<subseteq> dead_letter_exchanges t options \<union> ?E"
      using queue_target [of t queue options] by (simp only: uses.simps)
    then have "uses ?q \<subseteq> insert (Exchange (rc_exchange cfg)) (A \<union> ?E)" using assms(2) by blast
    then show "covered (insert (Exchange (rc_exchange cfg)) (A \<union> ?E)) [?q]" by simp
  qed auto
  have add: "triple cfg A' (add_rb_consumer ch queue (BusConsumer t (retryOf t queue options)) h noAck_false) (\<lambda>_. {})"
    if "A \<subseteq> A'" "Queue queue \<in> A'" for A'
    using that assms(2)
    by (intro triple_add_consumer)
      (auto simp: retryOf_def dead_letter_exchanges_def bus_exchanges_def retryEnabled_deadLetter split: if_splits)
  show ?thesis
    unfolding durableSubscribe_def
    by (intro triple_and_then [OF expiry] triple_and_then [OF queue] triple_and_then [OF triple_bindMain] add)
      (use assms in auto)
qed

lemma triple_rb_subscribe: "triple cfg A (rb_subscribe rand t h opts) (\<lambda>_. {})"
  unfolding rb_subscribe_def Let_def
  by (intro triple_and_then [OF triple_ensureBusExchanges] triple_if triple_and_then [OF triple_bus_queue_name]
      triple_and_then [OF triple_openChannel] triple_and_then [OF triple_declareDeadLetter]
      triple_subscribeStreamReplay triple_transientSubscribe triple_durableSubscribe)
    (auto simp: bus_exchanges_def)

section \<open>Runs\<close>

text \<open>
  A run of the adapter: port operations one after the other, whatever becomes of each, while time passes.
  \<open>cancel\<close> and \<open>listScheduled\<close> change nothing.
\<close>

inductive rabbit_run :: "(nat \<Rightarrow> string) \<Rightarrow> (nat \<Rightarrow> string) \<Rightarrow> RabbitMq \<Rightarrow> RabbitMq \<Rightarrow> bool"
  for rand tag s0 where
  run_start: "rabbit_run rand tag s0 s0"
| run_time: "rabbit_run rand tag s0 s \<Longrightarrow> rabbit_run rand tag s0 (s\<lparr>rb_now := at\<rparr>)"
| run_connect: "rabbit_run rand tag s0 s \<Longrightarrow> rabbit_run rand tag s0 (snd (rb_connect s))"
| run_connectBus: "rabbit_run rand tag s0 s \<Longrightarrow> rabbit_run rand tag s0 (snd (rb_connectBus s))"
| run_sendNow: "rabbit_run rand tag s0 s \<Longrightarrow> rabbit_run rand tag s0 (snd (rb_sendNow d p s))"
| run_schedule: "rabbit_run rand tag s0 s \<Longrightarrow> rabbit_run rand tag s0 (snd (rb_schedule rand d p at s))"
| run_consume: "rabbit_run rand tag s0 s \<Longrightarrow> rabbit_run rand tag s0 (snd (rb_consume d h s))"
| run_publish: "rabbit_run rand tag s0 s \<Longrightarrow> rabbit_run rand tag s0 (snd (rb_publish t p rk opts s))"
| run_subscribe: "rabbit_run rand tag s0 s \<Longrightarrow> rabbit_run rand tag s0 (snd (rb_subscribe rand t h sopts s))"
| run_unsubscribe: "rabbit_run rand tag s0 s \<Longrightarrow> i < length (rb_consumers s) \<Longrightarrow>
    rabbit_run rand tag s0 (snd (rb_unsubscribe tag i s))"
| run_dispose: "rabbit_run rand tag s0 s \<Longrightarrow> rabbit_run rand tag s0 (snd (rb_dispose s))"

lemmas rabbit_triples = triple_rb_connect triple_rb_connectBus triple_rb_sendNow triple_rb_schedule triple_rb_consume
  triple_rb_publish triple_rb_subscribe triple_rb_unsubscribe triple_rb_dispose

lemma triple_step:
  "triple (rb_cfg s) {} op (\<lambda>_. {}) \<Longrightarrow> topo_ok s \<and> frame s0 s \<Longrightarrow> topo_ok (snd (op s)) \<and> frame s0 (snd (op s))"
  using tripleD [of "rb_cfg s" "{}" op "\<lambda>_. {}" s] frame_trans [of s0 s] by (simp add: good_def)

lemma rabbit_run_ok:
  assumes "rabbit_run rand tag s0 s" and "topo_ok s0"
  shows "topo_ok s \<and> frame s0 s"
  using assms(1)
proof induction
  case run_start
  show ?case using assms(2) by simp
next
  case (run_time s at)
  then show ?case by (simp add: frame_def)
qed (rule triple_step, rule rabbit_triples, assumption)+

lemma topo_ok_init: "topo_ok ((rabbit_init cfg)\<lparr>rb_refuses := f\<rparr>)"
  by (simp add: topo_ok_def ordered_def rabbit_init_def)


text \<open>The broker refuses the declaration of the fanout exchange once; the publisher tries again.\<close>

definition refused_once :: RabbitMq where
  "refused_once =
     (let s0 = (rabbit_init (rabbitConfigFromEnv Map.empty))\<lparr>rb_refuses := (\<lambda>n. if n = 4 then Some (Error ''closed'') else None)\<rparr>
      in snd (rb_publish ''t'' ''x'' None None (snd (rb_publish ''t'' ''x'' None None (snd (rb_connectBus s0))))))"


text \<open>Once a channel is assigned it is never replaced: in every later state the adapter still has it, also when the
broker has closed it and refuses every call.\<close>

theorem rabbit_channel_never_replaced:
  assumes "rabbit_run rand tag s0 s" and "topo_ok s0" and "rb_channel s0 = Some ch"
  shows "rb_channel s = Some ch"
  using rabbit_run_ok [OF assms(1,2)] assms(3) by (simp add: frame_def)

end
