(* ===== verification/Artemis.thy ===== *)
theory Artemis
  imports Decorators Js_Value Settlement_Port
begin

text \<open>
  The ActiveMQ Artemis adapter: \<open>adapters/artemis.ts\<close> and its management client
  \<open>adapters/artemis-jolokia.ts\<close>.

  What the adapter does is the sequence of calls on rhea links (\<open>ar_log\<close>); links are numbered in order of
  creation, and the environment may close a link (\<open>ar_closed\<close>) or the connection (\<open>ar_open\<close>) at any time.
  The broker and the HTTP management endpoint are outside: the endpoint is the parameter \<open>post\<close>, random
  suffixes are \<open>rand\<close>. A call whose event is awaited (opening the connection or a link) fails when an
  error event comes first: \<open>ar_refuses n\<close> is the error the \<open>n\<close>-th call of the log then fails with; that one
  of the events arrives is taken for granted. Sending and closing is not awaited.
\<close>

section \<open>Configuration and state\<close>

definition DEFAULT_DLA :: string where "DEFAULT_DLA = ''mbc.DLQ''"
definition DEFAULT_EXPIRY :: string where "DEFAULT_EXPIRY = ''mbc.EXPIRY''"
definition ROUTING_KEY_PROP :: string where "ROUTING_KEY_PROP = ''routingKey''"
definition ARTEMIS_GROUP_ID :: string where "ARTEMIS_GROUP_ID = ''_AMQ_GROUP_ID''"
definition ARTEMIS_DUPL_ID :: string where "ARTEMIS_DUPL_ID = ''_AMQ_DUPL_ID''"
definition SCHEDULE_ID :: string where "SCHEDULE_ID = ''scheduleId''"
definition DELIVERY_TIME_ANNOTATION :: string where "DELIVERY_TIME_ANNOTATION = ''x-opt-delivery-time''"

record ArtemisConfig =
  ac_host :: string
  ac_port :: string
  ac_username :: string
  ac_password :: string
  ac_jolokiaUrl :: string
  ac_dla :: string
  ac_expiry :: string

text \<open>The port stays the text of the environment variable; the source converts it with \<open>Number\<close>.\<close>

definition artemisConfigFromEnv :: "(string \<rightharpoonup> string) \<Rightarrow> ArtemisConfig" where
  "artemisConfigFromEnv env =
     (let host = coalesce (env ''ARTEMIS_HOST'') ''localhost''
      in \<lparr>ac_host = host, ac_port = coalesce (env ''ARTEMIS_PORT'') ''5672'',
          ac_username = coalesce (env ''ARTEMIS_USER'') ''admin'',
          ac_password = coalesce (env ''ARTEMIS_PASSWORD'') ''admin'',
          ac_jolokiaUrl = coalesce (env ''ARTEMIS_JOLOKIA_URL'') (''http://'' @ host @ '':8161/console/jolokia''),
          ac_dla = coalesce (env ''ARTEMIS_DLA'') DEFAULT_DLA,
          ac_expiry = coalesce (env ''ARTEMIS_EXPIRY'') DEFAULT_EXPIRY\<rparr>)"

text \<open>An AMQP message as the adapter fills it in.\<close>

record AmqpMessage =
  am_body :: js_value
  am_application_properties :: "(string \<times> js_value) list"
  am_message_annotations :: "(string \<times> js_value) list"
  am_group_id :: js_value
  am_priority :: "int option"
  am_reply_to :: js_value
  am_correlation_id :: js_value
  am_ttl :: "int option"
  am_message_id :: js_value
  am_delivery_count :: "nat option"

definition amqp_message :: "string \<Rightarrow> AmqpMessage" where
  "amqp_message body = \<lparr>am_body = JStr body, am_application_properties = [], am_message_annotations = [],
     am_group_id = Undef, am_priority = None, am_reply_to = Undef, am_correlation_id = Undef, am_ttl = None,
     am_message_id = Undef, am_delivery_count = None\<rparr>"

datatype art_call =
    AConnect string string
  | AOpenSender nat string string
  | ASend nat AmqpMessage
  | AOpenReceiver nat string string "string option" bool
  | ACloseLink nat
  | ACloseConnection

record Artemis =
  ar_cfg :: ArtemisConfig
  ar_connection :: bool
  ar_open :: bool
  ar_senders :: "(string \<times> nat) list"
  ar_busSenders :: "(string \<times> nat) list"
  ar_closed :: "nat set"
  ar_nextLink :: nat
  ar_now :: millis
  ar_draws :: nat
  ar_log :: "art_call list"
  ar_refuses :: "nat \<Rightarrow> js_error option"

definition artemis_init :: "ArtemisConfig \<Rightarrow> Artemis" where
  "artemis_init cfg = \<lparr>ar_cfg = cfg, ar_connection = False, ar_open = False, ar_senders = [],
     ar_busSenders = [], ar_closed = {}, ar_nextLink = 0, ar_now = 0, ar_draws = 0, ar_log = [],
     ar_refuses = (\<lambda>_. None)\<rparr>"

definition artemis_name :: string where
  "artemis_name = ''Apache ActiveMQ Artemis''"

definition artemis_busCapabilities :: BusCapabilities where
  "artemis_busCapabilities = \<lparr>supportsTopic = True, supportsFanout = True, supportsManualAck = True,
     supportsDeadLetter = True, reportsDeliveryCount = True, supportsDedup = True,
     supportsStreamReplay = False, supportsMessageGroups = Some True\<rparr>"

definition artemis_capabilities :: Capabilities where
  "artemis_capabilities = \<lparr>cap_protocol = ''AMQP 1.0'', cap_nativeScheduling = True,
     cap_supportsCancel = True, cap_supportsList = True, cap_bus = Some artemis_busCapabilities\<rparr>"

type_synonym 'r artemis_op = "Artemis \<Rightarrow> (js_error + 'r) \<times> Artemis"

definition art_log :: "art_call list \<Rightarrow> Artemis \<Rightarrow> Artemis" where
  "art_log cs s = s\<lparr>ar_log := ar_log s @ cs\<rparr>"

text \<open>A call and the event it waits for.\<close>

definition art_await :: "art_call \<Rightarrow> unit artemis_op" where
  "art_await c s =
     (case ar_refuses s (length (ar_log s)) of
        None \<Rightarrow> (Inr (), art_log [c] s)
      | Some e \<Rightarrow> (Inl e, art_log [c] s))"

section \<open>Links\<close>

text \<open>The connection is assigned before it is open.\<close>

definition ensureConnection :: "unit artemis_op" where
  "ensureConnection s =
     (if ar_connection s \<and> ar_open s then (Inr (), s)
      else and_then (art_await (AConnect (ac_host (ar_cfg s)) (ac_port (ar_cfg s))))
             (\<lambda>_ s. (Inr (), s\<lparr>ar_open := True\<rparr>)) (s\<lparr>ar_connection := True, ar_open := False\<rparr>))"

definition art_connect :: "unit artemis_op" where
  "art_connect = ensureConnection"

definition art_connectBus :: "unit artemis_op" where
  "art_connectBus = ensureConnection"

text \<open>
  \<open>once\<close>: the promise of the first event of three. An event is its name with the error it carries; what is fired
  when nobody listens is nothing to the promise. That the awaited event is the one that comes is what the operations
  above and below rely on.
\<close>

record Once =
  oc_listening :: bool
  oc_result :: "(js_error + unit) option"

definition once :: Once where
  "once = \<lparr>oc_listening = True, oc_result = None\<rparr>"

definition once_fire :: "string \<Rightarrow> string \<times> js_error option \<Rightarrow> Once \<Rightarrow> Once" where
  "once_fire event = (\<lambda>(name, carried) p.
     if \<not> oc_listening p then p
     else if name = event then \<lparr>oc_listening = False, oc_result = Some (Inr ())\<rparr>
     else if name = ''connection_error'' \<or> name = ''error'' then
       \<lparr>oc_listening = False, oc_result = Some (Inl (coalesce carried (Error (''error on '' @ [CHR 0x27] @ event @ [CHR 0x27]))))\<rparr>
     else p)"

definition once_relevant :: "string \<Rightarrow> string \<times> js_error option \<Rightarrow> bool" where
  "once_relevant event x \<longleftrightarrow> fst x \<in> {event, ''connection_error'', ''error''}"

text \<open>The first relevant event decides, and only that.\<close>

lemma once_fire_settled: "\<not> oc_listening p \<Longrightarrow> fold (once_fire event) xs p = p"
  by (induction xs) (simp_all add: once_fire_def split_def)

lemma once_first:
  "fold (once_fire event) xs once =
     (case filter (once_relevant event) xs of [] \<Rightarrow> once | x # _ \<Rightarrow> once_fire event x once)"
proof (induction xs)
  case (Cons x xs)
  show ?case
  proof (cases "once_relevant event x")
    case True
    then have "\<not> oc_listening (once_fire event x once)"
      by (auto simp: once_fire_def once_def once_relevant_def split_def)
    with True show ?thesis by (simp add: once_fire_settled)
  next
    case False
    then have "once_fire event x once = once" by (auto simp: once_fire_def once_relevant_def split_def)
    with False Cons show ?thesis by simp
  qed
qed simp

definition fqqn :: "destination \<Rightarrow> string" where
  "fqqn destination = destination @ ''::'' @ destination"

definition no_connection :: js_error where
  "no_connection = Error ''Cannot read properties of undefined''"

text \<open>
  A cached sender is reused while it is open; otherwise a new link replaces it in the cache, once it can
  send. A link that fails to open is left behind.
\<close>

definition openSender :: "string \<Rightarrow> string \<Rightarrow> nat artemis_op" where
  "openSender address capability s =
     (if \<not> ar_connection s then (Inl no_connection, s)
      else let n = ar_nextLink s
           in and_then (art_await (AOpenSender n address capability)) (\<lambda>_ s. (Inr n, s))
                (s\<lparr>ar_nextLink := Suc n\<rparr>))"

definition getSender :: "destination \<Rightarrow> nat artemis_op" where
  "getSender destination s =
     (let address = fqqn destination;
          fresh = and_then (openSender address ''queue'')
            (\<lambda>n s. (Inr n, s\<lparr>ar_senders := js_map_set (ar_senders s) address n\<rparr>)) s
      in case js_map_get (ar_senders s) address of
           Some n \<Rightarrow> if n \<notin> ar_closed s then (Inr n, s) else fresh
         | None \<Rightarrow> fresh)"

definition getBusSender :: "destination \<Rightarrow> nat artemis_op" where
  "getBusSender address s =
     (let fresh = and_then (openSender address ''topic'')
            (\<lambda>n s. (Inr n, s\<lparr>ar_busSenders := js_map_set (ar_busSenders s) address n\<rparr>)) s
      in case js_map_get (ar_busSenders s) address of
           Some n \<Rightarrow> if n \<notin> ar_closed s then (Inr n, s) else fresh
         | None \<Rightarrow> fresh)"

section \<open>Scheduler port\<close>

definition art_sendNow :: "destination \<Rightarrow> string \<Rightarrow> unit artemis_op" where
  "art_sendNow destination payload =
     and_then (getSender destination) (\<lambda>n s. (Inr (), art_log [ASend n (amqp_message payload)] s))"

definition art_schedule :: "(nat \<Rightarrow> string) \<Rightarrow> destination \<Rightarrow> string \<Rightarrow> millis \<Rightarrow> ScheduleHandle artemis_op" where
  "art_schedule rand destination payload deliverAt s =
     (let sid = ''art-'' @ show_int (ar_now s) @ ''-'' @ rand (ar_draws s);
          msg = (amqp_message payload)
            \<lparr>am_message_annotations := [(DELIVERY_TIME_ANNOTATION, JNum deliverAt)],
             am_application_properties := [(SCHEDULE_ID, JStr sid)]\<rparr>
      in and_then (getSender destination) (\<lambda>n s.
           (Inr \<lparr>sh_id = sid, sh_destination = destination, sh_deliverAt = deliverAt\<rparr>,
            art_log [ASend n msg] s)) (s\<lparr>ar_draws := Suc (ar_draws s)\<rparr>))"

section \<open>Management\<close>

text \<open>
  \<open>JolokiaClient.post\<close> answers the \<open>value\<close> of the reply, or an error for a bad HTTP or Jolokia status: the
  reply of the endpoint is the parameter \<open>http\<close> (status, body text, decoded body), or the message of the
  \<open>TypeError\<close> \<open>fetch\<close> rejects with when the endpoint is not reached.
\<close>

record HttpReply =
  hr_ok :: bool
  hr_status :: int
  hr_text :: string
  hr_json :: js_value

definition jolokia_post :: "(js_value \<Rightarrow> 'w \<Rightarrow> (string + HttpReply) \<times> 'w) \<Rightarrow> js_value \<Rightarrow> 'w \<Rightarrow>
    (js_error + js_value) \<times> 'w" where
  "jolokia_post http body w =
     (case http body w of
        (Inl reason, w') \<Rightarrow> (Inl (Error reason), w')
      | (Inr res, w') \<Rightarrow>
          (if \<not> hr_ok res then
             Inl (Error (''Jolokia HTTP '' @ show_int (hr_status res) @ '': '' @ hr_text res))
           else if js_prop ''status'' (hr_json res) \<noteq> JNum 200 then
             Inl (Error (''Jolokia error '' @ js_String (js_prop ''status'' (hr_json res)) @ '': '' @
               (case js_prop ''error'' (hr_json res) of
                  Undef \<Rightarrow> ''unknown'' | Null \<Rightarrow> ''unknown'' | e \<Rightarrow> js_String e)))
           else Inr (js_prop ''value'' (hr_json res)), w'))"

definition queueMBeanPattern :: "string \<Rightarrow> string" where
  "queueMBeanPattern queueName =
     ''org.apache.activemq.artemis:broker=*,component=addresses,address='' @ dquote @ queueName @ dquote @
     '',subcomponent=queues,routing-type='' @ dquote @ ''anycast'' @ dquote @ '',queue='' @ dquote @ queueName @ dquote"

definition findQueueMBean :: "(js_value \<Rightarrow> 'w \<Rightarrow> (js_error + js_value) \<times> 'w) \<Rightarrow> string \<Rightarrow> 'w \<Rightarrow>
    (js_error + string option) \<times> 'w" where
  "findQueueMBean post queueName =
     and_then (post (JObj [(''type'', JStr ''search''), (''mbean'', JStr (queueMBeanPattern queueName))]))
       (\<lambda>value w. (Inr (case value of JArr (v # vs) \<Rightarrow> as_string v | _ \<Rightarrow> None), w))"

text \<open>An empty object name is falsy, like a missing one.\<close>

definition listScheduledMessages :: "(js_value \<Rightarrow> 'w \<Rightarrow> (js_error + js_value) \<times> 'w) \<Rightarrow> string \<Rightarrow> 'w \<Rightarrow>
    (js_error + js_value list) \<times> 'w" where
  "listScheduledMessages post queueName =
     and_then (findQueueMBean post queueName) (\<lambda>mbean w.
       if \<not> truthy_string mbean then (Inr [], w)
       else and_then (post (JObj [(''type'', JStr ''exec''), (''mbean'', JStr (coalesce mbean [])),
                (''operation'', JStr ''listScheduledMessages()'')]))
              (\<lambda>value w. (Inr (case value of JArr vs \<Rightarrow> vs | _ \<Rightarrow> []), w)) w)"

definition removeMessages :: "(js_value \<Rightarrow> 'w \<Rightarrow> (js_error + js_value) \<times> 'w) \<Rightarrow> string \<Rightarrow> string \<Rightarrow> 'w \<Rightarrow>
    (js_error + int) \<times> 'w" where
  "removeMessages post queueName flt =
     and_then (findQueueMBean post queueName) (\<lambda>mbean w.
       if \<not> truthy_string mbean then (Inr 0, w)
       else and_then (post (JObj [(''type'', JStr ''exec''), (''mbean'', JStr (coalesce mbean [])),
                (''operation'', JStr ''removeMessages(java.lang.String)''), (''arguments'', JArr [JStr flt])]))
              (\<lambda>value w. (Inr (coalesce (as_number value) 0), w)) w)"

definition cancelFilter :: "ScheduleHandle \<Rightarrow> string" where
  "cancelFilter h = SCHEDULE_ID @ '' = '' @ quoted (sh_id h)"

definition art_cancel :: "(js_value \<Rightarrow> 'w \<Rightarrow> (js_error + js_value) \<times> 'w) \<Rightarrow> ScheduleHandle \<Rightarrow> 'w \<Rightarrow>
    (js_error + unit) \<times> 'w" where
  "art_cancel post h =
     and_then (removeMessages post (sh_destination h) (cancelFilter h)) (\<lambda>_ w. (Inr (), w))"

definition nullish_or :: "js_value \<Rightarrow> js_value \<Rightarrow> js_value" where
  "nullish_or v d = (if v = Undef \<or> v = Null then d else v)"

text \<open>
  \<open>Number(v)\<close> of a decimal number or of a string of digits. On any other value the source builds an invalid
  date, which is no date here.
\<close>

definition js_Number :: "js_value \<Rightarrow> int option" where
  "js_Number v =
     (case v of
        JNum n \<Rightarrow> Some n
      | JStr s \<Rightarrow> if s \<noteq> [] \<and> (\<forall>c \<in> set s. of_char c \<in> {48 .. (57 :: nat)}) then Some (int (read_digits s)) else None
      | _ \<Rightarrow> None)"

definition scheduledInfoOf :: "destination \<Rightarrow> js_value \<Rightarrow> ScheduledInfo" where
  "scheduledInfoOf destination m =
     \<lparr>si_id = js_String (nullish_or (js_prop SCHEDULE_ID m) (nullish_or (js_prop ''messageID'' m) (JStr []))),
      si_destination = destination,
      si_deliverAt = (let t = js_prop ''scheduledDeliveryTime'' m in if truthy t then js_Number t else None)\<rparr>"

definition art_listScheduled :: "(js_value \<Rightarrow> 'w \<Rightarrow> (js_error + js_value) \<times> 'w) \<Rightarrow> destination \<Rightarrow> 'w \<Rightarrow>
    (js_error + ScheduledInfo list) \<times> 'w" where
  "art_listScheduled post destination =
     and_then (listScheduledMessages post destination) (\<lambda>raw w. (Inr (map (scheduledInfoOf destination) raw), w))"

section \<open>Bus port\<close>

text \<open>Object spread: the later properties win, a property already there keeps its place.\<close>

definition spread :: "(string \<times> js_value) list \<Rightarrow> (string \<times> js_value) list \<Rightarrow> (string \<times> js_value) list" where
  "spread obj ps = foldl (\<lambda>o' (k, v). js_map_set o' k v) obj ps"

definition busMessage :: "destination \<Rightarrow> string \<Rightarrow> string option \<Rightarrow> PublishOptions option \<Rightarrow> AmqpMessage" where
  "busMessage topic payload routingKey options =
     (let g = opt_field po_groupId options;
          d = opt_field po_dedupId options;
          r = opt_field po_replyTo options;
          c = opt_field po_correlationId options;
          props0 = spread [(ROUTING_KEY_PROP, JStr (coalesce routingKey topic))]
                     (map (\<lambda>(k, v). (k, JStr v)) (coalesce (opt_field po_headers options) []));
          props1 = (if truthy_string d then js_map_set props0 ARTEMIS_DUPL_ID (JStr (coalesce d [])) else props0);
          props2 = (if truthy_string g then js_map_set props1 ARTEMIS_GROUP_ID (JStr (coalesce g [])) else props1)
      in (amqp_message payload)
           \<lparr>am_application_properties := props2,
            am_group_id := (if truthy_string g then JStr (coalesce g []) else Undef),
            am_priority := opt_field po_priority options,
            am_reply_to := (if truthy_string r then JStr (coalesce r []) else Undef),
            am_correlation_id := (if truthy_string c then JStr (coalesce c []) else Undef),
            am_ttl := opt_field po_ttlMs options\<rparr>)"

definition art_publish :: "destination \<Rightarrow> string \<Rightarrow> string option \<Rightarrow> PublishOptions option \<Rightarrow> unit artemis_op" where
  "art_publish topic payload routingKey options =
     and_then (getBusSender topic) (\<lambda>n s.
       (Inr (), art_log [ASend n (busMessage topic payload routingKey options)] s))"

definition ends_with :: "string \<Rightarrow> string \<Rightarrow> bool" where
  "ends_with suffix s \<longleftrightarrow> length suffix \<le> length s \<and> drop (length s - length suffix) s = suffix"

definition busAddress :: "ArtemisConfig \<Rightarrow> destination \<Rightarrow> string" where
  "busAddress cfg topic =
     (if ends_with ''.dlq'' topic then ac_dla cfg
      else if ends_with ''.expiry'' topic then ac_expiry cfg else topic)"

definition toSelector :: "string \<Rightarrow> string" where
  "toSelector routingKey =
     (if CHR ''*'' \<in> set routingKey \<or> CHR ''#'' \<in> set routingKey then
        ROUTING_KEY_PROP @ '' LIKE '' @
          quoted (map (\<lambda>c. if c = CHR ''*'' \<or> c = CHR ''#'' then CHR ''%'' else c) routingKey)
      else ROUTING_KEY_PROP @ '' = '' @ quoted routingKey)"

definition subscriptionFilter :: "SubscribeOptions \<Rightarrow> string option" where
  "subscriptionFilter options =
     (if coalesce (so_kind options) Topic = Topic \<and> truthy_string (so_routingKey options)
      then Some (toSelector (coalesce (so_routingKey options) [])) else None)"

definition art_subscribe :: "(nat \<Rightarrow> string) \<Rightarrow> destination \<Rightarrow> handler \<Rightarrow> SubscribeOptions option \<Rightarrow> nat artemis_op" where
  "art_subscribe rand topic h opts s =
     (let options = coalesce opts no_subscribe_options;
          (sid, s1) = (case so_subscriberId options of
             Some x \<Rightarrow> (x, s)
           | None \<Rightarrow> (''sub-'' @ rand (ar_draws s), s\<lparr>ar_draws := Suc (ar_draws s)\<rparr>));
          queue = busAddress (ar_cfg s) topic @ ''::'' @ sid;
          address = (if coalesce (so_transient options) False
                     then queue @ ''?auto-delete=true&max-consumers=1'' else queue)
      in if \<not> ar_connection s1 then (Inl no_connection, s1)
         else let n = ar_nextLink s1
              in and_then (art_await (AOpenReceiver n address ''topic'' (subscriptionFilter options) False))
                   (\<lambda>_ s. (Inr n, s)) (s1\<lparr>ar_nextLink := Suc n\<rparr>))"

definition art_consume :: "destination \<Rightarrow> handler \<Rightarrow> nat artemis_op" where
  "art_consume destination h s =
     (if \<not> ar_connection s then (Inl no_connection, s)
      else let n = ar_nextLink s
           in and_then (art_await (AOpenReceiver n (fqqn destination) ''queue'' None True)) (\<lambda>_ s. (Inr n, s))
                (s\<lparr>ar_nextLink := Suc n\<rparr>))"

definition art_unsubscribe :: "nat \<Rightarrow> unit artemis_op" where
  "art_unsubscribe n s = (Inr (), (art_log [ACloseLink n] s)\<lparr>ar_closed := insert n (ar_closed s)\<rparr>)"

definition art_dispose :: "unit artemis_op" where
  "art_dispose s =
     (let links = map snd (ar_senders s) @ map snd (ar_busSenders s)
      in (Inr (), (art_log (map ACloseLink links @ (if ar_connection s then [ACloseConnection] else [])) s)
           \<lparr>ar_closed := ar_closed s \<union> set links, ar_open := False\<rparr>))"

section \<open>Deliveries\<close>

text \<open>\<open>bodyToString\<close>; an object body is rendered by the parameter \<open>stringify\<close> (\<open>JSON.stringify\<close>).\<close>

definition bodyToString :: "(js_value \<Rightarrow> string) \<Rightarrow> js_value \<Rightarrow> string" where
  "bodyToString stringify body =
     (case body of
        Undef \<Rightarrow> [] | Null \<Rightarrow> [] | JStr s \<Rightarrow> s
      | JObj _ \<Rightarrow> stringify body | JArr _ \<Rightarrow> stringify body | v \<Rightarrow> js_String v)"

definition stringifyProps :: "(string \<times> js_value) list \<Rightarrow> headers" where
  "stringifyProps ps = map (\<lambda>(k, v). (k, js_String v)) ps"

datatype art_settle = AAccept nat | AModified nat bool bool | AReject nat

record ArIncoming =
  ai_message :: IncomingMessage
  ai_delivery :: nat
  ai_settled :: bool

definition art_toIncoming :: "(js_value \<Rightarrow> string) \<Rightarrow> string \<Rightarrow> AmqpMessage \<Rightarrow> nat \<Rightarrow> ArIncoming" where
  "art_toIncoming stringify address m delivery =
     \<lparr>ai_message = \<lparr>rm_id = js_String (nullish_or (am_message_id m) (JStr [])), rm_destination = address,
        rm_body = bodyToString stringify (am_body m), rm_headers = stringifyProps (am_application_properties m),
        im_deliveryCount = Some (coalesce (am_delivery_count m) 0 + 1),
        im_replyTo = as_string (am_reply_to m),
        im_correlationId = (if am_correlation_id m \<noteq> Undef then Some (js_String (am_correlation_id m)) else None),
        im_groupId = (case as_string (am_group_id m) of
           Some g \<Rightarrow> Some g
         | None \<Rightarrow> as_string (js_prop ARTEMIS_GROUP_ID (JObj (am_application_properties m)))),
        im_priority = am_priority m\<rparr>,
      ai_delivery = delivery, ai_settled = False\<rparr>"

definition art_ack :: "ArIncoming \<Rightarrow> ArIncoming \<times> art_settle list" where
  "art_ack i = (if ai_settled i then (i, []) else (i\<lparr>ai_settled := True\<rparr>, [AAccept (ai_delivery i)]))"

definition art_nack :: "bool \<Rightarrow> ArIncoming \<Rightarrow> ArIncoming \<times> art_settle list" where
  "art_nack requeue i =
     (if ai_settled i then (i, [])
      else (i\<lparr>ai_settled := True\<rparr>,
        if requeue then [AModified (ai_delivery i) True False] else [AReject (ai_delivery i)]))"

text \<open>What \<open>consume\<close> hands to a plain message handler.\<close>

definition art_received :: "(js_value \<Rightarrow> string) \<Rightarrow> destination \<Rightarrow> AmqpMessage \<Rightarrow> ReceivedMessage" where
  "art_received stringify destination m =
     \<lparr>rm_id = js_String (nullish_or (am_message_id m) (JStr [])), rm_destination = destination,
      rm_body = bodyToString stringify (am_body m), rm_headers = stringifyProps (am_application_properties m)\<rparr>"

interpretation artemis_settlement: settlement art_ack art_nack ai_settled
  by unfold_locales (simp_all add: art_ack_def art_nack_def)

lemma jolokia_post_error:
  "jolokia_post http body w = (Inl e, w') \<Longrightarrow> \<not> is_NotSupported e"
  by (auto simp: jolokia_post_def Let_def split: prod.splits sum.splits if_splits)

lemma and_then_InlE:
  assumes "and_then m f s = (Inl e, s')"
  obtains "m s = (Inl e, s')" | x t where "m s = (Inr x, t)" "f x t = (Inl e, s')"
proof (cases "m s")
  case (Pair r t)
  with assms that show ?thesis by (cases r) (auto simp: and_then_def)
qed

text \<open>No operation on the endpoint fails with \<open>NotSupportedError\<close>.\<close>

definition never_unsupported :: "('w \<Rightarrow> (js_error + 'r) \<times> 'w) \<Rightarrow> bool" where
  "never_unsupported op \<longleftrightarrow> (\<forall>w e w'. op w = (Inl e, w') \<longrightarrow> \<not> is_NotSupported e)"

lemma never_unsupported_post [simp]: "never_unsupported (jolokia_post http body)"
  unfolding never_unsupported_def by (intro allI impI) (erule jolokia_post_error)

lemma never_unsupported_value [simp]: "never_unsupported (\<lambda>w. (Inr (x w), w))"
  by (simp add: never_unsupported_def)

lemma never_unsupported_and_then:
  assumes "never_unsupported m" and "\<And>x. never_unsupported (f x)"
  shows "never_unsupported (and_then m f)"
  unfolding never_unsupported_def
proof (intro allI impI)
  fix w e w' assume "and_then m f w = (Inl e, w')"
  then show "\<not> is_NotSupported e"
    using assms unfolding never_unsupported_def by (elim and_then_InlE) blast+
qed

lemma never_unsupported_if:
  "never_unsupported op \<Longrightarrow> never_unsupported (\<lambda>w. if b then (Inr x, w) else op w)"
  by (simp add: never_unsupported_def)

lemma never_unsupported_find: "never_unsupported (findQueueMBean (jolokia_post http) q)"
  unfolding findQueueMBean_def by (intro never_unsupported_and_then never_unsupported_value never_unsupported_post)

lemma art_cancel_error: "never_unsupported (art_cancel (jolokia_post http) h)"
  unfolding art_cancel_def removeMessages_def
  by (intro never_unsupported_and_then never_unsupported_if never_unsupported_find never_unsupported_value
      never_unsupported_post)

lemma art_listScheduled_error: "never_unsupported (art_listScheduled (jolokia_post http) d)"
  unfolding art_listScheduled_def listScheduledMessages_def
  by (intro never_unsupported_and_then never_unsupported_if never_unsupported_find never_unsupported_value
      never_unsupported_post)

interpretation artemis_port: scheduler_port artemis_capabilities
  "\<lambda>h w. case art_cancel (jolokia_post http) h w of (Inl e, _) \<Rightarrow> Inl e | (Inr (), w') \<Rightarrow> Inr w'"
  "\<lambda>d w. fst (art_listScheduled (jolokia_post http) d w)"
  for http
proof (unfold_locales, goal_cases)
  case (2 h w e)
  then show ?case
    using art_cancel_error [of http h] unfolding never_unsupported_def
    by (auto split: prod.splits sum.splits unit.splits)
next
  case (4 d w e)
  then show ?case
    using art_listScheduled_error [of http d] unfolding never_unsupported_def by (metis prod.collapse)
qed (simp_all add: artemis_capabilities_def)

section \<open>The adapter\<close>

text \<open>The state of the adapter together with the world of the management endpoint.\<close>

definition on_link :: "('r \<Rightarrow> nat port_result) \<Rightarrow> 'r artemis_op \<Rightarrow> (Artemis \<times> 'w, nat) operation" where
  "on_link f op = (\<lambda>(s, w). case op s of (Inl e, s') \<Rightarrow> (Inl e, s', w) | (Inr x, s') \<Rightarrow> (Inr (f x), s', w))"

definition on_endpoint :: "('r \<Rightarrow> nat port_result) \<Rightarrow> ('w \<Rightarrow> (js_error + 'r) \<times> 'w) \<Rightarrow> (Artemis \<times> 'w, nat) operation" where
  "on_endpoint f op = (\<lambda>(s, w). case op w of (Inl e, w') \<Rightarrow> (Inl e, s, w') | (Inr x, w') \<Rightarrow> (Inr (f x), s, w'))"

definition artemis_adapter :: "(nat \<Rightarrow> string) \<Rightarrow> (js_value \<Rightarrow> 'w \<Rightarrow> (string + HttpReply) \<times> 'w) \<Rightarrow> (Artemis \<times> 'w, nat) Adapter" where
  "artemis_adapter rand http = \<lparr>ad_name = artemis_name, ad_capabilities = artemis_capabilities,
     ad_busCapabilities = artemis_busCapabilities,
     ad_connect = on_link (\<lambda>_. RUnit) art_connect,
     ad_sendNow = (\<lambda>d p. on_link (\<lambda>_. RUnit) (art_sendNow d p)),
     ad_schedule = (\<lambda>d p at. on_link RHandle (art_schedule rand d p at)),
     ad_cancel = (\<lambda>h. on_endpoint (\<lambda>_. RUnit) (art_cancel (jolokia_post http) h)),
     ad_listScheduled = (\<lambda>d. on_endpoint RList (art_listScheduled (jolokia_post http) d)),
     ad_consume = (\<lambda>d h. on_link RSub (art_consume d h)),
     ad_connectBus = on_link (\<lambda>_. RUnit) art_connectBus,
     ad_publish = (\<lambda>t p rk opts. on_link (\<lambda>_. RUnit) (art_publish t p rk opts)),
     ad_subscribe = (\<lambda>t h opts. on_link RSub (art_subscribe rand t h opts)),
     ad_dispose = on_link (\<lambda>_. RUnit) art_dispose\<rparr>"

end
