(* ===== verification/Artemis_Properties.thy ===== *)
theory Artemis_Properties
  imports Artemis Topic_Match
begin

text \<open>The properties of the Artemis adapter.\<close>

section \<open>Selectors\<close>

text \<open>
  The documented meaning of the SQL pattern of a selector: \<open>%\<close> stands for any run of characters, \<open>_\<close> for
  one character, any other character for itself.
\<close>

fun like :: "string \<Rightarrow> string \<Rightarrow> bool" where
  "like [] k = (k = [])"
| "like (c # p) [] = (c = CHR ''%'' \<and> like p [])"
| "like (c # p) (x # k) =
     (if c = CHR ''%'' then like p (x # k) \<or> like (c # p) k else (c = CHR ''_'' \<or> c = x) \<and> like p k)"

lemma like_skip: "like p k \<Longrightarrow> like (CHR ''%'' # p) (us @ k)"
proof (induction us)
  case Nil
  then show ?case by (cases k) simp_all
next
  case (Cons u us)
  then show ?case by simp
qed

lemma like_append: "like p k \<Longrightarrow> like q l \<Longrightarrow> like (p @ q) (k @ l)"
proof (induction p k rule: like.induct)
  case (2 c p)
  then show ?case using like_skip [of "p @ q" l "[]"] by simp
next
  case (3 c p x k)
  then show ?case by (auto split: if_splits)
qed simp_all

text \<open>The broker's filter, a parameter: which selectors accept a message with a given routing key.\<close>

definition selector_law :: "(string \<Rightarrow> string \<Rightarrow> bool) \<Rightarrow> bool" where
  "selector_law accepts \<longleftrightarrow> (\<forall>lit key. CHR 0x27 \<notin> set lit \<longrightarrow>
     (accepts (ROUTING_KEY_PROP @ '' LIKE '' @ quoted lit) key \<longleftrightarrow> like lit key) \<and>
     (accepts (ROUTING_KEY_PROP @ '' = '' @ quoted lit) key \<longleftrightarrow> lit = key))"

lemma selector_lawD:
  assumes "selector_law accepts" and "CHR 0x27 \<notin> set lit"
  shows "accepts (ROUTING_KEY_PROP @ '' LIKE '' @ quoted lit) key \<longleftrightarrow> like lit key"
    and "accepts (ROUTING_KEY_PROP @ '' = '' @ quoted lit) key \<longleftrightarrow> lit = key"
  using assms unfolding selector_law_def by blast+

text \<open>A filter that keeps the law: it reads the selector back.\<close>

definition read_selector :: "string \<Rightarrow> string \<Rightarrow> bool" where
  "read_selector s key =
     (let r = drop (length ROUTING_KEY_PROP) s
      in if take 6 r = '' LIKE '' then like (butlast (drop 7 r)) key else butlast (drop 4 r) = key)"

lemma selector_law_read: "selector_law read_selector"
  by (simp add: selector_law_def read_selector_def ROUTING_KEY_PROP_def quoted_def Let_def butlast_append)

definition sql_pattern :: "string \<Rightarrow> string" where
  "sql_pattern = map (\<lambda>c. if c = CHR ''*'' \<or> c = CHR ''#'' then CHR ''%'' else c)"

lemma sql_pattern_simps [simp]:
  "sql_pattern [] = []" "sql_pattern (xs @ ys) = sql_pattern xs @ sql_pattern ys"
  "sql_pattern (c # xs) = (if c = CHR ''*'' \<or> c = CHR ''#'' then CHR ''%'' else c) # sql_pattern xs"
  by (simp_all add: sql_pattern_def)

lemma like_sql_self: "like (sql_pattern w) w"
proof (induction w)
  case (Cons c w)
  then have "like (CHR ''%'' # sql_pattern w) (c # w)"
    using like_skip [of "sql_pattern w" w "[c]"] by simp
  with Cons show ?case by simp
qed simp

lemma like_word: "p = ''*'' \<or> p = w \<Longrightarrow> like (sql_pattern p) w"
  using like_sql_self like_skip [of "[]" "[]" w] by auto

lemma like_words:
  "matches_words ps ws \<Longrightarrow> ''#'' \<notin> set ps \<Longrightarrow>
   (ps = [] \<longleftrightarrow> ws = []) \<and> like (sql_pattern (join_with CHR ''.'' ps)) (join_with CHR ''.'' ws)"
proof (induction ps arbitrary: ws)
  case (Cons p ps)
  then obtain w vs where ws: "ws = w # vs" "p = ''*'' \<or> p = w" and m: "matches_words ps vs"
    by (auto simp: matches_words_step)
  from Cons.IH [OF m] Cons.prems(2) have IH: "ps = [] \<longleftrightarrow> vs = []"
    "like (sql_pattern (join_with CHR ''.'' ps)) (join_with CHR ''.'' vs)" by auto
  note w = like_word [OF ws(2)]
  show ?case
  proof (cases ps)
    case Nil
    with IH w ws show ?thesis by simp
  next
    case (Cons q qs)
    with IH obtain v us where vs: "vs = v # us" by (cases vs) auto
    have "like (CHR ''.'' # sql_pattern (join_with CHR ''.'' ps)) (CHR ''.'' # join_with CHR ''.'' vs)"
      using IH(2) by simp
    from like_append [OF w this] show ?thesis using Cons vs ws by simp
  qed
qed simp

lemma toSelector_covers:
  assumes "selector_law accepts" and "CHR 0x27 \<notin> set pattern" and "''#'' \<notin> set (split_on CHR ''.'' pattern)"
    and "topicMatch pattern key"
  shows "accepts (toSelector pattern) key"
proof (cases "CHR ''*'' \<in> set pattern \<or> CHR ''#'' \<in> set pattern")
  case True
  have "like (sql_pattern pattern) key"
    using like_words [of "split_on CHR ''.'' pattern" "split_on CHR ''.'' key"] assms by (simp add: topicMatch_words)
  moreover have "CHR 0x27 \<notin> set (sql_pattern pattern)" using assms(2) by (auto simp: sql_pattern_def)
  ultimately show ?thesis
    using selector_lawD(1) [OF assms(1)] True by (simp add: toSelector_def sql_pattern_def)
next
  case False
  then have "wildcard_free pattern"
    using set_split_on [of _ "CHR ''.''" pattern] by (fastforce simp: wildcard_free_def)
  then show ?thesis
    using assms(4) selector_lawD(2) [OF assms(1,2)] False by (simp add: toSelector_def topicMatch_literal)
qed



lemma split_on_append_sep: "split_on c (xs @ c # ys) = split_on c xs @ split_on c ys"
  by (induction xs) (auto split: list.splits)

lemma matches_words_literal_append:
  "''*'' \<notin> set ps \<Longrightarrow> ''#'' \<notin> set ps \<Longrightarrow>
   matches_words (ps @ qs) ws \<longleftrightarrow> (\<exists>vs. ws = ps @ vs \<and> matches_words qs vs)"
proof (induction ps arbitrary: ws)
  case (Cons p ps)
  then have "p \<noteq> ''#''" "p \<noteq> ''*''" and IH: "\<And>ws. matches_words (ps @ qs) ws \<longleftrightarrow> (\<exists>vs. ws = ps @ vs \<and> matches_words qs vs)"
    by auto
  then show ?case by (auto simp: matches_words_step)
qed simp

lemma topicMatch_prefix:
  "wildcard_free p \<Longrightarrow> topicMatch (p @ CHR ''.'' # q) key \<longleftrightarrow>
    (\<exists>vs. split_on CHR ''.'' key = split_on CHR ''.'' p @ vs \<and> matches_words (split_on CHR ''.'' q) vs)"
  by (simp add: topicMatch_words split_on_append_sep wildcard_free_def matches_words_literal_append)

lemma like_length: "like p k \<Longrightarrow> length (filter (\<lambda>c. c \<noteq> CHR ''%'') p) \<le> length k"
  by (induction p k rule: like.induct) (auto split: if_splits)

definition plain_key :: "string \<Rightarrow> bool" where
  "plain_key p \<longleftrightarrow> set p \<inter> {CHR ''*'', CHR ''#'', CHR ''%'', CHR 0x27} = {}"

lemma plain_key_sql: "plain_key p \<Longrightarrow> sql_pattern p = p" "plain_key p \<Longrightarrow> filter (\<lambda>c. c \<noteq> CHR ''%'') p = p"
  by (auto simp: plain_key_def sql_pattern_def filter_id_conv intro: map_idI)

lemma plain_key_wildcard_free: "plain_key p \<Longrightarrow> wildcard_free p"
  using set_split_on [of _ "CHR ''.''" p] by (fastforce simp: wildcard_free_def plain_key_def)

text \<open>Where the selector and the reference filter part, for every plain prefix: below \<open>p.*\<close> the selector takes
keys of two and more further words, which \<open>*\<close> does not, and \<open>p.#\<close> misses the key \<open>p\<close> itself, which \<open>#\<close> covers.\<close>

theorem artemis_selector_divergence:
  assumes "selector_law accepts" and "plain_key p"
  shows "accepts (toSelector (p @ ''.*'')) (p @ ''.'' @ a @ ''.'' @ b) \<and>
    \<not> topicMatch (p @ ''.*'') (p @ ''.'' @ a @ ''.'' @ b) \<and>
    \<not> accepts (toSelector (p @ ''.#'')) p \<and> topicMatch (p @ ''.#'') p"
proof (intro conjI)
  have q: "CHR 0x27 \<notin> set (p @ ''.%'')" using assms(2) by (auto simp: plain_key_def)
  have sel: "toSelector (p @ ''.*'') = ROUTING_KEY_PROP @ '' LIKE '' @ quoted (p @ ''.%'')"
    "toSelector (p @ ''.#'') = ROUTING_KEY_PROP @ '' LIKE '' @ quoted (p @ ''.%'')"
    using plain_key_sql(1) [OF assms(2)] by (simp_all add: toSelector_def sql_pattern_def)
  have "like (p @ ''.%'') (p @ ''.'' @ k)" for k
    using like_append [OF like_sql_self [of p], of "''.%''" "''.'' @ k"] like_skip [of "[]" "[]" k]
    by (simp add: plain_key_sql [OF assms(2)])
  then show "accepts (toSelector (p @ ''.*'')) (p @ ''.'' @ a @ ''.'' @ b)"
    unfolding sel(1) selector_lawD(1) [OF assms(1) q] by (metis append.assoc)
  show "\<not> accepts (toSelector (p @ ''.#'')) p"
    unfolding sel(2) selector_lawD(1) [OF assms(1) q]
    using like_length [of "p @ ''.%''" p] by (auto simp: plain_key_sql [OF assms(2)])
  note pre = topicMatch_prefix [OF plain_key_wildcard_free [OF assms(2)]]
  show "topicMatch (p @ ''.#'') p" using pre [of "''#''" p] by (simp add: matches_words_hash)
  show "\<not> topicMatch (p @ ''.*'') (p @ ''.'' @ a @ ''.'' @ b)"
    using pre [of "''*''" "p @ ''.'' @ a @ ''.'' @ b"] by (simp add: split_on_append_sep matches_words_step append_eq_Cons_conv)
qed

theorem artemis_selector_divergence_witness:
  "read_selector (toSelector ''order.*'') ''order.created.eu'' \<and> \<not> topicMatch ''order.*'' ''order.created.eu''"
  using artemis_selector_divergence [OF selector_law_read, of "''order''" "''created''" "''eu''"]
  by (simp add: plain_key_def)

section \<open>Publishing\<close>

lemma spread_get: "js_map_get (spread obj ps) k = (case map_of (rev ps) k of None \<Rightarrow> js_map_get obj k | Some v \<Rightarrow> Some v)"
proof (induction ps arbitrary: obj)
  case (Cons p ps)
  then show ?case by (cases p) (auto simp: spread_def map_add_def split: option.splits)
qed (simp add: spread_def)

text \<open>The routing key the broker filters on is the one given (the topic when none is), unless the headers have
an entry named \<open>routingKey\<close>: then it is that header, whatever routing key the publisher gave.\<close>

theorem artemis_routing_key:
  "js_map_get (am_application_properties (busMessage topic payload routingKey options)) ROUTING_KEY_PROP =
    Some (JStr (case map_of (rev (coalesce (opt_field po_headers options) [])) ''routingKey'' of
        None \<Rightarrow> coalesce routingKey topic
      | Some v \<Rightarrow> v))"
proof -
  have m: "map_of (rev (map (\<lambda>(k, v). (k, JStr v)) hs)) k = map_option JStr (map_of (rev hs) k)" for hs k
    by (simp add: rev_map map_of_map)
  show ?thesis
    by (auto simp: busMessage_def Let_def spread_get m ROUTING_KEY_PROP_def ARTEMIS_DUPL_ID_def ARTEMIS_GROUP_ID_def
        split: option.splits)
qed

text \<open>A publisher's run on one topic.\<close>

fun art_publish_all :: "destination \<Rightarrow> (string \<times> string option \<times> PublishOptions option) list \<Rightarrow> unit artemis_op" where
  "art_publish_all topic [] = Pair (Inr ())"
| "art_publish_all topic ((payload, routingKey, options) # rest) =
     and_then (art_publish topic payload routingKey options) (\<lambda>_. art_publish_all topic rest)"

lemma art_log_sel [simp]:
  "ar_log (art_log cs s) = ar_log s @ cs" "ar_busSenders (art_log cs s) = ar_busSenders s"
  "ar_closed (art_log cs s) = ar_closed s" "ar_connection (art_log cs s) = ar_connection s"
  "ar_refuses (art_log cs s) = ar_refuses s"
  by (simp_all add: art_log_def)

definition sends :: "nat \<Rightarrow> destination \<Rightarrow> (string \<times> string option \<times> PublishOptions option) list \<Rightarrow> art_call list" where
  "sends n topic = map (\<lambda>(payload, routingKey, options). ASend n (busMessage topic payload routingKey options))"

lemma publish_all_cached:
  assumes "js_map_get (ar_busSenders s) topic = Some n" and "n \<notin> ar_closed s"
  shows "\<exists>s'. art_publish_all topic ms s = (Inr (), s') \<and> ar_log s' = ar_log s @ sends n topic ms"
  using assms
proof (induction ms arbitrary: s)
  case (Cons m ms)
  obtain payload rk opts where m: "m = (payload, rk, opts)" by (cases m) auto
  let ?s = "art_log [ASend n (busMessage topic payload rk opts)] s"
  have "art_publish topic payload rk opts s = (Inr (), ?s)"
    using Cons.prems by (simp add: art_publish_def getBusSender_def)
  then show ?case using Cons.IH [of ?s] Cons.prems by (auto simp: m sends_def)
qed (simp add: sends_def)

text \<open>On a connected adapter whose links open a run of publishes to one topic succeeds and sends one message per publish, in
order, all on one link: the cached one while it is open, otherwise a single new one, opened first.\<close>

theorem artemis_publish_one_link:
  assumes "ar_connection s" and "ar_nextLink s \<notin> ar_closed s" and "ms \<noteq> []"
    and "ar_refuses s = (\<lambda>_. None)"
  shows "\<exists>s'. art_publish_all topic ms s = (Inr (), s') \<and>
    ar_log s' = ar_log s @
      (case js_map_get (ar_busSenders s) topic of
         Some n \<Rightarrow> if n \<notin> ar_closed s then sends n topic ms
           else AOpenSender (ar_nextLink s) topic ''topic'' # sends (ar_nextLink s) topic ms
       | None \<Rightarrow> AOpenSender (ar_nextLink s) topic ''topic'' # sends (ar_nextLink s) topic ms)"
proof (cases "\<exists>n. js_map_get (ar_busSenders s) topic = Some n \<and> n \<notin> ar_closed s")
  case True
  then show ?thesis using publish_all_cached by fastforce
next
  case False
  obtain payload rk opts rest where ms: "ms = (payload, rk, opts) # rest" using assms(3) by (cases ms) auto
  let ?n = "ar_nextLink s"
  let ?s = "art_log [ASend ?n (busMessage topic payload rk opts)]
    ((art_log [AOpenSender ?n topic ''topic''] (s\<lparr>ar_nextLink := Suc ?n\<rparr>))\<lparr>ar_busSenders := js_map_set (ar_busSenders s) topic ?n\<rparr>)"
  have "getBusSender topic s = (Inr ?n, (art_log [AOpenSender ?n topic ''topic''] (s\<lparr>ar_nextLink := Suc ?n\<rparr>))
      \<lparr>ar_busSenders := js_map_set (ar_busSenders s) topic ?n\<rparr>)"
    using False assms(1,4)
    by (auto simp: getBusSender_def openSender_def art_await_def Let_def and_then_def split: option.splits)
  then have "art_publish topic payload rk opts s = (Inr (), ?s)" by (simp add: art_publish_def)
  moreover have "\<exists>s'. art_publish_all topic rest ?s = (Inr (), s') \<and> ar_log s' = ar_log ?s @ sends ?n topic rest"
    using assms(2) by (intro publish_all_cached) simp_all
  ultimately show ?thesis using False by (auto simp: ms sends_def split: option.splits)
qed

theorem artemis_publish_one_link_witness:
  "\<exists>s'. art_publish_all ''t'' [(''x'', None, None), (''y'', None, None)]
      (snd (ensureConnection (artemis_init (artemisConfigFromEnv Map.empty)))) = (Inr (), s') \<and>
    ar_log s' = [AConnect ''localhost'' ''5672'', AOpenSender 0 ''t'' ''topic'',
      ASend 0 (busMessage ''t'' ''x'' None None), ASend 0 (busMessage ''t'' ''y'' None None)]"
  using artemis_publish_one_link [of "snd (ensureConnection (artemis_init (artemisConfigFromEnv Map.empty)))"
      "[(''x'', None, None), (''y'', None, None)]" "''t''"]
  by (simp add: ensureConnection_def artemis_init_def artemisConfigFromEnv_def Let_def art_log_def sends_def art_await_def
      and_then_def)

section \<open>Dead letters\<close>

text \<open>Every dead-letter subscription reads the broker-wide address: subscriptions to the dead-letter addresses of two
topics are the same subscription.\<close>

theorem artemis_dead_letters_shared:
  "art_subscribe rand (deadLetterAddress topic) h options s = art_subscribe rand (deadLetterAddress topic') h' options s"
proof -
  have "ends_with ''.dlq'' (deadLetterAddress t)" for t by (simp add: ends_with_def deadLetterAddress_def)
  then show ?thesis by (simp add: art_subscribe_def busAddress_def)
qed

end
