(* ===== verification/Kafka.thy ===== *)
theory Kafka
  imports Decorators Js_Value Settlement_Port
begin

text \<open>
  The Kafka adapter: class \<open>KafkaScheduler\<close> of \<open>adapters/kafka.ts\<close>.

  What the adapter does is the sequence of calls on the kafkajs clients (\<open>kf_log\<close>); consumers are
  numbered in order of creation. The cluster is outside: \<open>kf_refuses n\<close> is the error the \<open>n\<close>-th call of
  the log fails with, \<open>None\<close> when it is accepted. Creating a client or a consumer is local and never
  refused. Random group suffixes are the parameter \<open>rand\<close>. A record's offset is a number, rendered in decimal where the
  source has kafkajs's offset strings.
\<close>

section \<open>Configuration and state\<close>

record KafkaConfig =
  kc_brokers :: "string list"
  kc_clientId :: string

definition is_blank :: "char \<Rightarrow> bool" where
  "is_blank c \<longleftrightarrow> c \<in> {CHR '' '', CHR 0x09, CHR 0x0A, CHR 0x0B, CHR 0x0C, CHR 0x0D}"

definition js_trim :: "string \<Rightarrow> string" where
  "js_trim s = rev (dropWhile is_blank (rev (dropWhile is_blank s)))"

definition kafkaConfigFromEnv :: "(string \<rightharpoonup> string) \<Rightarrow> KafkaConfig" where
  "kafkaConfigFromEnv env =
     \<lparr>kc_brokers = filter (\<lambda>b. b \<noteq> []) (map js_trim (split_on (CHR '','') (coalesce (env ''KAFKA_BROKERS'') ''localhost:9092''))),
      kc_clientId = coalesce (env ''KAFKA_CLIENT_ID'') ''messaging-poc''\<rparr>"

record KafkaRecord =
  kr_value :: "string option"
  kr_key :: "string option"
  kr_headers :: "(string \<times> js_value) list"

datatype kf_call =
    KClient string "string list"
  | KProducerConnect
  | KAdminConnect
  | KCreateTopic destination nat
  | KSend destination KafkaRecord
  | KConsumer nat string
  | KConsumerConnect nat
  | KSubscribe nat destination bool
  | KRun nat bool
  | KCommit nat destination nat string
  | KSeek nat destination nat string
  | KDisconnect nat
  | KProducerDisconnect
  | KAdminDisconnect

record Kafka =
  kf_cfg :: KafkaConfig
  kf_kafka :: bool
  kf_producer :: bool
  kf_admin :: bool
  kf_consumers :: "nat list"
  kf_nextConsumer :: nat
  kf_topics :: "destination set"
  kf_now :: millis
  kf_draws :: nat
  kf_log :: "kf_call list"
  kf_refuses :: "nat \<Rightarrow> js_error option"

definition kafka_init :: "KafkaConfig \<Rightarrow> Kafka" where
  "kafka_init cfg = \<lparr>kf_cfg = cfg, kf_kafka = False, kf_producer = False, kf_admin = False, kf_consumers = [],
     kf_nextConsumer = 0, kf_topics = {}, kf_now = 0, kf_draws = 0, kf_log = [],
     kf_refuses = (\<lambda>_. None)\<rparr>"

definition kf_partitions :: nat where "kf_partitions = 3"

definition kafka_name :: string where "kafka_name = ''Apache Kafka''"

definition kafka_busCapabilities :: BusCapabilities where
  "kafka_busCapabilities = \<lparr>supportsTopic = False, supportsFanout = True, supportsManualAck = True,
     supportsDeadLetter = False, reportsDeliveryCount = False, supportsDedup = False,
     supportsStreamReplay = True, supportsMessageGroups = Some True\<rparr>"

definition kafka_capabilities :: Capabilities where
  "kafka_capabilities = \<lparr>cap_protocol = ''Kafka'', cap_nativeScheduling = False,
     cap_supportsCancel = False, cap_supportsList = False, cap_bus = Some kafka_busCapabilities\<rparr>"

type_synonym 'r kafka_op = "Kafka \<Rightarrow> (js_error + 'r) \<times> Kafka"

definition kf_emit :: "kf_call list \<Rightarrow> Kafka \<Rightarrow> Kafka" where
  "kf_emit cs s = s\<lparr>kf_log := kf_log s @ cs\<rparr>"

lemma kf_emit_sel [simp]:
  "kf_log (kf_emit cs s) = kf_log s @ cs" "kf_topics (kf_emit cs s) = kf_topics s"
  "kf_producer (kf_emit cs s) = kf_producer s" "kf_admin (kf_emit cs s) = kf_admin s"
  "kf_kafka (kf_emit cs s) = kf_kafka s" "kf_consumers (kf_emit cs s) = kf_consumers s"
  "kf_nextConsumer (kf_emit cs s) = kf_nextConsumer s" "kf_refuses (kf_emit cs s) = kf_refuses s"
  by (simp_all add: kf_emit_def)

text \<open>One call, awaited: it is made, and fails when the cluster refuses it.\<close>

definition kf_call :: "kf_call \<Rightarrow> unit kafka_op" where
  "kf_call c s =
     (case kf_refuses s (length (kf_log s)) of
        None \<Rightarrow> (Inr (), kf_emit [c] s)
      | Some e \<Rightarrow> (Inl e, kf_emit [c] s))"

definition missing_client :: js_error where
  "missing_client = Error ''Cannot read properties of undefined''"

text \<open>A client behind \<open>!\<close> that is missing makes the call a \<open>TypeError\<close>.\<close>

definition kf_needs :: "(Kafka \<Rightarrow> bool) \<Rightarrow> kf_call \<Rightarrow> unit kafka_op" where
  "kf_needs client c s = (if client s then kf_call c s else (Inl missing_client, s))"

section \<open>Connection and topics\<close>

text \<open>The producer and the admin client are assigned before their \<open>connect()\<close> is awaited.\<close>

definition ensureKafka :: "unit kafka_op" where
  "ensureKafka s =
     (Inr (), if kf_kafka s then s
              else (kf_emit [KClient (kc_clientId (kf_cfg s)) (kc_brokers (kf_cfg s))] s)\<lparr>kf_kafka := True\<rparr>)"

definition ensureProducer :: "unit kafka_op" where
  "ensureProducer s =
     (if kf_producer s then (Inr (), s) else kf_call KProducerConnect (s\<lparr>kf_producer := True\<rparr>))"

definition ensureAdmin :: "unit kafka_op" where
  "ensureAdmin s =
     (if kf_admin s then (Inr (), s) else kf_call KAdminConnect (s\<lparr>kf_admin := True\<rparr>))"

definition kf_ensureClient :: "unit kafka_op" where
  "kf_ensureClient = and_then ensureKafka (\<lambda>_. and_then ensureProducer (\<lambda>_. ensureAdmin))"

definition kf_connect :: "unit kafka_op" where
  "kf_connect = kf_ensureClient"

definition kf_connectBus :: "unit kafka_op" where
  "kf_connectBus = kf_ensureClient"

definition ensureTopic :: "destination \<Rightarrow> unit kafka_op" where
  "ensureTopic topic s =
     (if topic \<in> kf_topics s then (Inr (), s)
      else and_then (kf_needs kf_admin (KCreateTopic topic kf_partitions))
             (\<lambda>_ s. (Inr (), s\<lparr>kf_topics := insert topic (kf_topics s)\<rparr>)) s)"

section \<open>Scheduler port\<close>

definition kf_send :: "destination \<Rightarrow> KafkaRecord \<Rightarrow> unit kafka_op" where
  "kf_send topic r = kf_needs kf_producer (KSend topic r)"

definition kf_sendNow :: "destination \<Rightarrow> string \<Rightarrow> unit kafka_op" where
  "kf_sendNow destination payload =
     and_then (ensureTopic destination)
       (\<lambda>_. kf_send destination \<lparr>kr_value = Some payload, kr_key = None, kr_headers = []\<rparr>)"

definition randomGroup :: "(nat \<Rightarrow> string) \<Rightarrow> string \<Rightarrow> string kafka_op" where
  "randomGroup rand prefix s =
     (Inr (prefix @ ''-'' @ show_int (kf_now s) @ ''-'' @ rand (kf_draws s)), s\<lparr>kf_draws := Suc (kf_draws s)\<rparr>)"

text \<open>\<open>schedule\<close> appends at once and ignores the time but in the handle.\<close>

definition kf_schedule :: "(nat \<Rightarrow> string) \<Rightarrow> destination \<Rightarrow> string \<Rightarrow> millis \<Rightarrow> ScheduleHandle kafka_op" where
  "kf_schedule rand destination payload deliverAt =
     and_then (kf_sendNow destination payload) (\<lambda>_.
       and_then (randomGroup rand ''kafka'') (\<lambda>sid s.
         (Inr \<lparr>sh_id = sid, sh_destination = destination, sh_deliverAt = deliverAt\<rparr>, s)))"

definition kf_cancel :: "ScheduleHandle \<Rightarrow> unit kafka_op" where
  "kf_cancel handle s = (Inl (NotSupportedError ''cancel'' kafka_name
     (Some ''a written log record cannot be removed before consumption'')), s)"

definition kf_listScheduled :: "destination \<Rightarrow> ScheduledInfo list kafka_op" where
  "kf_listScheduled destination s = (Inl (NotSupportedError ''listScheduled'' kafka_name
     (Some ''Kafka has no notion of pending, not-yet-delivered messages'')), s)"

interpretation kafka_port: scheduler_port kafka_capabilities
  "\<lambda>h s. case kf_cancel h s of (Inl e, _) \<Rightarrow> Inl e | (Inr (), s') \<Rightarrow> Inr s'"
  "\<lambda>d s. fst (kf_listScheduled d s)"
  by unfold_locales (simp_all add: kafka_capabilities_def kf_cancel_def kf_listScheduled_def)

section \<open>Consumers\<close>

text \<open>
  Every consumer reads from the beginning and commits only explicitly. It is put on the list of consumers
  once it has subscribed, before it runs; one whose \<open>connect\<close> or \<open>subscribe\<close> fails is dropped as it is.
\<close>

definition newConsumer :: "string \<Rightarrow> nat kafka_op" where
  "newConsumer groupId s =
     (let n = kf_nextConsumer s
      in if kf_kafka s then (Inr n, (kf_emit [KConsumer n groupId] s)\<lparr>kf_nextConsumer := Suc n\<rparr>)
         else (Inl missing_client, s))"

definition keepConsumer :: "nat \<Rightarrow> unit kafka_op" where
  "keepConsumer n s = (Inr (), s\<lparr>kf_consumers := kf_consumers s @ [n]\<rparr>)"

definition startConsumer :: "destination \<Rightarrow> string \<Rightarrow> nat kafka_op" where
  "startConsumer topic groupId =
     and_then (newConsumer groupId) (\<lambda>n.
     and_then (kf_call (KConsumerConnect n)) (\<lambda>_.
     and_then (kf_call (KSubscribe n topic True)) (\<lambda>_.
     and_then (keepConsumer n) (\<lambda>_.
     and_then (kf_call (KRun n False)) (\<lambda>_ s. (Inr n, s))))))"

definition kf_consume :: "(nat \<Rightarrow> string) \<Rightarrow> destination \<Rightarrow> handler \<Rightarrow> nat kafka_op" where
  "kf_consume rand destination h =
     and_then (randomGroup rand ''sched'') (\<lambda>groupId. startConsumer destination groupId)"

definition kf_subscribe :: "(nat \<Rightarrow> string) \<Rightarrow> destination \<Rightarrow> handler \<Rightarrow> SubscribeOptions option \<Rightarrow> nat kafka_op" where
  "kf_subscribe rand topic h opts =
     (let options = coalesce opts no_subscribe_options
      in and_then (ensureTopic topic) (\<lambda>_.
           case so_subscriberId options of
             Some groupId \<Rightarrow> startConsumer topic groupId
           | None \<Rightarrow> and_then (randomGroup rand ''bus'') (\<lambda>groupId. startConsumer topic groupId)))"

definition kf_unsubscribe :: "nat \<Rightarrow> unit kafka_op" where
  "kf_unsubscribe n =
     and_then (swallow (kf_call (KDisconnect n))) (\<lambda>_ s.
       (Inr (), s\<lparr>kf_consumers := remove1 n (kf_consumers s)\<rparr>))"

text \<open>\<open>Promise.allSettled\<close> over the consumers makes every call and fails for none of them.\<close>

definition disconnectConsumers :: "unit kafka_op" where
  "disconnectConsumers s = (Inr (), (kf_emit (map KDisconnect (kf_consumers s)) s)\<lparr>kf_consumers := []\<rparr>)"

definition kf_dispose :: "unit kafka_op" where
  "kf_dispose =
     and_then disconnectConsumers (\<lambda>_.
     and_then (\<lambda>s. if kf_producer s then kf_call KProducerDisconnect s else (Inr (), s)) (\<lambda>_ s.
       if kf_admin s then kf_call KAdminDisconnect s else (Inr (), s)))"

section \<open>Publishing\<close>

definition publishHeaders :: "PublishOptions option \<Rightarrow> (string \<times> js_value) list" where
  "publishHeaders options =
     (let c = opt_field po_correlationId options;
          r = opt_field po_replyTo options;
          h0 = map (\<lambda>(k, v). (k, JStr v)) (coalesce (opt_field po_headers options) []);
          h1 = (if truthy_string c then js_map_set h0 ''correlationId'' (JStr (coalesce c [])) else h0)
      in if truthy_string r then js_map_set h1 ''replyTo'' (JStr (coalesce r [])) else h1)"

definition kf_publish :: "destination \<Rightarrow> string \<Rightarrow> string option \<Rightarrow> PublishOptions option \<Rightarrow> unit kafka_op" where
  "kf_publish topic payload routingKey options =
     and_then (ensureTopic topic) (\<lambda>_.
       kf_send topic \<lparr>kr_value = Some payload, kr_key = opt_field po_groupId options,
         kr_headers = publishHeaders options\<rparr>)"

section \<open>Deliveries\<close>

record KfPayload =
  kp_topic :: destination
  kp_partition :: nat
  kp_offset :: nat
  kp_record :: KafkaRecord

text \<open>Headers that are \<open>null\<close> or \<open>undefined\<close> are left out.\<close>

definition kf_normalizeHeaders :: "(string \<times> js_value) list \<Rightarrow> headers" where
  "kf_normalizeHeaders hs = map (\<lambda>(k, v). (k, js_String v)) (filter (\<lambda>(k, v). v \<noteq> Undef \<and> v \<noteq> Null) hs)"

definition kf_commit :: "nat \<Rightarrow> KfPayload \<Rightarrow> kf_call list" where
  "kf_commit consumer p = [KCommit consumer (kp_topic p) (kp_partition p) (show_nat (kp_offset p + 1))]"

record KfIncoming =
  ki_message :: IncomingMessage
  ki_consumer :: nat
  ki_payload :: KfPayload
  ki_settled :: bool

definition kf_toIncoming :: "destination \<Rightarrow> nat \<Rightarrow> KfPayload \<Rightarrow> KfIncoming" where
  "kf_toIncoming topic consumer p =
     (let hs = kf_normalizeHeaders (kr_headers (kp_record p))
      in \<lparr>ki_message = \<lparr>rm_id = show_nat (kp_offset p), rm_destination = topic,
            rm_body = coalesce (kr_value (kp_record p)) [], rm_headers = hs, im_deliveryCount = None,
            im_replyTo = js_map_get hs ''replyTo'', im_correlationId = js_map_get hs ''correlationId'',
            im_groupId = kr_key (kp_record p), im_priority = None\<rparr>,
          ki_consumer = consumer, ki_payload = p, ki_settled = False\<rparr>)"

definition kf_ack :: "KfIncoming \<Rightarrow> KfIncoming \<times> kf_call list" where
  "kf_ack i = (if ki_settled i then (i, [])
     else (i\<lparr>ki_settled := True\<rparr>, kf_commit (ki_consumer i) (ki_payload i)))"

definition kf_nack :: "bool \<Rightarrow> KfIncoming \<Rightarrow> KfIncoming \<times> kf_call list" where
  "kf_nack requeue i =
     (if ki_settled i then (i, [])
      else (i\<lparr>ki_settled := True\<rparr>,
        let p = ki_payload i
        in if requeue then [KSeek (ki_consumer i) (kp_topic p) (kp_partition p) (show_nat (kp_offset p))]
           else kf_commit (ki_consumer i) p))"

interpretation kafka_settlement: settlement kf_ack kf_nack ki_settled
  by unfold_locales (simp_all add: kf_ack_def kf_nack_def)

text \<open>
  The callback of a scheduler-port consumer: the plain message for the handler, and the commit that follows
  unless the handler throws.
\<close>

definition kf_received :: "destination \<Rightarrow> KfPayload \<Rightarrow> ReceivedMessage" where
  "kf_received destination p =
     \<lparr>rm_id = show_nat (kp_offset p), rm_destination = destination, rm_body = coalesce (kr_value (kp_record p)) [],
      rm_headers = kf_normalizeHeaders (kr_headers (kp_record p))\<rparr>"

definition schedulerMessage :: "destination \<Rightarrow> nat \<Rightarrow> bool \<Rightarrow> KfPayload \<Rightarrow> ReceivedMessage \<times> kf_call list" where
  "schedulerMessage destination consumer throws p =
     (kf_received destination p, if throws then [] else kf_commit consumer p)"

section \<open>The adapter\<close>

definition kf_result :: "('r \<Rightarrow> nat port_result) \<Rightarrow> 'r kafka_op \<Rightarrow> (Kafka, nat) operation" where
  "kf_result f op s = (case op s of (Inl e, s') \<Rightarrow> (Inl e, s') | (Inr x, s') \<Rightarrow> (Inr (f x), s'))"

definition kafka_adapter :: "(nat \<Rightarrow> string) \<Rightarrow> (Kafka, nat) Adapter" where
  "kafka_adapter rand = \<lparr>ad_name = kafka_name, ad_capabilities = kafka_capabilities,
     ad_busCapabilities = kafka_busCapabilities,
     ad_connect = kf_result (\<lambda>_. RUnit) kf_connect,
     ad_sendNow = (\<lambda>d p. kf_result (\<lambda>_. RUnit) (kf_sendNow d p)),
     ad_schedule = (\<lambda>d p at. kf_result RHandle (kf_schedule rand d p at)),
     ad_cancel = (\<lambda>h. kf_result (\<lambda>_. RUnit) (kf_cancel h)),
     ad_listScheduled = (\<lambda>d. kf_result RList (kf_listScheduled d)),
     ad_consume = (\<lambda>d h. kf_result RSub (kf_consume rand d h)),
     ad_connectBus = kf_result (\<lambda>_. RUnit) kf_connectBus,
     ad_publish = (\<lambda>t p rk opts. kf_result (\<lambda>_. RUnit) (kf_publish t p rk opts)),
     ad_subscribe = (\<lambda>t h opts. kf_result RSub (kf_subscribe rand t h opts)),
     ad_dispose = kf_result (\<lambda>_. RUnit) kf_dispose\<rparr>"

end
