(* ===== verification/Kafka_Properties.thy ===== *)
theory Kafka_Properties
  imports Kafka "HOL-Library.Sublist"
begin

text \<open>The properties of the Kafka adapter.\<close>

section \<open>Offsets\<close>

text \<open>
  A partition as its consumer sees it: the payload at each offset, and tries at them. A try is an offset, the
  settling calls the handler makes there, and whether it throws.
\<close>

definition payload_at :: "destination \<Rightarrow> nat \<Rightarrow> (nat \<Rightarrow> KafkaRecord) \<Rightarrow> nat \<Rightarrow> KfPayload" where
  "payload_at topic part records n = \<lparr>kp_topic = topic, kp_partition = part, kp_offset = n, kp_record = records n\<rparr>"

type_synonym handling = "nat \<times> settle_call list \<times> bool"

definition handling_calls :: "nat \<Rightarrow> (nat \<Rightarrow> KfPayload) \<Rightarrow> handling \<Rightarrow> kf_call list" where
  "handling_calls consumer pl = (\<lambda>(n, made, throws).
     snd (kafka_settlement.deliver made throws (kf_toIncoming (kp_topic (pl n)) consumer (pl n))))"

fun seeks :: "kf_call list \<Rightarrow> nat list" where
  "seeks [] = []"
| "seeks (KSeek c t p off # cs) = read_digits off # seeks cs"
| "seeks (_ # cs) = seeks cs"

fun commits :: "kf_call list \<Rightarrow> nat list" where
  "commits [] = []"
| "commits (KCommit c t p off # cs) = read_digits off # commits cs"
| "commits (_ # cs) = commits cs"

lemma commits_append [simp]: "commits (xs @ ys) = commits xs @ commits ys"
  by (induction xs rule: commits.induct) simp_all

text \<open>Where a new consumer of the group resumes, and where the running one reads next.\<close>

definition committed :: "nat \<Rightarrow> kf_call list \<Rightarrow> nat" where
  "committed start cs = last (start # commits cs)"

definition next_position :: "nat \<Rightarrow> kf_call list \<Rightarrow> nat" where
  "next_position n cs = last (Suc n # seeks cs)"

text \<open>
  The documented loop of kafkajs: one record of a partition at a time, in order of offsets; a seek moves the
  position. \<open>polled n hs\<close> says that the tries \<open>hs\<close> are such a run from offset \<open>n\<close>.
\<close>

fun polled :: "(handling \<Rightarrow> kf_call list) \<Rightarrow> nat \<Rightarrow> handling list \<Rightarrow> bool" where
  "polled f n [] = True"
| "polled f n (h # hs) = (fst h = n \<and> polled f (next_position n (f h)) hs)"

fun final_position :: "(handling \<Rightarrow> kf_call list) \<Rightarrow> nat \<Rightarrow> handling list \<Rightarrow> nat" where
  "final_position f n [] = n"
| "final_position f n (h # hs) = final_position f (next_position n (f h)) hs"

definition settles :: "handling \<Rightarrow> bool" where
  "settles h \<longleftrightarrow> (case h of (n, made, throws) \<Rightarrow> made \<noteq> [] \<or> throws)"

text \<open>The try ends with its record acknowledged or given up.\<close>

definition finishes :: "handling \<Rightarrow> bool" where
  "finishes h \<longleftrightarrow> (case h of (n, made, throws) \<Rightarrow> made \<noteq> [] \<and> hd made \<in> {CallAck, CallNack False})"

lemma handling_calls_first:
  "pl n = payload_at topic part records n \<Longrightarrow> settles (n, made, throws) \<Longrightarrow>
   handling_calls consumer pl (n, made, throws) =
    (if finishes (n, made, throws) then [KCommit consumer topic part (show_nat (Suc n))]
     else [KSeek consumer topic part (show_nat n)])"
proof (cases made)
  case (Cons x xs)
  moreover assume "pl n = payload_at topic part records n"
  ultimately show ?thesis
    by (cases x) (auto simp: handling_calls_def finishes_def kafka_settlement.deliver_settled kf_ack_def kf_nack_def
        kf_toIncoming_def payload_at_def kf_commit_def Let_def)
qed (auto simp: handling_calls_def finishes_def settles_def kafka_settlement.deliver_unsettled kf_nack_def
        kf_toIncoming_def payload_at_def Let_def)

lemma handling_calls_settled:
  assumes "settles h"
  shows "handling_calls consumer (payload_at topic part records) h =
    (if finishes h then [KCommit consumer topic part (show_nat (Suc (fst h)))]
     else [KSeek consumer topic part (show_nat (fst h))])"
  using handling_calls_first [of "payload_at topic part records" "fst h" topic part records "fst (snd h)" "snd (snd h)" consumer] assms
  by simp

lemma handling_step:
  assumes "settles h" and "fst h = n"
  shows "committed n (handling_calls consumer (payload_at topic part records) h) =
      next_position n (handling_calls consumer (payload_at topic part records) h)"
    and "next_position n (handling_calls consumer (payload_at topic part records) h) = (if finishes h then Suc n else n)"
  using assms by (simp_all add: handling_calls_settled committed_def next_position_def read_show_nat)

lemma committed_append: "committed n (xs @ ys) = committed (committed n xs) ys"
  by (simp add: committed_def last_append)

text \<open>Commits are made for positions reached, whichever of them the cluster then accepts.\<close>

lemma set_commits: "set (commits cs) = {read_digits off |c t p off. KCommit c t p off \<in> set cs}"
  by (induction cs rule: commits.induct) auto

lemma commits_below_position:
  assumes "polled (handling_calls consumer (payload_at topic part records)) n hs" and "list_all settles hs"
  shows "n \<le> final_position (handling_calls consumer (payload_at topic part records)) n hs \<and>
    (\<forall>x \<in> set (commits (concat (map (handling_calls consumer (payload_at topic part records)) hs))).
      x \<le> final_position (handling_calls consumer (payload_at topic part records)) n hs)"
  using assms
proof (induction hs arbitrary: n)
  case (Cons h hs)
  let ?f = "handling_calls consumer (payload_at topic part records)"
  let ?n = "next_position n (?f h)"
  from Cons.prems have h: "fst h = n" "settles h" and rest: "polled ?f ?n hs" "list_all settles hs" by auto
  note step = handling_step [OF h(2,1), of consumer topic part records]
  note IH = Cons.IH [OF rest]
  have "\<forall>x \<in> set (commits (?f h)). x \<le> ?n"
    using h by (simp add: handling_calls_settled next_position_def read_show_nat)
  moreover have "n \<le> ?n" by (simp add: step)
  ultimately show ?case using IH by fastforce
qed simp

lemma committed_below_position:
  assumes "polled (handling_calls consumer (payload_at topic part records)) n hs" and "list_all settles hs"
    and "subseq accepted (concat (map (handling_calls consumer (payload_at topic part records)) hs))"
  shows "committed n accepted \<le> final_position (handling_calls consumer (payload_at topic part records)) n hs"
proof -
  have "set (commits accepted) \<subseteq> set (commits (concat (map (handling_calls consumer (payload_at topic part records)) hs)))"
    using list_emb_set [OF assms(3)] unfolding set_commits by blast
  moreover have "committed n accepted \<in> insert n (set (commits accepted))"
    using last_in_set [of "n # commits accepted"] by (simp add: committed_def)
  ultimately show ?thesis using commits_below_position [OF assms(1,2)] by auto
qed

lemma settled_positions:
  assumes "polled (handling_calls consumer (payload_at topic part records)) n hs" and "list_all settles hs"
  shows "committed n (concat (map (handling_calls consumer (payload_at topic part records)) hs)) =
      final_position (handling_calls consumer (payload_at topic part records)) n hs \<and>
    (\<forall>m. n \<le> m \<and> m < final_position (handling_calls consumer (payload_at topic part records)) n hs \<longrightarrow>
      list_ex (\<lambda>h. fst h = m \<and> finishes h) hs)"
  using assms
proof (induction hs arbitrary: n)
  case Nil
  then show ?case by (simp add: committed_def)
next
  case (Cons h hs)
  let ?f = "handling_calls consumer (payload_at topic part records)"
  let ?n = "next_position n (?f h)"
  from Cons.prems have h: "fst h = n" "settles h" and rest: "polled ?f ?n hs" "list_all settles hs" by auto
  note step = handling_step [OF h(2,1), of consumer topic part records]
  note IH = Cons.IH [OF rest]
  have "list_ex (\<lambda>h. fst h = m \<and> finishes h) (h # hs)" if "n \<le> m" "m < final_position ?f ?n hs" for m
  proof (cases "m = n \<and> finishes h")
    case False
    with that step(2) have "?n \<le> m \<or> ?n = n" by auto
    with that IH show ?thesis using h(1) by auto
  qed (use h in simp)
  with IH step(1) show ?case by (simp add: committed_append)
qed

text \<open>C28. At least once: when every handler settles or throws, every record below the position the consumer reads
next that was read since the start has been acknowledged or given up by one of its tries, no record is passed
over, and the group's committed offset is that position, or one not beyond it if the cluster refuses some of the
commits. A restarted consumer never resumes past a record that was not settled.\<close>

theorem kafka_at_least_once:
  assumes "polled (handling_calls consumer (payload_at topic part records)) n hs" and "list_all settles hs"
  shows "committed n (concat (map (handling_calls consumer (payload_at topic part records)) hs)) =
      final_position (handling_calls consumer (payload_at topic part records)) n hs \<and>
    (subseq accepted (concat (map (handling_calls consumer (payload_at topic part records)) hs)) \<longrightarrow>
      committed n accepted \<le> final_position (handling_calls consumer (payload_at topic part records)) n hs) \<and>
    (\<forall>m. n \<le> m \<and> m < final_position (handling_calls consumer (payload_at topic part records)) n hs \<longrightarrow>
      list_ex (\<lambda>h. fst h = m \<and> finishes h) hs)"
  using settled_positions [OF assms] committed_below_position [OF assms] by blast

theorem kafka_at_least_once_witness:
  "committed 0 (concat (map (handling_calls 0 (payload_at ''t'' 0 (\<lambda>_. \<lparr>kr_value = Some ''x'', kr_key = None, kr_headers = []\<rparr>)))
     [(0, [], True), (0, [CallAck], False), (1, [CallNack False], True)])) = 2"
proof -
  let ?r = "\<lambda>_ :: nat. \<lparr>kr_value = Some ''x'', kr_key = None, kr_headers = []\<rparr>"
  let ?f = "handling_calls 0 (payload_at ''t'' 0 ?r)"
  let ?hs = "[(0, [], True), (0, [CallAck], False), (1, [CallNack False], True)] :: handling list"
  note step = handling_step(2) [of _ _ 0 "''t''" 0 ?r]
  have fin: "final_position ?f 0 ?hs = 2" and pol: "polled ?f 0 ?hs"
    by (simp_all add: step settles_def finishes_def)
  from kafka_at_least_once [OF pol] fin show ?thesis by (simp add: settles_def)
qed

text \<open>An acknowledgement is cumulative: after a try that acknowledges offset \<open>n\<close> first, the group resumes at
\<open>n + 1\<close> whatever happened at the offsets before, also for records a handler left unsettled.\<close>

theorem kafka_ack_cumulative:
  "committed start (concat (map (handling_calls consumer (payload_at topic part records)) hs) @
      handling_calls consumer (payload_at topic part records) (n, CallAck # made, throws)) = Suc n \<and>
   handling_calls consumer (payload_at topic part records) (m, [], False) = []"
proof -
  have "settles (n, CallAck # made, throws)" "finishes (n, CallAck # made, throws)"
    by (simp_all add: settles_def finishes_def)
  then show ?thesis
    by (simp add: handling_calls_settled committed_def read_show_nat)
      (simp add: handling_calls_def kafka_settlement.deliver_unsettled)
qed

section \<open>Publishing\<close>

fun kf_publish_all :: "destination \<Rightarrow> (string \<times> string option \<times> PublishOptions option) list \<Rightarrow> unit kafka_op" where
  "kf_publish_all topic [] = Pair (Inr ())"
| "kf_publish_all topic ((payload, routingKey, options) # rest) =
     and_then (kf_publish topic payload routingKey options) (\<lambda>_. kf_publish_all topic rest)"

text \<open>The record of a publish.\<close>

definition record_of :: "string \<Rightarrow> PublishOptions option \<Rightarrow> KafkaRecord" where
  "record_of payload options = \<lparr>kr_value = Some payload, kr_key = opt_field po_groupId options,
     kr_headers = publishHeaders options\<rparr>"

definition kf_sends :: "destination \<Rightarrow> (string \<times> string option \<times> PublishOptions option) list \<Rightarrow> kf_call list" where
  "kf_sends topic = map (\<lambda>(payload, routingKey, options). KSend topic (record_of payload options))"

lemma kf_call_accepted: "kf_refuses s = (\<lambda>_. None) \<Longrightarrow> kf_call c s = (Inr (), kf_emit [c] s)"
  by (simp add: kf_call_def)

lemma kf_publish_known:
  "topic \<in> kf_topics s \<Longrightarrow> kf_producer s \<Longrightarrow> kf_refuses s = (\<lambda>_. None) \<Longrightarrow>
   kf_publish topic payload rk options s = (Inr (), kf_emit [KSend topic (record_of payload options)] s)"
  by (simp add: kf_publish_def ensureTopic_def kf_send_def kf_needs_def kf_call_accepted record_of_def)

lemma kf_publish_all_known:
  "topic \<in> kf_topics s \<Longrightarrow> kf_producer s \<Longrightarrow> kf_refuses s = (\<lambda>_. None) \<Longrightarrow>
   \<exists>s'. kf_publish_all topic ms s = (Inr (), s') \<and> kf_log s' = kf_log s @ kf_sends topic ms \<and> kf_topics s' = kf_topics s"
proof (induction ms arbitrary: s)
  case (Cons m ms)
  obtain payload rk options where m: "m = (payload, rk, options)" by (cases m) auto
  let ?s = "kf_emit [KSend topic (record_of payload options)] s"
  from Cons.IH [of ?s] Cons.prems show ?case by (auto simp: m kf_publish_known kf_sends_def)
qed (simp add: kf_sends_def)

text \<open>On a connected adapter whose calls are accepted a run of publishes to one topic succeeds and appends one record per publish, in
order, keyed by the message group; the topic is created first, with three partitions, unless the adapter
created it before, and never again.\<close>

theorem kafka_publish_appends:
  assumes "kf_producer s" and "kf_admin s" and "ms \<noteq> []" and "kf_refuses s = (\<lambda>_. None)"
  shows "\<exists>s'. kf_publish_all topic ms s = (Inr (), s') \<and> topic \<in> kf_topics s' \<and>
    kf_log s' = kf_log s @ (if topic \<in> kf_topics s then [] else [KCreateTopic topic 3]) @ kf_sends topic ms"
proof (cases "topic \<in> kf_topics s")
  case True
  then show ?thesis using kf_publish_all_known [of topic s ms] assms(1,4) by auto
next
  case False
  obtain payload rk options rest where ms: "ms = (payload, rk, options) # rest" using assms(3) by (cases ms) auto
  let ?s = "kf_emit [KSend topic (record_of payload options)]
    ((kf_emit [KCreateTopic topic 3] s)\<lparr>kf_topics := insert topic (kf_topics s)\<rparr>)"
  have "kf_publish topic payload rk options s = (Inr (), ?s)"
    using False assms(1,2,4)
    by (simp add: kf_publish_def ensureTopic_def kf_send_def kf_needs_def kf_call_accepted record_of_def kf_partitions_def)
  with kf_publish_all_known [of topic ?s rest] assms(1,4) False show ?thesis by (auto simp: ms kf_sends_def)
qed

definition connected_kafka :: Kafka where
  "connected_kafka = snd (kf_ensureClient (kafka_init (kafkaConfigFromEnv Map.empty)))"

lemma connected_kafka_ready: "kf_producer connected_kafka" "kf_admin connected_kafka" "kf_topics connected_kafka = {}"
  "kf_refuses connected_kafka = (\<lambda>_. None)"
  by (simp_all add: connected_kafka_def kf_ensureClient_def kafka_init_def ensureKafka_def ensureProducer_def
      ensureAdmin_def kf_call_def and_then_def)

theorem kafka_publish_appends_witness:
  "\<exists>s'. kf_publish_all ''t'' [(''x'', None, None), (''y'', None, None)] connected_kafka = (Inr (), s') \<and>
    kf_log s' = kf_log connected_kafka @ [KCreateTopic ''t'' 3, KSend ''t'' (record_of ''x'' None), KSend ''t'' (record_of ''y'' None)]"
  using kafka_publish_appends [OF connected_kafka_ready(1,2) _ connected_kafka_ready(4),
      of "[(''x'', None, None), (''y'', None, None)]" "''t''"]
  by (auto simp: connected_kafka_ready kf_sends_def)

text \<open>What a publish puts in a record comes back from it: body, group, reply address, correlation id and every
other header, when the reply address and the correlation id are given and not empty; the priority and the
time to live do not.\<close>

theorem kafka_options_roundtrip:
  assumes "truthy_string (opt_field po_replyTo options)" and "truthy_string (opt_field po_correlationId options)"
    and "kp_record p = record_of payload options" and "k \<notin> {''replyTo'', ''correlationId''}"
  shows "(let m = ki_message (kf_toIncoming topic consumer p)
     in rm_body m = payload \<and> im_groupId m = opt_field po_groupId options \<and>
        im_replyTo m = opt_field po_replyTo options \<and> im_correlationId m = opt_field po_correlationId options \<and>
        js_map_get (rm_headers m) k = js_map_get (coalesce (opt_field po_headers options) []) k \<and> im_priority m = None)"
proof -
  let ?h = "map (\<lambda>(k, v). (k, JStr v)) (coalesce (opt_field po_headers options) [])"
  obtain r c where r: "opt_field po_replyTo options = Some r" "r \<noteq> []" and c: "opt_field po_correlationId options = Some c" "c \<noteq> []"
    using assms(1,2) by (auto simp: truthy_string_def split: option.splits)
  have hs: "kr_headers (kp_record p) = js_map_set (js_map_set ?h ''correlationId'' (JStr c)) ''replyTo'' (JStr r)"
    using r c assms(3) by (simp add: record_of_def publishHeaders_def)
  have norm: "js_map_get (kf_normalizeHeaders xs) k = map_option js_String (js_map_get xs k)"
    if "\<forall>v \<in> snd ` set xs. v \<noteq> Undef \<and> v \<noteq> Null" for xs k
    using that by (induction xs) (auto simp: kf_normalizeHeaders_def)
  have set_ok: "\<forall>v \<in> snd ` set (js_map_set xs k (JStr x)). v \<noteq> Undef \<and> v \<noteq> Null"
    if "\<forall>v \<in> snd ` set xs. v \<noteq> Undef \<and> v \<noteq> Null" for xs and k x :: string
    using that set_js_map_set [of xs k "JStr x"] by force
  have "\<forall>v \<in> snd ` set ?h. v \<noteq> Undef \<and> v \<noteq> Null" by auto
  then have ok: "\<forall>v \<in> snd ` set (kr_headers (kp_record p)). v \<noteq> Undef \<and> v \<noteq> Null"
    unfolding hs by (intro set_ok)
  have get: "map_option js_String (js_map_get (map (\<lambda>(k, v). (k, JStr v)) xs) k) = js_map_get xs k" for xs k
    by (induction xs) auto
  have hd: "js_map_get (kf_normalizeHeaders (kr_headers (kp_record p))) x =
      map_option js_String (js_map_get (js_map_set (js_map_set ?h ''correlationId'' (JStr c)) ''replyTo'' (JStr r)) x)" for x
    using norm [OF ok] unfolding hs .
  have "kr_value (kp_record p) = Some payload" "kr_key (kp_record p) = opt_field po_groupId options"
    using assms(3) by (simp_all add: record_of_def)
  then show ?thesis using assms(4) r c by (simp add: kf_toIncoming_def Let_def hd get)
qed

theorem kafka_options_roundtrip_witness:
  "im_replyTo (ki_message (kf_toIncoming ''t'' 0 (payload_at ''t'' 0
     (\<lambda>_. record_of ''x'' (Some (no_publish_options\<lparr>po_replyTo := Some ''back'', po_correlationId := Some ''c1''\<rparr>))) 4))) = Some ''back''"
  using kafka_options_roundtrip [of "Some (no_publish_options\<lparr>po_replyTo := Some ''back'', po_correlationId := Some ''c1''\<rparr>)"
      "payload_at ''t'' 0 (\<lambda>_. record_of ''x'' (Some (no_publish_options\<lparr>po_replyTo := Some ''back'', po_correlationId := Some ''c1''\<rparr>))) 4"
      "''x''" "''k''" "''t''" 0]
  by (simp add: payload_at_def Let_def no_publish_options_def)

end
