(* ===== verification/Kafka_Runs.thy ===== *)
theory Kafka_Runs
  imports Kafka_Properties Decorator_Properties
begin

text \<open>
  Runs of the Kafka adapter over a cluster that may refuse any call: which consumers are still running when
  the adapter is disposed of, and what \<open>connect\<close> reports when the cluster is down.
\<close>

section \<open>Consumers\<close>

text \<open>The consumers that were told to run and not yet to disconnect.\<close>

fun running_step :: "nat set \<Rightarrow> kf_call \<Rightarrow> nat set" where
  "running_step R (KRun n c) = insert n R"
| "running_step R (KDisconnect n) = R - {n}"
| "running_step R _ = R"

definition running :: "kf_call list \<Rightarrow> nat set" where
  "running calls = foldl running_step {} calls"

definition starts_nothing :: "kf_call \<Rightarrow> bool" where
  "starts_nothing c \<longleftrightarrow> (\<forall>n b. c \<noteq> KRun n b)"

lemma running_snoc: "running (cs @ [c]) = running_step (running cs) c"
  by (simp add: running_def)

lemma running_step_quiet: "starts_nothing c \<Longrightarrow> running_step R c \<subseteq> R"
  by (cases c) (auto simp: starts_nothing_def)

lemma running_disconnects: "running (cs @ map KDisconnect ns) = running cs - set ns"
proof -
  have "foldl running_step R (map KDisconnect ns) = R - set ns" for R
    by (induction ns arbitrary: R) auto
  then show ?thesis by (simp add: running_def)
qed

definition consumers_ok :: "Kafka \<Rightarrow> bool" where
  "consumers_ok s \<longleftrightarrow> running (kf_log s) \<subseteq> set (kf_consumers s)"

definition keeps_consumers :: "'a kafka_op \<Rightarrow> bool" where
  "keeps_consumers op \<longleftrightarrow> (\<forall>s. consumers_ok s \<longrightarrow> consumers_ok (snd (op s)))"

lemma kf_keeps_and_then:
  assumes "keeps_consumers m" and "\<And>x. keeps_consumers (f x)"
  shows "keeps_consumers (and_then m f)"
  unfolding keeps_consumers_def
proof (intro allI impI)
  fix s assume s: "consumers_ok s"
  obtain r t where m: "m s = (r, t)" by (meson surj_pair)
  have "consumers_ok t" using assms(1) s m by (auto simp: keeps_consumers_def dest: spec [of _ s])
  then show "consumers_ok (snd (and_then m f s))"
    using assms(2) m by (cases r) (simp_all add: keeps_consumers_def)
qed

lemma kf_keeps_cond:
  "keeps_consumers f \<Longrightarrow> keeps_consumers g \<Longrightarrow> keeps_consumers (\<lambda>s. if P s then f s else g s)"
  by (simp add: keeps_consumers_def)

lemma kf_keeps_value: "keeps_consumers (\<lambda>s. (r s, s))"
  by (simp add: keeps_consumers_def)

lemma kf_keeps_call: "starts_nothing c \<Longrightarrow> keeps_consumers (kf_call c)"
  using running_step_quiet [of c]
  by (auto simp: keeps_consumers_def consumers_ok_def kf_call_def running_snoc split: option.split)

lemma kf_keeps_update:
  "(\<And>s. kf_log (f s) = kf_log s \<and> kf_consumers (f s) = kf_consumers s) \<Longrightarrow> keeps_consumers op \<Longrightarrow>
     keeps_consumers (\<lambda>s. op (f s))"
  by (simp add: keeps_consumers_def consumers_ok_def)

lemma kf_keeps_needs: "starts_nothing c \<Longrightarrow> keeps_consumers (kf_needs client c)"
  unfolding kf_needs_def by (intro kf_keeps_cond kf_keeps_call kf_keeps_value)

lemma starts_nothing_simps [simp]:
  "starts_nothing (KClient i b)" "starts_nothing KProducerConnect" "starts_nothing KAdminConnect"
  "starts_nothing (KCreateTopic t n)" "starts_nothing (KSend t r)" "starts_nothing (KConsumer n g)"
  "starts_nothing (KConsumerConnect n)" "starts_nothing (KSubscribe n t e)" "starts_nothing (KDisconnect n)"
  "starts_nothing KProducerDisconnect" "starts_nothing KAdminDisconnect"
  by (simp_all add: starts_nothing_def)

lemma kf_keeps_ensureClient: "keeps_consumers kf_ensureClient"
proof -
  have "keeps_consumers ensureKafka"
    by (auto simp: keeps_consumers_def consumers_ok_def ensureKafka_def running_snoc)
  moreover have "keeps_consumers ensureProducer" "keeps_consumers ensureAdmin"
    unfolding ensureProducer_def ensureAdmin_def
    by (intro kf_keeps_cond kf_keeps_value kf_keeps_update [OF _ kf_keeps_call]; simp)+
  ultimately show ?thesis unfolding kf_ensureClient_def by (intro kf_keeps_and_then)
qed

lemma kf_keeps_ensureTopic: "keeps_consumers (ensureTopic t)"
  unfolding ensureTopic_def
  by (intro kf_keeps_cond kf_keeps_value kf_keeps_and_then kf_keeps_needs kf_keeps_update [OF _ kf_keeps_value]) simp_all

lemma kf_keeps_sendNow: "keeps_consumers (kf_sendNow d p)"
  unfolding kf_sendNow_def kf_send_def by (intro kf_keeps_and_then kf_keeps_ensureTopic kf_keeps_needs) simp

lemma kf_keeps_publish: "keeps_consumers (kf_publish t p rk opts)"
  unfolding kf_publish_def kf_send_def by (intro kf_keeps_and_then kf_keeps_ensureTopic kf_keeps_needs) simp

lemma kf_keeps_randomGroup: "keeps_consumers (randomGroup rand word)"
  by (simp add: keeps_consumers_def consumers_ok_def randomGroup_def)

lemma kf_keeps_schedule: "keeps_consumers (kf_schedule rand d p at)"
  unfolding kf_schedule_def by (intro kf_keeps_and_then kf_keeps_sendNow kf_keeps_randomGroup kf_keeps_value)

text \<open>A consumer is listed before it runs.\<close>

lemma kf_keeps_startConsumer: "keeps_consumers (startConsumer t g)"
proof -
  have new: "keeps_consumers (newConsumer g)"
    by (auto simp: keeps_consumers_def consumers_ok_def newConsumer_def running_snoc Let_def)
  have run: "keeps_consumers (and_then (keepConsumer n) (\<lambda>_. and_then (kf_call (KRun n False)) (\<lambda>_ s. (Inr n, s))))" for n
    by (auto simp: keeps_consumers_def consumers_ok_def keepConsumer_def and_then_def kf_call_def running_snoc
        split: option.split)
  show ?thesis
    unfolding startConsumer_def by (intro kf_keeps_and_then new run kf_keeps_call) simp_all
qed

lemma kf_keeps_consume: "keeps_consumers (kf_consume rand d h)"
  unfolding kf_consume_def by (intro kf_keeps_and_then kf_keeps_randomGroup kf_keeps_startConsumer)

lemma kf_keeps_subscribe: "keeps_consumers (kf_subscribe rand t h opts)"
  unfolding kf_subscribe_def Let_def
  by (intro kf_keeps_and_then kf_keeps_ensureTopic)
    (auto intro: kf_keeps_and_then kf_keeps_randomGroup kf_keeps_startConsumer split: option.split)

lemma remove1_subset: "R \<subseteq> set xs \<Longrightarrow> R - {n} \<subseteq> set (remove1 n xs)"
  using in_set_remove1 [of _ n xs] by blast

lemma kf_keeps_unsubscribe: "keeps_consumers (kf_unsubscribe n)"
  by (simp add: keeps_consumers_def consumers_ok_def kf_unsubscribe_def swallow_def and_then_def kf_call_def
      running_snoc remove1_subset split: option.split)

lemma kf_keeps_dispose: "keeps_consumers kf_dispose"
proof -
  have "keeps_consumers disconnectConsumers"
    by (auto simp: keeps_consumers_def consumers_ok_def disconnectConsumers_def running_disconnects)
  then show ?thesis
    unfolding kf_dispose_def by (intro kf_keeps_and_then kf_keeps_cond kf_keeps_call kf_keeps_value) simp_all
qed

text \<open>A run of the adapter: port operations one after the other, whatever becomes of each, while time passes.\<close>

inductive kafka_run :: "(nat \<Rightarrow> string) \<Rightarrow> Kafka \<Rightarrow> Kafka \<Rightarrow> bool" for rand s0 where
  kf_run_start: "kafka_run rand s0 s0"
| kf_run_time: "kafka_run rand s0 s \<Longrightarrow> kafka_run rand s0 (s\<lparr>kf_now := at\<rparr>)"
| kf_run_connect: "kafka_run rand s0 s \<Longrightarrow> kafka_run rand s0 (snd (kf_ensureClient s))"
| kf_run_sendNow: "kafka_run rand s0 s \<Longrightarrow> kafka_run rand s0 (snd (kf_sendNow d p s))"
| kf_run_schedule: "kafka_run rand s0 s \<Longrightarrow> kafka_run rand s0 (snd (kf_schedule rand d p at s))"
| kf_run_consume: "kafka_run rand s0 s \<Longrightarrow> kafka_run rand s0 (snd (kf_consume rand d h s))"
| kf_run_publish: "kafka_run rand s0 s \<Longrightarrow> kafka_run rand s0 (snd (kf_publish t p rk opts s))"
| kf_run_subscribe: "kafka_run rand s0 s \<Longrightarrow> kafka_run rand s0 (snd (kf_subscribe rand t h sopts s))"
| kf_run_unsubscribe: "kafka_run rand s0 s \<Longrightarrow> kafka_run rand s0 (snd (kf_unsubscribe n s))"
| kf_run_dispose: "kafka_run rand s0 s \<Longrightarrow> kafka_run rand s0 (snd (kf_dispose s))"

lemmas kafka_keeps = kf_keeps_ensureClient kf_keeps_sendNow kf_keeps_schedule kf_keeps_consume kf_keeps_publish kf_keeps_subscribe
  kf_keeps_unsubscribe kf_keeps_dispose

lemma kafka_run_ok:
  assumes "kafka_run rand s0 s" and "consumers_ok s0"
  shows "consumers_ok s"
  using assms(1)
proof induction
  case kf_run_start
  show ?case by (rule assms(2))
next
  case (kf_run_time s at)
  then show ?case by (simp add: consumers_ok_def)
qed (use kafka_keeps in \<open>simp_all add: keeps_consumers_def\<close>)

lemma kafka_init_ok: "consumers_ok ((kafka_init cfg)\<lparr>kf_refuses := f\<rparr>)"
  by (simp add: consumers_ok_def kafka_init_def running_def)

lemma dispose_lists_none: "kf_consumers (snd (kf_dispose s)) = []"
  by (cases "kf_producer s"; simp add: kf_dispose_def disconnectConsumers_def and_then_def kf_call_def split: option.split)


definition two_subscribers :: Kafka where
  "two_subscribers =
     (let s0 = (kafka_init (kafkaConfigFromEnv Map.empty))\<lparr>kf_refuses := (\<lambda>n. if n = 11 then Some (Error ''timeout'') else None)\<rparr>;
          opts = (\<lambda>sid. Some (no_subscribe_options\<lparr>so_subscriberId := Some sid\<rparr>))
      in snd (kf_subscribe show_nat ''t'' 2 (opts ''b'') (snd (kf_subscribe show_nat ''t'' 1 (opts ''a'')
           (snd (kf_ensureClient s0))))))"


text \<open>The consumers that were told to connect and not yet to disconnect.\<close>

fun connected_step :: "nat set \<Rightarrow> kf_call \<Rightarrow> nat set" where
  "connected_step R (KConsumerConnect n) = insert n R"
| "connected_step R (KDisconnect n) = R - {n}"
| "connected_step R _ = R"

definition connected :: "kf_call list \<Rightarrow> nat set" where
  "connected calls = foldl connected_step {} calls"

text \<open>Only a consumer that has subscribed is listed: when the cluster accepts a consumer's connection and refuses its
subscription, the failed \<open>subscribe\<close> leaves it connected, and disposing of the adapter does not disconnect it.\<close>

theorem kafka_failed_subscribe_leaks:
  fixes f cfg defines "s \<equiv> snd (kf_ensureClient ((kafka_init cfg)\<lparr>kf_refuses := f\<rparr>))"
  assumes "\<forall>n < 6. f n = None" and "f 6 = Some e"
  shows "(case kf_subscribe rand t h (Some (no_subscribe_options\<lparr>so_subscriberId := Some g\<rparr>)) s of
      (r, s') \<Rightarrow> r = Inl e \<and> connected (kf_log s') = {0} \<and> connected (kf_log (snd (kf_dispose s'))) = {0})"
proof -
  have f: "f (Suc 0) = None" "f (Suc (Suc 0)) = None" "f (Suc (Suc (Suc 0))) = None"
    "f (Suc (Suc (Suc (Suc 0)))) = None" "f (Suc (Suc (Suc (Suc (Suc 0))))) = None"
    "f (Suc (Suc (Suc (Suc (Suc (Suc 0)))))) = Some e"
    using assms(2,3) by (simp_all add: eval_nat_numeral)
  have s: "s = \<lparr>kf_cfg = cfg, kf_kafka = True, kf_producer = True, kf_admin = True, kf_consumers = [], kf_nextConsumer = 0,
      kf_topics = {}, kf_now = 0, kf_draws = 0,
      kf_log = [KClient (kc_clientId cfg) (kc_brokers cfg), KProducerConnect, KAdminConnect], kf_refuses = f\<rparr>"
    using f by (simp add: assms(1) kf_ensureClient_def ensureKafka_def ensureProducer_def ensureAdmin_def kafka_init_def
        kf_call_def kf_emit_def and_then_def)
  show ?thesis
    using f
    by (simp add: s kf_subscribe_def no_subscribe_options_def ensureTopic_def kf_needs_def kf_call_def kf_emit_def
        and_then_def startConsumer_def newConsumer_def keepConsumer_def connected_def kf_dispose_def
        disconnectConsumers_def split: option.split)
qed

section \<open>Connecting to a cluster that is down\<close>

definition down :: "KafkaConfig \<Rightarrow> (nat \<Rightarrow> js_error) \<Rightarrow> Kafka" where
  "down cfg err = (kafka_init cfg)\<lparr>kf_refuses := (\<lambda>n. Some (err n))\<rparr>"

text \<open>The producer and the admin client are assigned before they connect, so each failed \<open>connect\<close> skips one client
the next time.\<close>

definition half_connected :: "KafkaConfig \<Rightarrow> (nat \<Rightarrow> js_error) \<Rightarrow> nat \<Rightarrow> Kafka" where
  "half_connected cfg err n = (down cfg err)
     \<lparr>kf_kafka := True, kf_producer := True, kf_admin := (n = 2),
      kf_log := take (n + 1) [KClient (kc_clientId cfg) (kc_brokers cfg), KProducerConnect, KAdminConnect]\<rparr>"

lemma connect_down:
  "kf_connect (down cfg err) = (Inl (err 1), half_connected cfg err 1)"
  "kf_connect (half_connected cfg err 1) = (Inl (err 2), half_connected cfg err 2)"
  "kf_connect (half_connected cfg err 2) = (Inr (), half_connected cfg err 2)"
  by (simp_all add: eval_nat_numeral kf_connect_def kf_ensureClient_def ensureKafka_def ensureProducer_def ensureAdmin_def kf_call_def
      kf_emit_def and_then_def down_def half_connected_def kafka_init_def)

lemma retry_connect_down:
  assumes "2 \<le> n" and "handled (err 1)" and "handled (err 2)"
  shows "retry_up_to n handled (ad_connect (kafka_adapter rand)) (down cfg err) = (Inr RUnit, half_connected cfg err 2)"
proof -
  obtain m where n: "n = Suc (Suc m)" using assms(1) by (auto simp: le_iff_add)
  have third: "retry_up_to m handled (ad_connect (kafka_adapter rand)) (half_connected cfg err 2) =
      (Inr RUnit, half_connected cfg err 2)"
    by (cases m) (simp_all add: kafka_adapter_def kf_result_def connect_down)
  have first: "ad_connect (kafka_adapter rand) (down cfg err) = (Inl (err 1), half_connected cfg err 1)"
    "ad_connect (kafka_adapter rand) (half_connected cfg err 1) = (Inl (err 2), half_connected cfg err 2)"
    unfolding kafka_adapter_def by (simp_all add: kf_result_def connect_down del: One_nat_def)
  with third assms(2,3) show ?thesis by (simp add: n del: One_nat_def)
qed

text \<open>C23. A retried connect masks an outage of Kafka: with every call refused, the adapter's first two connects fail and
the third reports success although no call was accepted. Behind the resilient decorator with two or more
retries a single connect therefore succeeds on a cluster that is down, and the publish after it fails.\<close>

theorem kafka_connect_masks_outage:
  assumes "\<And>op p w. closed p \<Longrightarrow> maxRetryAttempts options < consecutiveFailures options \<Longrightarrow>
      fst (execute handled options op (p, w)) = fst (retry_up_to (maxRetryAttempts options) handled op w) \<and>
      snd (snd (execute handled options op (p, w))) = snd (retry_up_to (maxRetryAttempts options) handled op w)"
    and "closed p0" and "maxRetryAttempts options < consecutiveFailures options"
    and "2 \<le> maxRetryAttempts options" and "handled (err 1)" and "handled (err 2)"
  shows "(case ad_connect (ResilientScheduler execute options (kafka_adapter rand)) (p0, down cfg err) of
      (r, _, s) \<Rightarrow> r = Inr RUnit \<and>
        kf_log s = [KClient (kc_clientId cfg) (kc_brokers cfg), KProducerConnect, KAdminConnect] \<and>
        fst (kf_publish t payload rk opts s) = Inl (err 3))"
proof -
  let ?out = "ad_connect (ResilientScheduler execute options (kafka_adapter rand)) (p0, down cfg err)"
  have out: "fst ?out = Inr RUnit" "snd (snd ?out) = half_connected cfg err 2"
    using assms(1) [OF assms(2,3)] retry_connect_down [OF assms(4-6)] by (simp_all add: ResilientScheduler_def Let_def)
  have "fst (kf_publish t payload rk opts (half_connected cfg err 2)) = Inl (err 3)"
    by (simp add: eval_nat_numeral kf_publish_def ensureTopic_def kf_needs_def kf_call_def and_then_def half_connected_def
        down_def kafka_init_def)
  with out show ?thesis by (simp add: case_prod_unfold half_connected_def)
qed

theorem kafka_connect_masks_outage_witness:
  "fst (ad_connect (ResilientScheduler documented_execute DEFAULT_RESILIENCE (kafka_adapter show_nat))
      (True, down (kafkaConfigFromEnv Map.empty) (\<lambda>_. Error ''ECONNREFUSED''))) = Inr RUnit"
proof -
  note masks = kafka_connect_masks_outage [of id DEFAULT_RESILIENCE documented_execute True "\<lambda>_. Error ''ECONNREFUSED''"]
  show ?thesis
    using masks by (simp add: documented_execute_def DEFAULT_RESILIENCE_def case_prod_unfold handled_def)
qed

end
