(* ===== verification/Scenario_Port.thy ===== *)
theory Scenario_Port
  imports Decorators Js_Value Settlement_Port Idempotency
begin

text \<open>
  What the scenarios share (\<open>scenarios/scenario.ts\<close>), and the environment a scenario runs in.

  A scenario is a program over an adapter's state \<open>'w\<close> and the variables its closures share (\<open>Locals\<close>). The
  environment gives the port (\<open>en_port\<close>), the clock, the random suffixes, how a subscription is stopped, and
  \<open>en_elapse ms\<close>, which lets the event loop run for \<open>ms\<close> milliseconds; \<open>await\<close> of a port call lets the jobs run
  that are ready (\<open>en_elapse 0\<close>). A message handler is a closure numbered by its place in the sources; what it
  does with a message is a list of actions (\<open>act\<close>).
\<close>

section \<open>Results\<close>

datatype ScenarioStatus = StatusPass | StatusFail | StatusUnsupported | StatusSkipped

record ScenarioResult =
  sr_name :: string
  sr_status :: ScenarioStatus
  sr_detail :: string
  sr_durationMs :: int

section \<open>Variables, handlers, environment\<close>

record Locals =
  lo_counter :: nat
  lo_draws :: nat
  lo_plain :: "(handler \<times> ReceivedMessage list) list"
  lo_received :: "(handler \<times> IncomingMessage list) list"
  lo_vars :: "(string \<times> js_value) list"
  lo_store :: MemoryStore

definition no_locals :: Locals where
  "no_locals = \<lparr>lo_counter = 0, lo_draws = 0, lo_plain = [], lo_received = [], lo_vars = [], lo_store = empty_store\<rparr>"

definition set_var :: "string \<Rightarrow> js_value \<Rightarrow> Locals \<Rightarrow> Locals" where
  "set_var v x l = l\<lparr>lo_vars := js_map_set (lo_vars l) v x\<rparr>"

definition get_var :: "string \<Rightarrow> Locals \<Rightarrow> js_value" where
  "get_var v l = (case js_map_get (lo_vars l) v of None \<Rightarrow> Undef | Some x \<Rightarrow> x)"

definition num_var :: "string \<Rightarrow> Locals \<Rightarrow> int" where
  "num_var v l = coalesce (as_number (get_var v l)) 0"

definition add_var :: "string \<Rightarrow> int \<Rightarrow> Locals \<Rightarrow> Locals" where
  "add_var v n l = set_var v (JNum (num_var v l + n)) l"

fun as_array :: "js_value \<Rightarrow> js_value list" where
  "as_array (JArr xs) = xs"
| "as_array _ = []"

definition arr_var :: "string \<Rightarrow> Locals \<Rightarrow> js_value list" where
  "arr_var v l = as_array (get_var v l)"

definition push_var :: "string \<Rightarrow> js_value \<Rightarrow> Locals \<Rightarrow> Locals" where
  "push_var v x l = set_var v (JArr (arr_var v l @ [x])) l"

definition set_vars :: "(string \<times> js_value) list \<Rightarrow> Locals \<Rightarrow> Locals" where
  "set_vars vs = fold (\<lambda>(v, x). set_var v x) vs"

text \<open>
  The steps of a handler. \<open>Settle\<close> stands for \<open>await m.ack()\<close> and \<open>await m.nack(r)\<close>; \<open>Throw\<close> ends the handler.
\<close>

datatype act =
    Update "Locals \<Rightarrow> Locals"
  | Settle settle_call
  | Send destination string "string option" "PublishOptions option"
  | Sleep millis
  | Throw

type_synonym closure = "IncomingMessage \<Rightarrow> millis \<Rightarrow> Locals \<Rightarrow> act list"

type_synonym ('w, 'a) prog = "'w \<times> Locals \<Rightarrow> (js_error + 'a) \<times> ('w \<times> Locals)"

record ('w, 'sub) Env =
  en_port :: "('w, 'sub) Adapter"
  en_now :: "'w \<Rightarrow> millis"
  en_elapse :: "millis \<Rightarrow> 'w \<times> Locals \<Rightarrow> 'w \<times> Locals"
  en_stopConsume :: "'sub \<Rightarrow> 'w \<Rightarrow> (js_error + unit) \<times> 'w"
  en_stopSubscribe :: "'sub \<Rightarrow> 'w \<Rightarrow> (js_error + unit) \<times> 'w"
  en_random :: "nat \<Rightarrow> string"

section \<open>Statements\<close>

definition gives :: "'a \<Rightarrow> ('w, 'a) prog" where
  "gives x s = (Inr x, s)"

definition modify :: "(Locals \<Rightarrow> Locals) \<Rightarrow> ('w, unit) prog" where
  "modify f = (\<lambda>(w, l). (Inr (), (w, f l)))"

definition reads :: "(Locals \<Rightarrow> 'a) \<Rightarrow> ('w, 'a) prog" where
  "reads f = (\<lambda>(w, l). (Inr (f l), (w, l)))"

definition clock :: "('w, 'sub) Env \<Rightarrow> ('w, millis) prog" where
  "clock e = (\<lambda>(w, l). (Inr (en_now e w), (w, l)))"

definition await_op :: "('w, 'sub) Env \<Rightarrow> ('w \<Rightarrow> (js_error + 'a) \<times> 'w) \<Rightarrow> ('w, 'a) prog" where
  "await_op e op = (\<lambda>(w, l). case op w of (r, w') \<Rightarrow> (r, en_elapse e 0 (w', l)))"

text \<open>\<open>try { p } finally { c }\<close>: an error of the clean-up replaces the outcome.\<close>

definition finally_do :: "('w, 'a) prog \<Rightarrow> ('w, unit) prog \<Rightarrow> ('w, 'a) prog" where
  "finally_do p c s =
     (case p s of (r, s') \<Rightarrow> (case c s' of (Inl e, s'') \<Rightarrow> (Inl e, s'') | (Inr _, s'') \<Rightarrow> (r, s'')))"

text \<open>\<open>try { p } catch { }\<close>, and the outcome of \<open>p\<close> as a value.\<close>

definition ignore_errors :: "('w, unit) prog \<Rightarrow> ('w, unit) prog" where
  "ignore_errors p s = (case p s of (_, s') \<Rightarrow> (Inr (), s'))"

definition attempt :: "('w, 'a) prog \<Rightarrow> ('w, js_error + 'a) prog" where
  "attempt p s = (case p s of (r, s') \<Rightarrow> (Inr r, s'))"

definition raise :: "js_error \<Rightarrow> ('w, 'a) prog" where
  "raise err s = (Inl err, s)"

fun each :: "('i \<Rightarrow> ('w, unit) prog) \<Rightarrow> 'i list \<Rightarrow> ('w, unit) prog" where
  "each f [] = gives ()"
| "each f (x # xs) = and_then (f x) (\<lambda>_. each f xs)"

fun collect :: "('i \<Rightarrow> ('w, 'a) prog) \<Rightarrow> 'i list \<Rightarrow> ('w, 'a list) prog" where
  "collect f [] = gives []"
| "collect f (x # xs) = and_then (f x) (\<lambda>y. and_then (collect f xs) (\<lambda>ys. gives (y # ys)))"

text \<open>\<open>console.log\<close> and \<open>console.error\<close>: the lines written are collected in the variable \<open>console\<close>.\<close>

definition say :: "string \<Rightarrow> ('w, unit) prog" where
  "say line = modify (push_var ''console'' (JStr line))"

section \<open>Port calls\<close>

definition ill_typed :: js_error where
  "ill_typed = Error ''ill-typed result''"

fun unit_of :: "'sub port_result \<Rightarrow> js_error + unit" where
  "unit_of RUnit = Inr ()"
| "unit_of _ = Inl ill_typed"

fun handle_of :: "'sub port_result \<Rightarrow> js_error + ScheduleHandle" where
  "handle_of (RHandle h) = Inr h"
| "handle_of _ = Inl ill_typed"

fun list_of :: "'sub port_result \<Rightarrow> js_error + ScheduledInfo list" where
  "list_of (RList xs) = Inr xs"
| "list_of _ = Inl ill_typed"

fun sub_of :: "'sub port_result \<Rightarrow> js_error + 'sub" where
  "sub_of (RSub x) = Inr x"
| "sub_of _ = Inl ill_typed"

definition port_call :: "('w, 'sub) Env \<Rightarrow> ('sub port_result \<Rightarrow> js_error + 'a) \<Rightarrow> ('w, 'sub) operation \<Rightarrow> ('w, 'a) prog" where
  "port_call e view op = and_then (await_op e op) (\<lambda>r s. (view r, s))"

definition do_sendNow :: "('w, 'sub) Env \<Rightarrow> destination \<Rightarrow> string \<Rightarrow> ('w, unit) prog" where
  "do_sendNow e d payload = port_call e unit_of (ad_sendNow (en_port e) d payload)"

definition do_schedule :: "('w, 'sub) Env \<Rightarrow> destination \<Rightarrow> string \<Rightarrow> millis \<Rightarrow> ('w, ScheduleHandle) prog" where
  "do_schedule e d payload at = port_call e handle_of (ad_schedule (en_port e) d payload at)"

definition do_cancel :: "('w, 'sub) Env \<Rightarrow> ScheduleHandle \<Rightarrow> ('w, unit) prog" where
  "do_cancel e h = port_call e unit_of (ad_cancel (en_port e) h)"

definition do_listScheduled :: "('w, 'sub) Env \<Rightarrow> destination \<Rightarrow> ('w, ScheduledInfo list) prog" where
  "do_listScheduled e d = port_call e list_of (ad_listScheduled (en_port e) d)"

definition do_consume :: "('w, 'sub) Env \<Rightarrow> destination \<Rightarrow> handler \<Rightarrow> ('w, 'sub) prog" where
  "do_consume e d h = port_call e sub_of (ad_consume (en_port e) d h)"

definition do_publish :: "('w, 'sub) Env \<Rightarrow> destination \<Rightarrow> string \<Rightarrow> string option \<Rightarrow> PublishOptions option \<Rightarrow>
    ('w, unit) prog" where
  "do_publish e t payload rk opts = port_call e unit_of (ad_publish (en_port e) t payload rk opts)"

definition do_subscribe :: "('w, 'sub) Env \<Rightarrow> destination \<Rightarrow> handler \<Rightarrow> SubscribeOptions \<Rightarrow> ('w, 'sub) prog" where
  "do_subscribe e t h opts = port_call e sub_of (ad_subscribe (en_port e) t h (Some opts))"

definition do_connectBus :: "('w, 'sub) Env \<Rightarrow> ('w, unit) prog" where
  "do_connectBus e = port_call e unit_of (ad_connectBus (en_port e))"

definition stop_consume :: "('w, 'sub) Env \<Rightarrow> 'sub \<Rightarrow> ('w, unit) prog" where
  "stop_consume e sub = await_op e (en_stopConsume e sub)"

definition stop_subscribe :: "('w, 'sub) Env \<Rightarrow> 'sub \<Rightarrow> ('w, unit) prog" where
  "stop_subscribe e sub = await_op e (en_stopSubscribe e sub)"

section \<open>Helpers of the scenarios\<close>

text \<open>\<open>n.toString(36)\<close>.\<close>

definition digit36 :: "nat \<Rightarrow> char" where
  "digit36 d = (if d < 10 then char_of (48 + d) else char_of (87 + d))"

fun show_base36 :: "nat \<Rightarrow> string" where
  "show_base36 n = (if n < 36 then [digit36 n] else show_base36 (n div 36) @ [digit36 (n mod 36)])"

declare show_base36.simps [simp del]

definition nonce :: "('w, 'sub) Env \<Rightarrow> ('w, string) prog" where
  "nonce e = (\<lambda>(w, l).
     let counter = Suc (lo_counter l)
     in (Inr (show_base36 (nat (en_now e w)) @ ''-'' @ show_nat counter @ ''-'' @ en_random e (lo_draws l)),
         (w, l\<lparr>lo_counter := counter, lo_draws := Suc (lo_draws l)\<rparr>)))"

definition delay :: "('w, 'sub) Env \<Rightarrow> millis \<Rightarrow> ('w, unit) prog" where
  "delay e ms s = (Inr (), en_elapse e ms s)"

text \<open>
  \<open>waitUntil\<close> polls every 50 ms. The number of polls is bounded by \<open>polls\<close>; as a delay lasts at least 50 ms,
  \<open>timeout / 50 + 1\<close> polls reach the deadline.
\<close>

fun poll :: "('w, 'sub) Env \<Rightarrow> (Locals \<Rightarrow> bool) \<Rightarrow> millis \<Rightarrow> nat \<Rightarrow> 'w \<times> Locals \<Rightarrow> bool \<times> ('w \<times> Locals)" where
  "poll e predicate deadline polls s =
     (if polls = 0 \<or> deadline \<le> en_now e (fst s) then (predicate (snd s), s)
      else if predicate (snd s) then (True, s)
      else poll e predicate deadline (polls - 1) (en_elapse e 50 s))"

declare poll.simps [simp del]

definition waitUntil :: "('w, 'sub) Env \<Rightarrow> (Locals \<Rightarrow> bool) \<Rightarrow> millis \<Rightarrow> ('w, bool) prog" where
  "waitUntil e predicate timeoutMs s =
     (case poll e predicate (en_now e (fst s) + timeoutMs) (nat (timeoutMs div 50) + 1) s of (ok, s') \<Rightarrow> (Inr ok, s'))"

text \<open>\<open>MessageCollector\<close>: its handler appends to \<open>received\<close>.\<close>

definition plain_received :: "handler \<Rightarrow> Locals \<Rightarrow> ReceivedMessage list" where
  "plain_received h l = coalesce (js_map_get (lo_plain l) h) []"

definition push_plain :: "handler \<Rightarrow> ReceivedMessage \<Rightarrow> Locals \<Rightarrow> Locals" where
  "push_plain h m l = l\<lparr>lo_plain := js_map_set (lo_plain l) h (plain_received h l @ [m])\<rparr>"

definition MessageCollector_start :: "('w, 'sub) Env \<Rightarrow> handler \<Rightarrow> destination \<Rightarrow> ('w, 'sub) prog" where
  "MessageCollector_start e h destination =
     and_then (modify (\<lambda>l. l\<lparr>lo_plain := js_map_set (lo_plain l) h []\<rparr>)) (\<lambda>_. do_consume e destination h)"

definition plain_bodies :: "handler \<Rightarrow> Locals \<Rightarrow> string list" where
  "plain_bodies h l = map rm_body (plain_received h l)"

text \<open>\<open>AckCollector\<close>: its handler appends to \<open>received\<close>, then runs \<open>onMessage\<close> or acknowledges.\<close>

definition received :: "handler \<Rightarrow> Locals \<Rightarrow> IncomingMessage list" where
  "received h l = coalesce (js_map_get (lo_received l) h) []"

definition push_received :: "handler \<Rightarrow> IncomingMessage \<Rightarrow> Locals \<Rightarrow> Locals" where
  "push_received h m l = l\<lparr>lo_received := js_map_set (lo_received l) h (received h l @ [m])\<rparr>"

definition AckCollector_handler :: "handler \<Rightarrow> closure option \<Rightarrow> bool \<Rightarrow> closure" where
  "AckCollector_handler h onMessage autoAck m now l =
     Update (push_received h m) #
     (case onMessage of
        Some f \<Rightarrow> f m now (push_received h m l)
      | None \<Rightarrow> if autoAck then [Settle CallAck] else [])"

definition AckCollector_start :: "('w, 'sub) Env \<Rightarrow> handler \<Rightarrow> destination \<Rightarrow> SubscribeOptions \<Rightarrow> ('w, 'sub) prog" where
  "AckCollector_start e h topic subOpts =
     and_then (modify (\<lambda>l. l\<lparr>lo_received := js_map_set (lo_received l) h []\<rparr>)) (\<lambda>_. do_subscribe e topic h subOpts)"

definition bodies :: "handler \<Rightarrow> Locals \<Rightarrow> string list" where
  "bodies h l = map rm_body (received h l)"

definition received_count :: "handler \<Rightarrow> Locals \<Rightarrow> nat" where
  "received_count h l = length (received h l)"

text \<open>The result constructors \<open>pass\<close>, \<open>fail\<close> and \<open>unsupported\<close>.\<close>

definition verdict :: "ScenarioStatus \<Rightarrow> ('w, 'sub) Env \<Rightarrow> string \<Rightarrow> string \<Rightarrow> millis \<Rightarrow> ('w, ScenarioResult) prog" where
  "verdict status e name detail t0 = and_then (clock e) (\<lambda>t.
     gives \<lparr>sr_name = name, sr_status = status, sr_detail = detail, sr_durationMs = t - t0\<rparr>)"

definition sc_pass :: "('w, 'sub) Env \<Rightarrow> string \<Rightarrow> string \<Rightarrow> millis \<Rightarrow> ('w, ScenarioResult) prog" where
  "sc_pass = verdict StatusPass"

definition sc_fail :: "('w, 'sub) Env \<Rightarrow> string \<Rightarrow> string \<Rightarrow> millis \<Rightarrow> ('w, ScenarioResult) prog" where
  "sc_fail = verdict StatusFail"

definition sc_unsupported :: "('w, 'sub) Env \<Rightarrow> string \<Rightarrow> string \<Rightarrow> millis \<Rightarrow> ('w, ScenarioResult) prog" where
  "sc_unsupported = verdict StatusUnsupported"

text \<open>Characters outside ASCII in the texts, in UTF-8.\<close>

definition arrow :: string where "arrow = [CHR 0xE2, CHR 0x86, CHR 0x92]"
definition times_sign :: string where "times_sign = [CHR 0xC3, CHR 0x97]"

end
