(* ===== verification/Scenarios_Scheduling.thy ===== *)
theory Scenarios_Scheduling
  imports Scenario_Port
begin

text \<open>
  The scheduling scenarios S1 to S4 (\<open>scenarios/s1-immediate.ts\<close> to \<open>scenarios/s4-list.ts\<close>), each its \<open>run\<close>
  over an environment. Their message collectors are the handlers 1, 2 and 3.
\<close>

section \<open>S1 immediate delivery\<close>

definition immediateDelivery :: "('w, 'sub) Env \<Rightarrow> ('w, ScenarioResult) prog" where
  "immediateDelivery e =
     (let name = ''S1 immediate send/receive''
      in and_then (clock e) (\<lambda>t0.
         and_then (nonce e) (\<lambda>n1. let dest = ''mbc.s1.'' @ n1 in
         and_then (nonce e) (\<lambda>n2. let token = ''now-'' @ n2 in
         and_then (MessageCollector_start e 1 dest) (\<lambda>collector.
         finally_do
           (and_then (do_sendNow e dest token) (\<lambda>_.
            and_then (waitUntil e (\<lambda>l. token \<in> set (plain_bodies 1 l)) 5000) (\<lambda>got.
            if got then sc_pass e name ''delivered immediately'' t0
            else sc_fail e name ''message never arrived within 5s'' t0)))
           (stop_consume e collector))))))"

section \<open>S2 scheduled delivery\<close>

definition scheduledDelivery :: "('w, 'sub) Env \<Rightarrow> ('w, ScenarioResult) prog" where
  "scheduledDelivery e =
     (let name = ''S2 scheduled delivery''; DELAY_MS = 3000
      in and_then (clock e) (\<lambda>t0.
         and_then (nonce e) (\<lambda>n1. let dest = ''mbc.s2.'' @ n1 in
         and_then (nonce e) (\<lambda>n2. let token = ''sched-'' @ n2 in
         and_then (MessageCollector_start e 2 dest) (\<lambda>collector.
         finally_do
           (and_then (clock e) (\<lambda>now. let deliverAt = now + DELAY_MS in
            and_then (do_schedule e dest token deliverAt) (\<lambda>_.
            and_then (delay e (DELAY_MS * 4 div 10)) (\<lambda>_.
            and_then (reads (plain_bodies 2)) (\<lambda>early.
            if token \<in> set early then sc_fail e name ''message delivered early (not withheld)'' t0
            else
              and_then (waitUntil e (\<lambda>l. token \<in> set (plain_bodies 2 l)) (DELAY_MS + 4000)) (\<lambda>arrived.
              if arrived then sc_pass e name (''withheld then delivered after ~'' @ show_int DELAY_MS @ ''ms'') t0
              else sc_fail e name ''scheduled message never arrived'' t0))))))
           (stop_consume e collector))))))"

section \<open>S3 cancel\<close>

definition cancelScheduled :: "('w, 'sub) Env \<Rightarrow> ('w, ScenarioResult) prog" where
  "cancelScheduled e =
     (let name = ''S3 cancel scheduled''; DELAY_MS = 3000
      in and_then (clock e) (\<lambda>t0.
         and_then (nonce e) (\<lambda>n1. let dest = ''mbc.s3.'' @ n1 in
         and_then (nonce e) (\<lambda>n2. let token = ''cancel-'' @ n2 in
         and_then (MessageCollector_start e 3 dest) (\<lambda>collector.
         finally_do
           (and_then (clock e) (\<lambda>now.
            and_then (do_schedule e dest token (now + DELAY_MS)) (\<lambda>handle.
            and_then (attempt (do_cancel e handle)) (\<lambda>r.
            case r of
              Inl err \<Rightarrow> if is_NotSupported err then sc_unsupported e name ''no cancel API on this broker'' t0
                        else raise err
            | Inr _ \<Rightarrow>
                and_then (delay e (DELAY_MS + 2000)) (\<lambda>_.
                and_then (reads (plain_bodies 3)) (\<lambda>got.
                if token \<in> set got then sc_fail e name ''cancel returned but message still delivered'' t0
                else sc_pass e name ''scheduled message successfully cancelled'' t0))))))
           (stop_consume e collector))))))"

section \<open>S4 list pending\<close>

definition list_cleanup :: "('w, 'sub) Env \<Rightarrow> destination \<Rightarrow> ('w, unit) prog" where
  "list_cleanup e dest =
     ignore_errors
       (and_then (do_listScheduled e dest) (\<lambda>left.
          each (\<lambda>p. and_then (clock e) (\<lambda>now.
              do_cancel e \<lparr>sh_id = si_id p, sh_destination = dest, sh_deliverAt = now\<rparr>)) left))"

definition listPending :: "('w, 'sub) Env \<Rightarrow> ('w, ScenarioResult) prog" where
  "listPending e =
     (let name = ''S4 list pending''
      in and_then (clock e) (\<lambda>t0.
         and_then (nonce e) (\<lambda>n1. let dest = ''mbc.s4.'' @ n1 in
         finally_do
           (and_then (nonce e) (\<lambda>a. and_then (clock e) (\<lambda>now.
            and_then (do_schedule e dest (''a-'' @ a) (now + 60000)) (\<lambda>_.
            and_then (nonce e) (\<lambda>b. and_then (clock e) (\<lambda>now.
            and_then (do_schedule e dest (''b-'' @ b) (now + 60000)) (\<lambda>_.
            and_then (attempt (do_listScheduled e dest)) (\<lambda>r.
            case r of
              Inl err \<Rightarrow> if is_NotSupported err then sc_unsupported e name ''no inspection API on this broker'' t0
                        else raise err
            | Inr pending \<Rightarrow>
                if 2 \<le> length pending
                then sc_pass e name (''reported '' @ show_nat (length pending) @ '' pending'') t0
                else sc_fail e name (''expected >=2 pending, saw '' @ show_nat (length pending)) t0))))))))
           (list_cleanup e dest))))"

end
