(* ===== verification/Scenarios_Delivery.thy ===== *)
theory Scenarios_Delivery
  imports Scenario_Port
begin

text \<open>
  The bus scenarios S5 to S9 (\<open>scenarios/s5-pubsub.ts\<close> to \<open>scenarios/s9-competing.ts\<close>): each its \<open>run\<close> over an
  environment, with the closures it subscribes. Handler \<open>10 k + j\<close> is the \<open>j\<close>-th closure of scenario \<open>k\<close>.
\<close>

section \<open>Early returns\<close>

text \<open>A block that returns from the scenario with a result, or goes on with a value.\<close>

type_synonym ('w, 'a) block = "('w, ScenarioResult + 'a) prog"

definition or_return :: "('w, 'a) block \<Rightarrow> ('a \<Rightarrow> ('w, ScenarioResult) prog) \<Rightarrow> ('w, ScenarioResult) prog" where
  "or_return b f = and_then b (\<lambda>r. case r of Inl res \<Rightarrow> gives res | Inr x \<Rightarrow> f x)"

definition returning :: "('w, ScenarioResult) prog \<Rightarrow> ('w, 'a) block" where
  "returning p = and_then p (\<lambda>r. gives (Inl r))"

definition count_value :: "nat option \<Rightarrow> js_value" where
  "count_value n = (case n of None \<Rightarrow> Undef | Some k \<Rightarrow> JNum (int k))"

section \<open>S5 publish/subscribe\<close>

definition pubSub :: "('w, 'sub) Env \<Rightarrow> ('w, ScenarioResult) prog" where
  "pubSub e =
     (let name = ''S5 pub/sub (topic)''
      in and_then (clock e) (\<lambda>t0.
         if \<not> supportsTopic (ad_busCapabilities (en_port e))
         then sc_unsupported e name ''no topic routing on this broker'' t0
         else
         and_then (nonce e) (\<lambda>n. let topic = ''mbc.s5.'' @ n in
         and_then (nonce e) (\<lambda>n1.
         and_then (AckCollector_start e 50 topic (no_subscribe_options\<lparr>so_kind := Some Topic,
             so_routingKey := Some ''order.created'', so_subscriberId := Some (''created-'' @ n1)\<rparr>)) (\<lambda>created.
         and_then (nonce e) (\<lambda>n2.
         and_then (AckCollector_start e 51 topic (no_subscribe_options\<lparr>so_kind := Some Topic,
             so_routingKey := Some ''order.#'', so_subscriberId := Some (''all-'' @ n2)\<rparr>)) (\<lambda>all.
         finally_do
           (and_then (do_publish e topic ''created-1'' (Some ''order.created'') None) (\<lambda>_.
            and_then (do_publish e topic ''shipped-1'' (Some ''order.shipped'') None) (\<lambda>_.
            and_then (waitUntil e (\<lambda>l. 1 \<le> received_count 50 l \<and> 2 \<le> received_count 51 l) 5000) (\<lambda>ok.
            and_then (reads (\<lambda>l. (bodies 50 l, received_count 51 l))) (\<lambda>(cs, n_all).
            if \<not> ok then
              sc_fail e name (''timed out (created='' @ show_nat (length cs) @ '', all='' @ show_nat n_all @ '')'') t0
            else if length cs \<noteq> 1 \<or> js_nth cs 0 \<noteq> Some ''created-1'' then
              sc_fail e name ''filtered subscriber saw the wrong events'' t0
            else
              sc_pass e name (''order.created'' @ arrow @ ''1 sub, order.#'' @ arrow @ ''both ('' @ show_nat n_all @ '')'') t0)))))
           (and_then (stop_subscribe e created) (\<lambda>_. stop_subscribe e all)))))))))"

section \<open>S6 fanout\<close>

definition fanout :: "('w, 'sub) Env \<Rightarrow> ('w, ScenarioResult) prog" where
  "fanout e =
     (let name = ''S6 fanout multicast''; SUBSCRIBERS = 3
      in and_then (clock e) (\<lambda>t0.
         if \<not> supportsFanout (ad_busCapabilities (en_port e))
         then sc_unsupported e name ''no fanout on this broker'' t0
         else
         and_then (nonce e) (\<lambda>n. let topic = ''mbc.s6.'' @ n in
         and_then (collect (\<lambda>i. and_then (nonce e) (\<lambda>ni.
             AckCollector_start e (60 + i) topic (no_subscribe_options\<lparr>so_kind := Some Fanout,
               so_subscriberId := Some (''s'' @ show_nat i @ ''-'' @ ni)\<rparr>))) [0 ..< SUBSCRIBERS]) (\<lambda>subs.
         finally_do
           (and_then (do_publish e topic ''broadcast-1'' None None) (\<lambda>_.
            and_then (waitUntil e (\<lambda>l. list_all (\<lambda>i. 1 \<le> received_count (60 + i) l) [0 ..< SUBSCRIBERS]) 5000) (\<lambda>ok.
            and_then (reads (\<lambda>l. map (\<lambda>i. received_count (60 + i) l) [0 ..< SUBSCRIBERS])) (\<lambda>counts.
            if \<not> ok \<or> list_ex (\<lambda>n. n \<noteq> 1) counts then
              sc_fail e name (''subscriber counts were ['' @ comma_join (map show_nat counts) @ '']'') t0
            else
              sc_pass e name (''1 publish '' @ arrow @ '' '' @ show_nat SUBSCRIBERS @ '' subscribers each received it'') t0))))
           (each (stop_subscribe e) subs)))))"

section \<open>S7 explicit acknowledgement\<close>

definition s7_nack_handler :: closure where
  "s7_nack_handler m now l =
     Update (add_var ''s7.attempts'' 1) #
     (if num_var ''s7.attempts'' l + 1 = 1 then [Settle (CallNack True)]
      else [Update (set_var ''s7.secondCount'' (count_value (im_deliveryCount m))), Settle CallAck])"

definition s7_crash_handler :: closure where
  "s7_crash_handler m now l = []"

definition s7_ack :: "('w, 'sub) Env \<Rightarrow> string \<Rightarrow> millis \<Rightarrow> ('w, string) block" where
  "s7_ack e name t0 =
     and_then (nonce e) (\<lambda>n. let topic = ''mbc.s7a.'' @ n in
     and_then (nonce e) (\<lambda>n1.
     and_then (AckCollector_start e 70 topic (no_subscribe_options\<lparr>so_subscriberId := Some (''ack-'' @ n1)\<rparr>)) (\<lambda>c.
     finally_do
       (and_then (do_publish e topic ''ack-1'' None None) (\<lambda>_.
        and_then (waitUntil e (\<lambda>l. 1 \<le> received_count 70 l) 4000) (\<lambda>_.
        and_then (delay e 500) (\<lambda>_.
        and_then (reads (received_count 70)) (\<lambda>n.
        if n \<noteq> 1 then returning (sc_fail e name (''(a) acked msg delivered '' @ show_nat n @ times_sign) t0)
        else gives (Inr (''ack'' @ arrow @ ''once''))))))) (stop_subscribe e c))))"

definition s7_nack :: "('w, 'sub) Env \<Rightarrow> string \<Rightarrow> millis \<Rightarrow> ('w, string) block" where
  "s7_nack e name t0 =
     (let counts = reportsDeliveryCount (ad_busCapabilities (en_port e))
      in and_then (nonce e) (\<lambda>n. let topic = ''mbc.s7b.'' @ n in
         and_then (modify (set_vars [(''s7.attempts'', JNum 0), (''s7.secondCount'', Undef)])) (\<lambda>_.
         and_then (nonce e) (\<lambda>n1.
         and_then (AckCollector_start e 71 topic (no_subscribe_options\<lparr>so_subscriberId := Some (''nack-'' @ n1)\<rparr>)) (\<lambda>c.
         finally_do
           (and_then (do_publish e topic ''nack-1'' None None) (\<lambda>_.
            and_then (waitUntil e (\<lambda>l. 2 \<le> num_var ''s7.attempts'' l) 5000) (\<lambda>ok.
            and_then (reads (get_var ''s7.secondCount'')) (\<lambda>secondCount.
            if \<not> ok then returning (sc_fail e name ''(b) nacked msg was not redelivered'' t0)
            else if counts \<and> secondCount \<noteq> JNum 2 then
              returning (sc_fail e name (''(b) expected deliveryCount 2, got '' @ js_String secondCount) t0)
            else gives (Inr (''nack'' @ arrow @ ''redelivered '' @ (if counts then ''(count=2)'' else ''(count n/a)''))))))) 
           (stop_subscribe e c))))))"

definition s7_crash :: "('w, 'sub) Env \<Rightarrow> string \<Rightarrow> millis \<Rightarrow> ('w, string) block" where
  "s7_crash e name t0 =
     and_then (nonce e) (\<lambda>n. let topic = ''mbc.s7c.'' @ n in
     and_then (nonce e) (\<lambda>n1. let queueId = ''crash-'' @ n1; opts = no_subscribe_options\<lparr>so_subscriberId := Some queueId\<rparr> in
     and_then (AckCollector_start e 72 topic opts) (\<lambda>crashed.
     and_then (do_publish e topic ''crash-1'' None None) (\<lambda>_.
     and_then (waitUntil e (\<lambda>l. 1 \<le> received_count 72 l) 4000) (\<lambda>_.
     and_then (stop_subscribe e crashed) (\<lambda>_.
     and_then (AckCollector_start e 73 topic opts) (\<lambda>fresh.
     finally_do
       (and_then (waitUntil e (\<lambda>l. 1 \<le> received_count 73 l) 5000) (\<lambda>got.
        if \<not> got then returning (sc_fail e name ''(c) crashed consumer msg was lost'' t0)
        else gives (Inr (''crash'' @ arrow @ ''redelivered''))))
       (stop_subscribe e fresh))))))))"

definition explicitAck :: "('w, 'sub) Env \<Rightarrow> ('w, ScenarioResult) prog" where
  "explicitAck e =
     (let name = ''S7 explicit ack''
      in and_then (clock e) (\<lambda>t0.
         if \<not> supportsManualAck (ad_busCapabilities (en_port e))
         then sc_unsupported e name ''no manual ack on this broker'' t0
         else
         or_return (s7_ack e name t0) (\<lambda>a.
         or_return (s7_nack e name t0) (\<lambda>b.
         or_return (s7_crash e name t0) (\<lambda>c.
         sc_pass e name (join_strings ''; '' [a, b, c]) t0)))))"

section \<open>S8 poison message\<close>

definition s8_handler :: closure where
  "s8_handler m now l =
     [Update (add_var ''s8.attempts'' 1), Update (set_var ''s8.lastCount'' (count_value (im_deliveryCount m))),
      Settle (CallNack True)]"

definition poisonDlq :: "('w, 'sub) Env \<Rightarrow> ('w, ScenarioResult) prog" where
  "poisonDlq e =
     (let name = ''S8 poison '' @ arrow @ '' dead-letter''; MAX_DELIVERIES = 3
      in and_then (clock e) (\<lambda>t0.
         if \<not> supportsDeadLetter (ad_busCapabilities (en_port e))
         then sc_unsupported e name ''no dead-letter support on this broker'' t0
         else
         and_then (nonce e) (\<lambda>n. let topic = ''mbc.s8.'' @ n in
         and_then (modify (set_vars [(''s8.attempts'', JNum 0), (''s8.lastCount'', Undef)])) (\<lambda>_.
         and_then (nonce e) (\<lambda>n1.
         and_then (AckCollector_start e 80 topic (no_subscribe_options\<lparr>so_subscriberId := Some (''poison-'' @ n1),
             so_deadLetter := Some True, so_maxDeliveries := Some MAX_DELIVERIES\<rparr>)) (\<lambda>main.
         and_then (nonce e) (\<lambda>n2.
         and_then (AckCollector_start e 81 (deadLetterAddress topic) (no_subscribe_options\<lparr>so_kind := Some Fanout,
             so_subscriberId := Some (''dlq-'' @ n2)\<rparr>)) (\<lambda>dlq.
         finally_do
           (and_then (do_publish e topic ''poison-1'' None None) (\<lambda>_.
            and_then (waitUntil e (\<lambda>l. 1 \<le> received_count 81 l) 8000) (\<lambda>landed.
            and_then (reads (\<lambda>l. (num_var ''s8.attempts'' l, received_count 81 l, get_var ''s8.lastCount'' l)))
              (\<lambda>(attempts, n_dlq, lastCount).
            if \<not> landed then
              sc_fail e name (''never dead-lettered (attempts='' @ show_int attempts @ '', dlq='' @ show_nat n_dlq @ '')'') t0
            else if attempts < 2 \<or> int MAX_DELIVERIES + 1 < attempts then
              sc_fail e name (''delivery attempts out of range: '' @ show_int attempts @ '' (limit '' @ show_nat MAX_DELIVERIES @ '')'') t0
            else
              sc_pass e name (''dead-lettered after '' @ show_int attempts @ '' attempts'' @
                (if reportsDeliveryCount (ad_busCapabilities (en_port e)) \<and> lastCount \<noteq> Undef
                 then '' (final deliveryCount='' @ js_String lastCount @ '')'' else [])) t0))))
           (and_then (stop_subscribe e main) (\<lambda>_. stop_subscribe e dlq))))))))))"

section \<open>S9 competing consumers\<close>

definition s9_handler :: "nat \<Rightarrow> closure" where
  "s9_handler i m now l = [Update (push_var (''s9.'' @ show_nat i) (JStr (rm_body m))), Settle CallAck]"

definition competingConsumers :: "('w, 'sub) Env \<Rightarrow> ('w, ScenarioResult) prog" where
  "competingConsumers e =
     (let name = ''S9 competing consumers''; MESSAGE_COUNT = 10
      in and_then (clock e) (\<lambda>t0.
         if \<not> supportsManualAck (ad_busCapabilities (en_port e))
         then sc_unsupported e name ''no manual ack on this broker'' t0
         else
         and_then (nonce e) (\<lambda>n. let topic = ''mbc.s9.'' @ n in
         and_then (nonce e) (\<lambda>n1. let opts = no_subscribe_options\<lparr>so_subscriberId := Some (''workers-'' @ n1)\<rparr> in
         and_then (modify (set_vars [(''s9.0'', JArr []), (''s9.1'', JArr [])])) (\<lambda>_.
         and_then (do_subscribe e topic 90 opts) (\<lambda>subA.
         and_then (do_subscribe e topic 91 opts) (\<lambda>subB.
         finally_do
           (and_then (each (\<lambda>i. do_publish e topic (''job-'' @ show_nat i) None None) [0 ..< MESSAGE_COUNT]) (\<lambda>_.
            and_then (waitUntil e (\<lambda>l. MESSAGE_COUNT \<le> length (arr_var ''s9.0'' l) + length (arr_var ''s9.1'' l)) 6000) (\<lambda>ok.
            and_then (reads (\<lambda>l. (arr_var ''s9.0'' l, arr_var ''s9.1'' l))) (\<lambda>(as, bs).
            let all = as @ bs; unique = length (remdups all) in
            if \<not> ok \<or> length all \<noteq> MESSAGE_COUNT then
              sc_fail e name (''received '' @ show_nat (length all) @ ''/'' @ show_nat MESSAGE_COUNT) t0
            else if unique \<noteq> MESSAGE_COUNT then
              sc_fail e name (''duplicate delivery ('' @ show_nat unique @ '' unique)'') t0
            else if as = [] \<or> bs = [] then sc_fail e name ''one consumer was starved (not balanced)'' t0
            else sc_pass e name (''split '' @ show_nat (length as) @ ''/'' @ show_nat (length bs) @ '', no dupes'') t0))))
           (and_then (stop_subscribe e subA) (\<lambda>_. stop_subscribe e subB)))))))))"

section \<open>The closures\<close>

text \<open>The closures of these scenarios by number; \<open>rest\<close> gives the others.\<close>

definition delivery_closures :: "(handler \<Rightarrow> closure) \<Rightarrow> handler \<Rightarrow> closure" where
  "delivery_closures rest h =
     (if h \<in> {50, 51, 60, 61, 62, 70, 73, 81} then AckCollector_handler h None True
      else if h = 71 then AckCollector_handler h (Some s7_nack_handler) False
      else if h = 72 then AckCollector_handler h (Some s7_crash_handler) False
      else if h = 80 then AckCollector_handler h (Some s8_handler) False
      else if h = 90 then s9_handler 0
      else if h = 91 then s9_handler 1
      else rest h)"

end
