(* ===== verification/Scenarios_Reliability.thy ===== *)
theory Scenarios_Reliability
  imports Scenarios_Delivery
begin

text \<open>
  The bus scenarios S10 to S14 (\<open>scenarios/s10-idempotent-consumer.ts\<close> to \<open>scenarios/s14-priority.ts\<close>).
\<close>

section \<open>S10 idempotent consumer\<close>

text \<open>\<open>idempotentHandler(store, inner)\<close> as a closure: the store is asked, then the message is handled or acknowledged.\<close>

definition idempotent_closure :: "(string \<Rightarrow> int \<Rightarrow> Locals \<Rightarrow> (js_error + bool) \<times> Locals) \<Rightarrow> closure \<Rightarrow> closure" where
  "idempotent_closure store inner m now l =
     (let ask = ask_store store body_key DEFAULT_TTL_SECONDS m
      in Update (\<lambda>l. snd (ask l)) #
         (if fst (ask l) then [Settle CallAck] else inner m now (snd (ask l))))"

definition s10_store :: "string \<Rightarrow> int \<Rightarrow> Locals \<Rightarrow> (js_error + bool) \<times> Locals" where
  "s10_store key ttl l = (case tryMarkSeen key ttl (lo_store l) of (seen, st) \<Rightarrow> (Inr seen, l\<lparr>lo_store := st\<rparr>))"

definition s10_brokenStore :: "string \<Rightarrow> int \<Rightarrow> Locals \<Rightarrow> (js_error + bool) \<times> Locals" where
  "s10_brokenStore key ttl l = (Inl (Error ''Redis connection refused''), l)"

definition s10_count :: closure where
  "s10_count m now l = [Update (add_var ''s10.processCount'' 1)]"

definition s10_count_ack :: closure where
  "s10_count_ack m now l = [Update (add_var ''s10.processCount'' 1), Settle CallAck]"

fun is_throw :: "act \<Rightarrow> bool" where
  "is_throw Throw = True"
| "is_throw _ = False"

text \<open>\<open>try { await handler(m) } catch (e) { caughtError = e; await m.ack() }\<close>.\<close>

definition s10_guarded :: closure where
  "s10_guarded m now l =
     (let acts = idempotent_closure s10_brokenStore s10_count_ack m now l
      in takeWhile (\<lambda>a. \<not> is_throw a) acts @
         (if list_ex is_throw acts then [Update (set_var ''s10.caughtError'' (JStr ''error'')), Settle CallAck] else []))"

definition s10_plain :: "('w, 'sub) Env \<Rightarrow> string \<Rightarrow> millis \<Rightarrow> ('w, string) block" where
  "s10_plain e name t0 =
     and_then (nonce e) (\<lambda>n. let topic = ''mbc.s10a.'' @ n in
     and_then (nonce e) (\<lambda>n1. let opts = no_subscribe_options\<lparr>so_subscriberId := Some (''idm-a-'' @ n1)\<rparr> in
     and_then (modify (set_var ''s10.processCount'' (JNum 0))) (\<lambda>_.
     and_then (AckCollector_start e 100 topic opts) (\<lambda>first.
     and_then (nonce e) (\<lambda>n2.
     and_then (do_publish e topic (''order-a-'' @ n2) None None) (\<lambda>_.
     and_then (waitUntil e (\<lambda>l. 1 \<le> received_count 100 l) 4000) (\<lambda>_.
     and_then (stop_subscribe e first) (\<lambda>_.
     and_then (AckCollector_start e 101 topic opts) (\<lambda>second.
     and_then (waitUntil e (\<lambda>l. 1 \<le> received_count 101 l) 5000) (\<lambda>redelivered.
     and_then (stop_subscribe e second) (\<lambda>_.
     and_then (reads (num_var ''s10.processCount'')) (\<lambda>processCount.
     if \<not> redelivered then returning (sc_fail e name ''(a) redelivery did not happen'' t0)
     else if processCount \<noteq> 2 then
       returning (sc_fail e name (''(a) expected 2 processings, got '' @ show_int processCount) t0)
     else gives (Inr (''no-store'' @ arrow @ ''processed'' @ times_sign @ show_int processCount))))))))))))))"

definition s10_with_store :: "('w, 'sub) Env \<Rightarrow> string \<Rightarrow> millis \<Rightarrow> ('w, string) block" where
  "s10_with_store e name t0 =
     and_then (nonce e) (\<lambda>n. let topic = ''mbc.s10b.'' @ n in
     and_then (nonce e) (\<lambda>n1. let opts = no_subscribe_options\<lparr>so_subscriberId := Some (''idm-b-'' @ n1)\<rparr> in
     and_then (nonce e) (\<lambda>n2. let msgBody = ''order-b-'' @ n2 in
     and_then (modify (\<lambda>l. set_var ''s10.processCount'' (JNum 0) (l\<lparr>lo_store := (lo_store l)\<lparr>ms_seen := Map.empty\<rparr>\<rparr>))) (\<lambda>_.
     and_then (AckCollector_start e 102 topic opts) (\<lambda>first.
     and_then (do_publish e topic msgBody None None) (\<lambda>_.
     and_then (waitUntil e (\<lambda>l. 1 \<le> received_count 102 l) 4000) (\<lambda>_.
     and_then (stop_subscribe e first) (\<lambda>_.
     and_then (AckCollector_start e 103 topic opts) (\<lambda>second.
     and_then (waitUntil e (\<lambda>l. 1 \<le> received_count 103 l) 5000) (\<lambda>redelivered.
     and_then (stop_subscribe e second) (\<lambda>_.
     and_then (reads (num_var ''s10.processCount'')) (\<lambda>processCount.
     if \<not> redelivered then returning (sc_fail e name ''(b) redelivery did not happen'' t0)
     else if processCount \<noteq> 1 then
       returning (sc_fail e name (''(b) expected 1 processing, got '' @ show_int processCount) t0)
     else gives (Inr (''with-store'' @ arrow @ ''processed'' @ times_sign @ ''1''))))))))))))))"

definition s10_store_down :: "('w, 'sub) Env \<Rightarrow> string \<Rightarrow> millis \<Rightarrow> ('w, string) block" where
  "s10_store_down e name t0 =
     and_then (nonce e) (\<lambda>n. let topic = ''mbc.s10c.'' @ n in
     and_then (nonce e) (\<lambda>n1.
     and_then (modify (set_vars [(''s10.processCount'', JNum 0), (''s10.caughtError'', Undef)])) (\<lambda>_.
     and_then (AckCollector_start e 104 topic (no_subscribe_options\<lparr>so_subscriberId := Some (''idm-c-'' @ n1)\<rparr>)) (\<lambda>sub.
     finally_do
       (and_then (nonce e) (\<lambda>n2.
        and_then (do_publish e topic (''order-c-'' @ n2) None None) (\<lambda>_.
        and_then (waitUntil e (\<lambda>l. 1 \<le> received_count 104 l) 4000) (\<lambda>ok.
        if \<not> ok then returning (sc_fail e name ''(c) message was not delivered'' t0)
        else
        and_then (delay e 200) (\<lambda>_.
        and_then (reads (\<lambda>l. (get_var ''s10.caughtError'' l, num_var ''s10.processCount'' l))) (\<lambda>(caught, processCount).
        if caught \<noteq> Undef then
          returning (sc_fail e name (''(c) store error leaked to caller: '' @ js_String caught) t0)
        else if processCount \<noteq> 1 then
          returning (sc_fail e name (''(c) expected fail-open processing, got '' @ show_int processCount) t0)
        else gives (Inr (''store-down'' @ arrow @ ''fail-open,processed'' @ times_sign @ ''1''))))))))
       (stop_subscribe e sub)))))"

definition idempotentConsumer :: "('w, 'sub) Env \<Rightarrow> ('w, ScenarioResult) prog" where
  "idempotentConsumer e =
     (let name = ''S10 idempotent consumer''
      in and_then (clock e) (\<lambda>t0.
         if \<not> supportsManualAck (ad_busCapabilities (en_port e))
         then sc_unsupported e name ''no manual ack on this broker'' t0
         else
         or_return (s10_plain e name t0) (\<lambda>a.
         or_return (s10_with_store e name t0) (\<lambda>b.
         or_return (s10_store_down e name t0) (\<lambda>c.
         sc_pass e name (join_strings ''; '' [a, b, c]) t0)))))"

section \<open>S11 retry queue\<close>

definition starts_with :: "string \<Rightarrow> string \<Rightarrow> bool" where
  "starts_with prefix s \<longleftrightarrow> take (length prefix) s = prefix"

definition GOOD_COUNT :: nat where "GOOD_COUNT = 8"

definition s11_handler :: closure where
  "s11_handler m now l =
     (if starts_with ''poison'' (rm_body m) then
        [Update (add_var ''s11.attempts'' 1),
         Update (set_var ''s11.lastCount'' (count_value (im_deliveryCount m))), Settle (CallNack True)]
      else
        [Update (push_var ''s11.good'' (JStr (rm_body m))),
         Update (\<lambda>l. if length (arr_var ''s11.good'' l) = GOOD_COUNT then set_var ''s11.goodDrainedAt'' (JNum now) l else l),
         Settle CallAck])"

definition s11_dlq_handler :: closure where
  "s11_dlq_handler m now l =
     [Update (\<lambda>l. if get_var ''s11.dlqAt'' l = Undef then set_var ''s11.dlqAt'' (JNum now) l else l), Settle CallAck]"

definition fmt :: "int option \<Rightarrow> millis \<Rightarrow> string" where
  "fmt at t0 = (case at of None \<Rightarrow> ''n/a'' | Some t \<Rightarrow> show_int (t - t0) @ ''ms'')"

text \<open>What is read after the wait: good bodies, attempts, last count, the two times, the dead letters seen.\<close>

record RetryObs =
  ro_good :: "js_value list"
  ro_attempts :: int
  ro_lastCount :: js_value
  ro_goodDrainedAt :: "int option"
  ro_dlqAt :: "int option"
  ro_dlq :: nat

definition retry_obs :: "Locals \<Rightarrow> RetryObs" where
  "retry_obs l = \<lparr>ro_good = arr_var ''s11.good'' l, ro_attempts = num_var ''s11.attempts'' l,
     ro_lastCount = get_var ''s11.lastCount'' l, ro_goodDrainedAt = as_number (get_var ''s11.goodDrainedAt'' l),
     ro_dlqAt = as_number (get_var ''s11.dlqAt'' l), ro_dlq = received_count 111 l\<rparr>"

text \<open>The failure the observations show, if any, and the text of success.\<close>

definition retry_fault :: "nat \<Rightarrow> bool \<Rightarrow> millis \<Rightarrow> RetryObs \<Rightarrow> string option" where
  "retry_fault MAX_DELIVERIES done t0 ob =
     (let unique = length (remdups (ro_good ob))
      in if \<not> done then
           Some (''pipeline did not drain (good='' @ show_nat (length (ro_good ob)) @ ''/'' @ show_nat GOOD_COUNT @
             '', dlq='' @ show_nat (ro_dlq ob) @ '', attempts='' @ show_int (ro_attempts ob) @ '')'')
         else if unique \<noteq> GOOD_COUNT then
           Some (''good messages not delivered exactly once ('' @ show_nat unique @ '' unique of '' @
             show_nat (length (ro_good ob)) @ '')'')
         else if ro_attempts ob < 2 \<or> int MAX_DELIVERIES + 1 < ro_attempts ob then
           Some (''retry attempts out of range: '' @ show_int (ro_attempts ob) @ '' (limit '' @ show_nat MAX_DELIVERIES @ '')'')
         else
           (case (ro_goodDrainedAt ob, ro_dlqAt ob) of
              (Some g, Some d) \<Rightarrow>
                if d \<le> g then
                  Some (''main queue was blocked by the poison message (good done '' @ fmt (Some g) t0 @ '', dlq '' @ fmt (Some d) t0 @ '')'')
                else None
            | (g, d) \<Rightarrow>
                Some (''main queue was blocked by the poison message (good done '' @ fmt g t0 @ '', dlq '' @ fmt d t0 @ '')'')))"

definition retry_detail :: "bool \<Rightarrow> millis \<Rightarrow> RetryObs \<Rightarrow> string" where
  "retry_detail counts t0 ob =
     (let g = coalesce (ro_goodDrainedAt ob) 0; d = coalesce (ro_dlqAt ob) 0
      in show_nat GOOD_COUNT @ '' ok in '' @ show_int (g - t0) @ ''ms; poison'' @ arrow @ ''DLQ after '' @
         show_int (ro_attempts ob) @ '' attempts'' @
         (if counts \<and> ro_lastCount ob \<noteq> Undef then '' (final deliveryCount='' @ js_String (ro_lastCount ob) @ '')'' else []) @
         '' in '' @ show_int (d - t0) @ ''ms; main unblocked (ok done '' @ show_int (d - g) @ ''ms before DLQ)'')"

definition retryQueueScenario :: "('w, 'sub) Env \<Rightarrow> ('w, ScenarioResult) prog" where
  "retryQueueScenario e =
     (let name = ''S11 retry queue''; MAX_DELIVERIES = 6; RETRY_DELAY_MS = 250
      in and_then (clock e) (\<lambda>t0.
         if \<not> supportsDeadLetter (ad_busCapabilities (en_port e))
         then sc_unsupported e name ''no dead-letter support on this broker'' t0
         else
         and_then (nonce e) (\<lambda>n. let topic = ''mbc.s11.'' @ n in
         and_then (modify (set_vars [(''s11.good'', JArr []), (''s11.attempts'', JNum 0), (''s11.lastCount'', Undef),
             (''s11.goodDrainedAt'', Undef), (''s11.dlqAt'', Undef)])) (\<lambda>_.
         and_then (nonce e) (\<lambda>n1.
         and_then (AckCollector_start e 110 topic (no_subscribe_options\<lparr>so_subscriberId := Some (''worker-'' @ n1),
             so_deadLetter := Some True, so_maxDeliveries := Some MAX_DELIVERIES, so_retryDelayMs := Some RETRY_DELAY_MS\<rparr>)) (\<lambda>main.
         and_then (nonce e) (\<lambda>n2.
         and_then (AckCollector_start e 111 (deadLetterAddress topic) (no_subscribe_options\<lparr>so_kind := Some Fanout,
             so_subscriberId := Some (''dlq-'' @ n2)\<rparr>)) (\<lambda>dlq.
         finally_do
           (and_then (each (\<lambda>i. do_publish e topic (''job-'' @ show_nat i) None None) [0 ..< 3]) (\<lambda>_.
            and_then (do_publish e topic ''poison-1'' None None) (\<lambda>_.
            and_then (each (\<lambda>i. do_publish e topic (''job-'' @ show_nat i) None None) [3 ..< GOOD_COUNT]) (\<lambda>_.
            and_then (waitUntil e (\<lambda>l. GOOD_COUNT \<le> length (arr_var ''s11.good'' l) \<and> 1 \<le> received_count 111 l)
                (int MAX_DELIVERIES * RETRY_DELAY_MS + 4000)) (\<lambda>done.
            and_then (reads retry_obs) (\<lambda>ob.
            case retry_fault MAX_DELIVERIES done t0 ob of
              Some detail \<Rightarrow> sc_fail e name detail t0
            | None \<Rightarrow> sc_pass e name (retry_detail (reportsDeliveryCount (ad_busCapabilities (en_port e))) t0 ob) t0))))))
           (and_then (stop_subscribe e main) (\<lambda>_. stop_subscribe e dlq))))))))))"

section \<open>S12 message groups\<close>

definition GROUPS :: "string list" where "GROUPS = [''a'', ''b'', ''c'']"
definition PER_GROUP :: nat where "PER_GROUP = 6"

text \<open>\<open>Number(s)\<close> of the decimal sequence numbers the scenario publishes.\<close>

definition seq_number :: "string \<Rightarrow> nat" where
  "seq_number s = read_digits s"

definition s12_handler :: "nat \<Rightarrow> closure" where
  "s12_handler i m now l =
     (let parts = split_on (CHR '':'') (rm_body m)
      in [Update (push_var (''s12.'' @ show_nat i)
            (JObj [(''group'', JStr (coalesce (js_nth parts 0) [])), (''seq'', JNum (int (seq_number (coalesce (js_nth parts 1) []))))])),
          Settle CallAck])"

definition entry_of :: "js_value \<Rightarrow> string \<times> int" where
  "entry_of v = (coalesce (as_string (js_prop ''group'' v)) [], coalesce (as_number (js_prop ''seq'' v)) 0)"

text \<open>The sequences a consumer saw, by group in order of first appearance.\<close>

definition perGroupSeqs :: "(string \<times> int) list \<Rightarrow> (string \<times> int list) list" where
  "perGroupSeqs = group_into fst snd"

fun increasing :: "int list \<Rightarrow> bool" where
  "increasing (x # y # ys) = (x < y \<and> increasing (y # ys))"
| "increasing _ = True"

text \<open>The first group out of order on a consumer.\<close>

fun order_fault :: "nat \<Rightarrow> (string \<times> int) list list \<Rightarrow> string option" where
  "order_fault i [] = None"
| "order_fault i (es # ess) =
     (case find (\<lambda>(g, seqs). \<not> increasing seqs) (perGroupSeqs es) of
        Some (g, seqs) \<Rightarrow>
          Some (''group '' @ g @ '' out of order on consumer '' @ show_nat i @ '': '' @ comma_join (map show_int seqs))
      | None \<Rightarrow> order_fault (Suc i) ess)"

definition ownersOf :: "string \<Rightarrow> (string \<times> int) list list \<Rightarrow> nat list" where
  "ownersOf g ess = filter (\<lambda>i. g \<in> fst ` set (ess ! i)) [0 ..< length ess]"

fun pin_fault :: "(string \<times> int) list list \<Rightarrow> string list \<Rightarrow> string option" where
  "pin_fault ess [] = None"
| "pin_fault ess (g # gs) =
     (case ownersOf g ess of
        [] \<Rightarrow> Some (''group '' @ g @ '' was never delivered'')
      | [i] \<Rightarrow>
          (let seen = filter (\<lambda>(g', n). g' = g) (ess ! i)
           in if length seen \<noteq> PER_GROUP
              then Some (''group '' @ g @ '' got '' @ show_nat (length seen) @ ''/'' @ show_nat PER_GROUP @ '' messages'')
              else pin_fault ess gs)
      | _ \<Rightarrow> Some (''group '' @ g @ '' split across consumers''))"

definition groups_fault :: "(string \<times> int) list list \<Rightarrow> string option" where
  "groups_fault ess = (case order_fault 0 ess of Some d \<Rightarrow> Some d | None \<Rightarrow> pin_fault ess GROUPS)"

definition messageGroups :: "('w, 'sub) Env \<Rightarrow> ('w, ScenarioResult) prog" where
  "messageGroups e =
     (let name = ''S12 message groups''; caps = ad_busCapabilities (en_port e); TOTAL = length GROUPS * PER_GROUP
      in and_then (clock e) (\<lambda>t0.
         if \<not> supportsManualAck caps then sc_unsupported e name ''no manual ack on this broker'' t0
         else if supportsMessageGroups caps = Some False
         then sc_unsupported e name ''no broker-native message grouping'' t0
         else
         and_then (nonce e) (\<lambda>n. let topic = ''mbc.s12.'' @ n in
         and_then (nonce e) (\<lambda>n1. let opts = no_subscribe_options\<lparr>so_subscriberId := Some (''groups-'' @ n1),
             so_partitionByGroup := Some True\<rparr> in
         and_then (modify (set_vars [(''s12.0'', JArr []), (''s12.1'', JArr [])])) (\<lambda>_.
         and_then (do_subscribe e topic 120 opts) (\<lambda>subA.
         and_then (do_subscribe e topic 121 opts) (\<lambda>subB.
         finally_do
           (and_then (each (\<lambda>k. each (\<lambda>g. do_publish e topic (g @ '':'' @ show_nat k) None
                (Some (no_publish_options\<lparr>po_groupId := Some g\<rparr>))) GROUPS) [0 ..< PER_GROUP]) (\<lambda>_.
            and_then (waitUntil e (\<lambda>l. TOTAL \<le> length (arr_var ''s12.0'' l) + length (arr_var ''s12.1'' l)) 10000) (\<lambda>ok.
            and_then (reads (\<lambda>l. map (\<lambda>v. map entry_of (arr_var v l)) [''s12.0'', ''s12.1''])) (\<lambda>byConsumer.
            if \<not> ok then
              sc_fail e name (''received '' @ show_nat (sum_list (map length byConsumer)) @ ''/'' @ show_nat TOTAL) t0
            else
              (case groups_fault byConsumer of
                 Some detail \<Rightarrow> sc_fail e name detail t0
               | None \<Rightarrow> sc_pass e name (''per-group order preserved, each group pinned to one consumer (split '' @
                   join_strings ''/'' (map (\<lambda>c. show_nat (length c)) byConsumer) @ '')'') t0)))))
           (and_then (stop_subscribe e subA) (\<lambda>_. stop_subscribe e subB)))))))))"

section \<open>S13 deduplication\<close>

definition brokerNativeDedup :: "('w, 'sub) Env \<Rightarrow> ('w, ScenarioResult) prog" where
  "brokerNativeDedup e =
     (let name = ''S13 broker-native dedup''
      in and_then (clock e) (\<lambda>t0.
         if \<not> supportsDedup (ad_busCapabilities (en_port e))
         then sc_unsupported e name ''no broker-native producer dedup'' t0
         else
         and_then (nonce e) (\<lambda>n. let topic = ''mbc.s13.'' @ n in
         and_then (nonce e) (\<lambda>n1. let opts = Some (no_publish_options\<lparr>po_dedupId := Some (''dup-'' @ n1)\<rparr>) in
         and_then (nonce e) (\<lambda>n2.
         and_then (AckCollector_start e 130 topic (no_subscribe_options\<lparr>so_subscriberId := Some (''dedup-'' @ n2)\<rparr>)) (\<lambda>sub.
         finally_do
           (and_then (do_publish e topic ''order-42'' None opts) (\<lambda>_.
            and_then (do_publish e topic ''order-42'' None opts) (\<lambda>_.
            and_then (waitUntil e (\<lambda>l. 1 \<le> received_count 130 l) 6000) (\<lambda>arrived.
            if \<not> arrived then sc_fail e name ''no delivery at all'' t0
            else
            and_then (delay e 800) (\<lambda>_.
            and_then (reads (received_count 130)) (\<lambda>k.
            if k \<noteq> 1 then sc_fail e name (''expected 1 delivery, got '' @ show_nat k) t0
            else sc_pass e name ''duplicate dropped by the broker (1 delivery)'' t0))))))
           (stop_subscribe e sub)))))))"

section \<open>S14 priority\<close>

definition LOW_COUNT :: nat where "LOW_COUNT = 8"
definition HANDLER_DELAY_MS :: millis where "HANDLER_DELAY_MS = 60"

definition s14_handler :: closure where
  "s14_handler m now l =
     [Update (push_var ''s14.received'' (JStr (rm_body m))), Sleep HANDLER_DELAY_MS, Settle CallAck,
      Update (add_var ''s14.settled'' 1)]"

fun index_of :: "js_value \<Rightarrow> js_value list \<Rightarrow> int" where
  "index_of x [] = -1"
| "index_of x (y # ys) = (if y = x then 0 else (let k = index_of x ys in if k < 0 then -1 else k + 1))"

definition priorityScenario :: "('w, 'sub) Env \<Rightarrow> ('w, ScenarioResult) prog" where
  "priorityScenario e =
     (let name = ''S14 priority''
      in and_then (clock e) (\<lambda>t0.
         and_then (nonce e) (\<lambda>n. let topic = ''mbc.s14.'' @ n in
         and_then (modify (set_vars [(''s14.received'', JArr []), (''s14.settled'', JNum 0)])) (\<lambda>_.
         and_then (nonce e) (\<lambda>n1.
         and_then (do_subscribe e topic 140 (no_subscribe_options\<lparr>so_subscriberId := Some (''prio-'' @ n1),
             so_priorityQueue := Some True\<rparr>)) (\<lambda>sub.
         finally_do
           (and_then (each (\<lambda>i. do_publish e topic (''low-'' @ show_nat i) None
                (Some (no_publish_options\<lparr>po_priority := Some 1\<rparr>))) [0 ..< LOW_COUNT]) (\<lambda>_.
            and_then (do_publish e topic ''HIGH'' None (Some (no_publish_options\<lparr>po_priority := Some 9\<rparr>))) (\<lambda>_.
            and_then (waitUntil e (\<lambda>l. LOW_COUNT + 1 \<le> length (arr_var ''s14.received'' l)) 8000) (\<lambda>ok.
            and_then (reads (arr_var ''s14.received'')) (\<lambda>early.
            if \<not> ok then sc_fail e name (''received '' @ show_nat (length early) @ ''/'' @ show_nat (LOW_COUNT + 1)) t0
            else
            and_then (waitUntil e (\<lambda>l. int LOW_COUNT + 1 \<le> num_var ''s14.settled'' l) 2000) (\<lambda>_.
            and_then (reads (arr_var ''s14.received'')) (\<lambda>received.
            let highIndex = index_of (JStr ''HIGH'') received in
            if highIndex < 0 \<or> 1 < highIndex then
              sc_fail e name (''high-priority message arrived at index '' @ show_int highIndex @ '' (order: '' @
                comma_join (map js_String received) @ '')'') t0
            else
              sc_pass e name (''priority:9 overtook the backlog (arrived at index '' @ show_int highIndex @ '')'') t0)))))))
           (stop_subscribe e sub)))))))"

section \<open>The closures\<close>

definition reliability_closures :: "(handler \<Rightarrow> closure) \<Rightarrow> handler \<Rightarrow> closure" where
  "reliability_closures rest h =
     (if h = 100 then AckCollector_handler h (Some s10_count) False
      else if h = 101 then AckCollector_handler h (Some s10_count_ack) False
      else if h = 102 then AckCollector_handler h (Some (idempotent_closure s10_store s10_count)) False
      else if h = 103 then AckCollector_handler h (Some (idempotent_closure s10_store s10_count_ack)) False
      else if h = 104 then AckCollector_handler h (Some s10_guarded) False
      else if h = 110 then AckCollector_handler h (Some s11_handler) False
      else if h = 111 then AckCollector_handler h (Some s11_dlq_handler) True
      else if h = 120 then s12_handler 0
      else if h = 121 then s12_handler 1
      else if h = 130 then AckCollector_handler h None True
      else if h = 140 then s14_handler
      else rest h)"

end
