(* ===== verification/Scenarios_Lifecycle.thy ===== *)
theory Scenarios_Lifecycle
  imports Scenarios_Reliability
begin

text \<open>
  The bus scenarios S15 to S20 (\<open>scenarios/s15-request-reply.ts\<close> to
  \<open>scenarios/s20-handler-fault-isolation.ts\<close>).
\<close>

section \<open>S15 request/reply\<close>

definition s15_responder :: closure where
  "s15_responder m now l =
     (if truthy_string (im_replyTo m)
      then [Send (coalesce (im_replyTo m) []) (''echo:'' @ rm_body m) None
              (Some (no_publish_options\<lparr>po_correlationId := im_correlationId m\<rparr>))]
      else []) @ [Settle CallAck]"

definition s15_requester :: closure where
  "s15_requester m now l = [Update (push_received 151 m), Settle CallAck]"

definition requestReply :: "('w, 'sub) Env \<Rightarrow> ('w, ScenarioResult) prog" where
  "requestReply e =
     (let name = ''S15 request/reply''
      in and_then (clock e) (\<lambda>t0.
         and_then (nonce e) (\<lambda>n.
         let reqTopic = ''mbc.s15.req.'' @ n; replyTopic = ''mbc.s15.reply.'' @ n; correlationId = ''corr-'' @ n in
         and_then (do_subscribe e reqTopic 150 (no_subscribe_options\<lparr>so_subscriberId := Some (''responder-'' @ n)\<rparr>)) (\<lambda>respSub.
         and_then (modify (\<lambda>l. l\<lparr>lo_received := js_map_set (lo_received l) 151 []\<rparr>)) (\<lambda>_.
         and_then (do_subscribe e replyTopic 151 (no_subscribe_options\<lparr>so_subscriberId := Some (''requester-'' @ n)\<rparr>)) (\<lambda>reqSub.
         finally_do
           (and_then (do_publish e reqTopic ''ping'' None (Some (no_publish_options\<lparr>po_replyTo := Some replyTopic,
                po_correlationId := Some correlationId\<rparr>))) (\<lambda>_.
            and_then (waitUntil e (\<lambda>l. 1 \<le> received_count 151 l) 6000) (\<lambda>got.
            and_then (reads (received 151)) (\<lambda>replies.
            case replies of
              [] \<Rightarrow> sc_fail e name ''no reply received'' t0
            | reply # _ \<Rightarrow>
                if \<not> got then sc_fail e name ''no reply received'' t0
                else if rm_body reply \<noteq> ''echo:ping'' then
                  sc_fail e name (''unexpected reply body '' @ dquote @ rm_body reply @ dquote) t0
                else if im_correlationId reply \<noteq> Some correlationId then
                  sc_fail e name (''correlationId mismatch: '' @ dquote @ coalesce (im_correlationId reply) ''undefined'' @
                    dquote @ '' != '' @ dquote @ correlationId @ dquote) t0
                else
                  sc_pass e name (''correlated reply '' @ dquote @ rm_body reply @ dquote @ '' (correlationId matched)'') t0))))
           (and_then (stop_subscribe e respSub) (\<lambda>_. stop_subscribe e reqSub))))))))"

section \<open>S16 expiry\<close>

definition ack_handler :: closure where
  "ack_handler m now l = [Settle CallAck]"

definition ttlExpiry :: "('w, 'sub) Env \<Rightarrow> ('w, ScenarioResult) prog" where
  "ttlExpiry e =
     (let name = ''S16 TTL '' @ arrow @ '' expiry''; TTL_MS = 600
      in and_then (clock e) (\<lambda>t0.
         and_then (nonce e) (\<lambda>n. let topic = ''mbc.s16.'' @ n in
         and_then (nonce e) (\<lambda>n1. let subscriberId = ''expiring-'' @ n1 in
         and_then (do_subscribe e topic 160 (no_subscribe_options\<lparr>so_subscriberId := Some subscriberId, so_ttlMs := Some TTL_MS\<rparr>)) (\<lambda>warmup.
         and_then (stop_subscribe e warmup) (\<lambda>_.
         and_then (nonce e) (\<lambda>n2.
         and_then (AckCollector_start e 161 (expiryAddress topic) (no_subscribe_options\<lparr>so_kind := Some Fanout,
             so_subscriberId := Some (''expiry-watch-'' @ n2)\<rparr>)) (\<lambda>expiry.
         finally_do
           (and_then (do_publish e topic ''perishable'' None (Some (no_publish_options\<lparr>po_ttlMs := Some TTL_MS\<rparr>))) (\<lambda>_.
            and_then (waitUntil e (\<lambda>l. 1 \<le> received_count 161 l) 8000) (\<lambda>landed.
            and_then (reads (bodies 161)) (\<lambda>bs.
            if \<not> landed then sc_fail e name ''message never reached the expiry address'' t0
            else if js_nth bs 0 \<noteq> Some ''perishable'' then
              sc_fail e name (''unexpected expiry body '' @ dquote @ coalesce (js_nth bs 0) ''undefined'' @ dquote) t0
            else sc_pass e name ''expired message landed on the expiry address'' t0))))
           (stop_subscribe e expiry)))))))))"

section \<open>S17 durable subscription\<close>

definition GAP_COUNT :: nat where "GAP_COUNT = 5"

definition s17_handler :: closure where
  "s17_handler m now l = [Update (push_var ''s17.received'' (JStr (rm_body m))), Settle CallAck]"

definition durableSubscription :: "('w, 'sub) Env \<Rightarrow> ('w, ScenarioResult) prog" where
  "durableSubscription e =
     (let name = ''S17 durable subscription''
      in and_then (clock e) (\<lambda>t0.
         and_then (nonce e) (\<lambda>n. let topic = ''mbc.s17.'' @ n in
         and_then (nonce e) (\<lambda>n1. let opts = no_subscribe_options\<lparr>so_subscriberId := Some (''durable-'' @ n1)\<rparr> in
         and_then (do_subscribe e topic 170 opts) (\<lambda>warmup.
         and_then (stop_subscribe e warmup) (\<lambda>_.
         and_then (delay e 200) (\<lambda>_.
         and_then (each (\<lambda>i. do_publish e topic (''gap-'' @ show_nat i) None None) [0 ..< GAP_COUNT]) (\<lambda>_.
         and_then (delay e 200) (\<lambda>_.
         and_then (modify (set_var ''s17.received'' (JArr []))) (\<lambda>_.
         and_then (do_subscribe e topic 171 opts) (\<lambda>sub.
         finally_do
           (and_then (waitUntil e (\<lambda>l. GAP_COUNT \<le> length (arr_var ''s17.received'' l)) 8000) (\<lambda>ok.
            and_then (reads (arr_var ''s17.received'')) (\<lambda>received.
            if \<not> ok then
              sc_fail e name (''received '' @ show_nat (length received) @ ''/'' @ show_nat GAP_COUNT @ '' after reattach'') t0
            else
              (case find (\<lambda>i. JStr (''gap-'' @ show_nat i) \<notin> set received) [0 ..< GAP_COUNT] of
                 Some i \<Rightarrow> sc_fail e name (''lost message gap-'' @ show_nat i @ '' across the gap'') t0
               | None \<Rightarrow> sc_pass e name (''all '' @ show_nat GAP_COUNT @ '' offline messages retained and delivered on reattach'') t0))))
           (stop_subscribe e sub))))))))))))"

section \<open>S18 single active consumer\<close>

definition BATCH :: nat where "BATCH = 5"

definition s18_var :: "nat \<Rightarrow> string" where
  "s18_var i = ''s18.'' @ show_nat i"

definition s18_handler :: "nat \<Rightarrow> closure" where
  "s18_handler i m now l =
     [Update (push_var (s18_var i) (JNum (int (seq_number (coalesce (js_nth (split_on (CHR ''-'') (rm_body m)) 1) []))))),
      Settle CallAck]"

definition numbers_of :: "nat \<Rightarrow> Locals \<Rightarrow> int list" where
  "numbers_of i l = map (\<lambda>v. coalesce (as_number v) 0) (arr_var (s18_var i) l)"

text \<open>What the two consumers have seen in the end: the failure it shows, if any.\<close>

definition failover_fault :: "int list \<Rightarrow> int list \<Rightarrow> nat \<Rightarrow> nat \<Rightarrow> string option" where
  "failover_fault active standby activeIdx standbyIdx =
     (if standby = [] then Some ''standby never took over after failover''
      else
        (case find (\<lambda>i. i \<notin> set (active @ standby)) (map int [0 ..< 2 * BATCH]) of
           Some i \<Rightarrow> Some (''message m-'' @ show_int i @ '' was lost across failover'')
         | None \<Rightarrow>
             (case find (\<lambda>(idx, seq). \<not> increasing seq) [(activeIdx, active), (standbyIdx, standby)] of
                Some (idx, seq) \<Rightarrow> Some (''consumer '' @ show_nat idx @ '' out of order: '' @ comma_join (map show_int seq))
              | None \<Rightarrow>
                  if Max (set standby) < int BATCH
                  then Some (''standby did not take over the post-failover batch (got '' @ comma_join (map show_int standby) @ '')'')
                  else None)))"

definition singleActiveConsumer :: "('w, 'sub) Env \<Rightarrow> ('w, ScenarioResult) prog" where
  "singleActiveConsumer e =
     (let name = ''S18 single active consumer''
      in and_then (clock e) (\<lambda>t0.
         if \<not> supportsManualAck (ad_busCapabilities (en_port e))
         then sc_unsupported e name ''no manual ack on this broker'' t0
         else
         and_then (nonce e) (\<lambda>n. let topic = ''mbc.s18.'' @ n in
         and_then (nonce e) (\<lambda>n1. let opts = no_subscribe_options\<lparr>so_subscriberId := Some (''sac-'' @ n1),
             so_singleActiveConsumer := Some True\<rparr> in
         and_then (modify (set_vars [(s18_var 0, JArr []), (s18_var 1, JArr [])])) (\<lambda>_.
         and_then (do_subscribe e topic 180 opts) (\<lambda>subA.
         and_then (do_subscribe e topic 181 opts) (\<lambda>subB.
         finally_do
           (and_then (each (\<lambda>i. do_publish e topic (''m-'' @ show_nat i) None None) [0 ..< BATCH]) (\<lambda>_.
            and_then (waitUntil e (\<lambda>l. BATCH \<le> length (numbers_of 0 l) + length (numbers_of 1 l)) 8000) (\<lambda>firstBatchDone.
            and_then (reads (\<lambda>l. (length (numbers_of 0 l), length (numbers_of 1 l)))) (\<lambda>(n0, n1).
            if \<not> firstBatchDone then
              sc_fail e name (''only '' @ show_nat (n0 + n1) @ ''/'' @ show_nat BATCH @ '' of the first batch delivered'') t0
            else
            and_then (delay e 200) (\<lambda>_.
            and_then (reads (\<lambda>l. (length (numbers_of 0 l), length (numbers_of 1 l)))) (\<lambda>(n0, n1).
            let activeIdx = (if n1 \<le> n0 then 0 else 1); standbyIdx = (if activeIdx = 0 then 1 else 0) in
            if (if standbyIdx = 0 then n0 else n1) \<noteq> 0 then
              sc_fail e name (''both consumers were active before failover ('' @ show_nat n0 @ ''/'' @ show_nat n1 @ '')'') t0
            else
            and_then (stop_subscribe e (if activeIdx = 0 then subA else subB)) (\<lambda>_.
            and_then (delay e 300) (\<lambda>_.
            and_then (each (\<lambda>i. do_publish e topic (''m-'' @ show_nat i) None None) [BATCH ..< 2 * BATCH]) (\<lambda>_.
            and_then (waitUntil e (\<lambda>l. 2 * BATCH \<le> length (remdups (numbers_of 0 l @ numbers_of 1 l))) 8000) (\<lambda>ok.
            and_then (reads (\<lambda>l. length (remdups (numbers_of 0 l @ numbers_of 1 l)))) (\<lambda>seen.
            if \<not> ok then
              sc_fail e name (''only '' @ show_nat seen @ ''/'' @ show_nat (2 * BATCH) @ '' distinct messages delivered after failover'') t0
            else
            and_then (delay e 200) (\<lambda>_.
            and_then (reads (\<lambda>l. (numbers_of activeIdx l, numbers_of standbyIdx l))) (\<lambda>(active, standby).
            case failover_fault active standby activeIdx standbyIdx of
              Some detail \<Rightarrow> sc_fail e name detail t0
            | None \<Rightarrow> sc_pass e name (''active served '' @ show_nat (length active) @ '', standby took over '' @
                show_nat (length standby) @ '' after failover, order preserved'') t0)))))))))))))
           (and_then (ignore_errors (stop_subscribe e subA)) (\<lambda>_. ignore_errors (stop_subscribe e subB))))))))))"

section \<open>S19 stream replay\<close>

definition s19_handler :: "string \<Rightarrow> closure" where
  "s19_handler v m now l = [Update (push_var v (JStr (rm_body m))), Settle CallAck]"

definition streamReplay :: "('w, 'sub) Env \<Rightarrow> ('w, ScenarioResult) prog" where
  "streamReplay e =
     (let name = ''S19 stream replay''; N = 8; opts = no_subscribe_options\<lparr>so_streamReplay := Some True\<rparr>
      in and_then (clock e) (\<lambda>t0.
         if \<not> supportsStreamReplay (ad_busCapabilities (en_port e))
         then sc_unsupported e name ''broker cannot replay consumed history (no stream/offset support)'' t0
         else
         and_then (nonce e) (\<lambda>n. let topic = ''mbc.s19.'' @ n in
         and_then (modify (set_var ''s19.firstSeen'' (JArr []))) (\<lambda>_.
         and_then (do_subscribe e topic 190 opts) (\<lambda>first.
         and_then (delay e 300) (\<lambda>_.
         and_then (each (\<lambda>i. do_publish e topic (''evt-'' @ show_nat i) None None) [0 ..< N]) (\<lambda>_.
         and_then (waitUntil e (\<lambda>l. N \<le> length (arr_var ''s19.firstSeen'' l)) 10000) (\<lambda>firstOk.
         and_then (stop_subscribe e first) (\<lambda>_.
         and_then (reads (arr_var ''s19.firstSeen'')) (\<lambda>firstSeen.
         if \<not> firstOk then
           sc_fail e name (''establishing subscriber saw '' @ show_nat (length firstSeen) @ ''/'' @ show_nat N @ '' live messages'') t0
         else
         and_then (delay e 300) (\<lambda>_.
         and_then (modify (set_var ''s19.replayed'' (JArr []))) (\<lambda>_.
         and_then (do_subscribe e topic 191 opts) (\<lambda>replay.
         finally_do
           (and_then (waitUntil e (\<lambda>l. N \<le> length (arr_var ''s19.replayed'' l)) 12000) (\<lambda>ok.
            and_then (reads (arr_var ''s19.replayed'')) (\<lambda>replayed.
            if \<not> ok then
              sc_fail e name (''fresh subscriber replayed '' @ show_nat (length replayed) @ ''/'' @ show_nat N @ '' from offset 0'') t0
            else
              (case find (\<lambda>i. JStr (''evt-'' @ show_nat i) \<notin> set replayed) [0 ..< N] of
                 Some i \<Rightarrow> sc_fail e name (''replay missing evt-'' @ show_nat i) t0
               | None \<Rightarrow> sc_pass e name (''fresh subscriber replayed all '' @ show_nat N @
                   '' messages from offset 0 (full history)'') t0))))
           (stop_subscribe e replay))))))))))))))"

section \<open>S20 handler fault isolation\<close>

definition s20_attempts :: "string \<Rightarrow> Locals \<Rightarrow> int" where
  "s20_attempts body l = coalesce (as_number (js_prop body (get_var ''s20.attempts'' l))) 0"

fun obj_set :: "string \<Rightarrow> js_value \<Rightarrow> js_value \<Rightarrow> js_value" where
  "obj_set k x (JObj ps) = JObj (js_map_set ps k x)"
| "obj_set k x v = v"

definition s20_handler :: closure where
  "s20_handler m now l =
     (let n = s20_attempts (rm_body m) l + 1
      in Update (\<lambda>l. set_var ''s20.attempts'' (obj_set (rm_body m) (JNum n) (get_var ''s20.attempts'' l)) l) #
         (if n = 1 then [Update (add_var ''s20.thrown'' 1), Throw]
          else [Settle CallAck,
            Update (\<lambda>l. if JStr (rm_body m) \<in> set (arr_var ''s20.acked'' l) then l
                       else push_var ''s20.acked'' (JStr (rm_body m)) l)]))"

definition handlerFaultIsolation :: "('w, 'sub) Env \<Rightarrow> ('w, ScenarioResult) prog" where
  "handlerFaultIsolation e =
     (let name = ''S20 handler fault isolation''; COUNT = 6
      in and_then (clock e) (\<lambda>t0.
         if \<not> supportsManualAck (ad_busCapabilities (en_port e))
         then sc_unsupported e name ''needs manual ack/redelivery to recover from a thrown handler'' t0
         else
         and_then (nonce e) (\<lambda>n. let topic = ''mbc.s20.'' @ n in
         and_then (nonce e) (\<lambda>n1.
         and_then (modify (set_vars [(''s20.attempts'', JObj []), (''s20.acked'', JArr []), (''s20.thrown'', JNum 0)])) (\<lambda>_.
         and_then (do_subscribe e topic 200 (no_subscribe_options\<lparr>so_subscriberId := Some (''fault-'' @ n1)\<rparr>)) (\<lambda>sub.
         finally_do
           (and_then (each (\<lambda>i. do_publish e topic (''msg-'' @ show_nat i) None None) [0 ..< COUNT]) (\<lambda>_.
            and_then (waitUntil e (\<lambda>l. COUNT \<le> length (arr_var ''s20.acked'' l)) 30000) (\<lambda>ok.
            and_then (reads (\<lambda>l. (num_var ''s20.thrown'' l, length (arr_var ''s20.acked'' l)))) (\<lambda>(thrown, n_acked).
            if ok then
              sc_pass e name (''consumer survived '' @ show_int thrown @ '' handler exceptions; all '' @ show_nat COUNT @
                '' messages processed on retry'') t0
            else
              sc_fail e name (''only '' @ show_nat n_acked @ ''/'' @ show_nat COUNT @
                '' recovered after a thrown handler (exceptions='' @ show_int thrown @ '')'') t0))))
           (stop_subscribe e sub)))))))"

section \<open>The closures\<close>

definition lifecycle_closures :: "(handler \<Rightarrow> closure) \<Rightarrow> handler \<Rightarrow> closure" where
  "lifecycle_closures rest h =
     (if h = 150 then s15_responder
      else if h = 151 then s15_requester
      else if h = 160 \<or> h = 170 then ack_handler
      else if h = 161 then AckCollector_handler h None True
      else if h = 171 then s17_handler
      else if h = 180 then s18_handler 0
      else if h = 181 then s18_handler 1
      else if h = 190 then s19_handler ''s19.firstSeen''
      else if h = 191 then s19_handler ''s19.replayed''
      else if h = 200 then s20_handler
      else rest h)"

text \<open>All closures of the scenarios.\<close>

definition scenario_closures :: "handler \<Rightarrow> closure" where
  "scenario_closures = delivery_closures (reliability_closures (lifecycle_closures (\<lambda>h m now l. [])))"

end
