(* ===== verification/Runner.thy ===== *)
theory Runner
  imports Scenarios_Scheduling Scenarios_Lifecycle
begin

text \<open>
  The suite (\<open>scenarios/index.ts\<close>) and its runner (\<open>runner.ts\<close>, with the vocabulary of \<open>ansi.ts\<close>): every
  scenario against one adapter, each error contained, and the printed report.
\<close>

section \<open>The suite\<close>

type_synonym ('w, 'sub) scenario = "string \<times> (('w, 'sub) Env \<Rightarrow> ('w, ScenarioResult) prog)"

definition ALL_SCENARIOS :: "('w, 'sub) scenario list" where
  "ALL_SCENARIOS =
     [(''S1 immediate send/receive'', immediateDelivery), (''S2 scheduled delivery'', scheduledDelivery),
      (''S3 cancel scheduled'', cancelScheduled), (''S4 list pending'', listPending)]"

definition ALL_BUS_SCENARIOS :: "('w, 'sub) scenario list" where
  "ALL_BUS_SCENARIOS =
     [(''S5 pub/sub (topic)'', pubSub), (''S6 fanout multicast'', fanout), (''S7 explicit ack'', explicitAck),
      (''S8 poison '' @ arrow @ '' dead-letter'', poisonDlq), (''S9 competing consumers'', competingConsumers),
      (''S10 idempotent consumer'', idempotentConsumer), (''S11 retry queue'', retryQueueScenario),
      (''S12 message groups'', messageGroups), (''S13 broker-native dedup'', brokerNativeDedup),
      (''S14 priority'', priorityScenario), (''S15 request/reply'', requestReply),
      (''S16 TTL '' @ arrow @ '' expiry'', ttlExpiry), (''S17 durable subscription'', durableSubscription),
      (''S18 single active consumer'', singleActiveConsumer), (''S19 stream replay'', streamReplay),
      (''S20 handler fault isolation'', handlerFaultIsolation)]"

section \<open>Running it\<close>

record RunReport =
  rr_broker :: string
  rr_capabilities :: Capabilities
  rr_results :: "ScenarioResult list"

definition naResult :: "string \<Rightarrow> string \<Rightarrow> ScenarioResult" where
  "naResult name detail = \<lparr>sr_name = name, sr_status = StatusUnsupported, sr_detail = detail, sr_durationMs = 0\<rparr>"

definition failResult :: "string \<Rightarrow> js_error \<Rightarrow> ScenarioResult" where
  "failResult name err =
     \<lparr>sr_name = name, sr_status = StatusFail, sr_detail = ''threw: '' @ error_message err, sr_durationMs = 0\<rparr>"

text \<open>\<open>runOne\<close> and \<open>runOneBus\<close>, which differ in the port's type only.\<close>

definition runOne :: "('w, 'sub) Env \<Rightarrow> ('w, 'sub) scenario \<Rightarrow> 'w \<times> Locals \<Rightarrow> ScenarioResult \<times> ('w \<times> Locals)" where
  "runOne e = (\<lambda>(name, scenario) s.
     case scenario e s of (Inr r, s') \<Rightarrow> (r, s') | (Inl err, s') \<Rightarrow> (failResult name err, s'))"

fun run_each :: "('i \<Rightarrow> 's \<Rightarrow> 'r \<times> 's) \<Rightarrow> 'i list \<Rightarrow> 's \<Rightarrow> 'r list \<times> 's" where
  "run_each f [] s = ([], s)"
| "run_each f (x # xs) s = (case f x s of (r, s1) \<Rightarrow> case run_each f xs s1 of (rs, s2) \<Rightarrow> (r # rs, s2))"

definition runBus :: "('w, 'sub) Env \<Rightarrow> 'w \<times> Locals \<Rightarrow> ScenarioResult list \<times> ('w \<times> Locals)" where
  "runBus e s =
     (if cap_bus (ad_capabilities (en_port e)) = None then
        (map (\<lambda>(name, _). naResult name ''adapter has no bus port'') (ALL_BUS_SCENARIOS :: ('w, 'sub) scenario list), s)
      else
        (case do_connectBus e s of
           (Inl connectError, s1) \<Rightarrow>
             (map (\<lambda>(name, _). failResult name connectError) (ALL_BUS_SCENARIOS :: ('w, 'sub) scenario list), s1)
         | (Inr _, s1) \<Rightarrow> run_each (runOne e) ALL_BUS_SCENARIOS s1))"

definition runSuite :: "('w, 'sub) Env \<Rightarrow> 'w \<times> Locals \<Rightarrow> RunReport \<times> ('w \<times> Locals)" where
  "runSuite e s =
     (case run_each (runOne e) ALL_SCENARIOS s of
        (rs, s1) \<Rightarrow>
          (case runBus e s1 of
             (bs, s2) \<Rightarrow> (\<lparr>rr_broker = ad_name (en_port e), rr_capabilities = ad_capabilities (en_port e),
               rr_results = rs @ bs\<rparr>, s2)))"

section \<open>The report\<close>

definition countBy :: "RunReport \<Rightarrow> ScenarioStatus \<Rightarrow> nat" where
  "countBy r s = length (filter (\<lambda>x. sr_status x = s) (rr_results r))"

definition escape :: "string \<Rightarrow> string" where
  "escape code = [CHR 0x1B] @ ''['' @ code @ ''m''"

definition c_reset :: string where "c_reset = escape ''0''"
definition c_bold :: string where "c_bold = escape ''1''"
definition c_dim :: string where "c_dim = escape ''2''"
definition c_green :: string where "c_green = escape ''32''"
definition c_red :: string where "c_red = escape ''31''"
definition c_yellow :: string where "c_yellow = escape ''33''"
definition c_cyan :: string where "c_cyan = escape ''36''"
definition c_magenta :: string where "c_magenta = escape ''35''"

fun GLYPH :: "ScenarioStatus \<Rightarrow> string" where
  "GLYPH StatusPass = c_green @ [CHR 0xE2, CHR 0x9C, CHR 0x93] @ '' pass'' @ c_reset"
| "GLYPH StatusFail = c_red @ [CHR 0xE2, CHR 0x9C, CHR 0x97] @ '' fail'' @ c_reset"
| "GLYPH StatusUnsupported = c_yellow @ [CHR 0xE2, CHR 0x8A, CHR 0x98] @ '' n/a '' @ c_reset"
| "GLYPH StatusSkipped = c_dim @ ''- skip'' @ c_reset"

definition HR :: string where
  "HR = c_dim @ concat (replicate 76 [CHR 0xE2, CHR 0x94, CHR 0x80]) @ c_reset"

definition yn :: "bool \<Rightarrow> string" where
  "yn b = (if b then ''yes'' else ''no'')"

text \<open>
  The length of a string of the source, which counts UTF-16 units: the bytes that do not continue a UTF-8 sequence
  (no text of the suite has a character beyond the basic plane). \<open>padEnd\<close> and \<open>padStart\<close> pad to that length.
\<close>

definition js_length :: "string \<Rightarrow> nat" where
  "js_length s = length (filter (\<lambda>ch. \<not> (128 \<le> (of_char ch :: nat) \<and> (of_char ch :: nat) < 192)) s)"

definition padEnd :: "nat \<Rightarrow> string \<Rightarrow> string" where
  "padEnd n s = s @ replicate (n - js_length s) CHR '' ''"

definition padStart :: "nat \<Rightarrow> string \<Rightarrow> string" where
  "padStart n s = replicate (n - js_length s) CHR '' '' @ s"

definition result_line :: "ScenarioResult \<Rightarrow> string" where
  "result_line r =
     ''  '' @ GLYPH (sr_status r) @ ''  '' @ padEnd 28 (sr_name r) @ '' '' @ c_dim @
     padStart 5 (show_int (sr_durationMs r)) @ ''ms'' @ c_reset @ ''  '' @ sr_detail r"

definition cap_line :: "Capabilities \<Rightarrow> string" where
  "cap_line cap =
     ''protocol='' @ cap_protocol cap @ ''  native-scheduling='' @ yn (cap_nativeScheduling cap) @
     ''  cancel='' @ yn (cap_supportsCancel cap) @ ''  list='' @ yn (cap_supportsList cap)"

definition bus_line :: "BusCapabilities \<Rightarrow> string" where
  "bus_line b =
     ''pub/sub='' @ yn (supportsTopic b) @ ''  fanout='' @ yn (supportsFanout b) @
     ''  manual-ack='' @ yn (supportsManualAck b) @ ''  dead-letter='' @ yn (supportsDeadLetter b) @
     ''  delivery-count='' @ yn (reportsDeliveryCount b)"

definition summary_line :: "RunReport \<Rightarrow> string" where
  "summary_line r =
     (let passed = countBy r StatusPass; na = countBy r StatusUnsupported; failed = countBy r StatusFail
      in ''  '' @ c_green @ show_nat passed @ '' passed'' @ c_reset @ '', '' @
         c_yellow @ show_nat na @ '' unsupported'' @ c_reset @ '', '' @
         (if failed \<noteq> 0 then c_red else c_dim) @ show_nat failed @ '' failed'' @ c_reset)"

text \<open>The lines \<open>printReport\<close> writes.\<close>

definition printReport :: "RunReport \<Rightarrow> string list" where
  "printReport r =
     [[], c_bold @ c_cyan @ rr_broker r @ c_reset, c_dim @ cap_line (rr_capabilities r) @ c_reset] @
     (case cap_bus (rr_capabilities r) of None \<Rightarrow> [] | Some b \<Rightarrow> [c_dim @ bus_line b @ c_reset]) @
     [HR] @ map result_line (rr_results r) @ [HR, summary_line r]"

section \<open>The command\<close>

text \<open>
  \<open>runAgainst\<close> and \<open>main\<close> of \<open>index.ts\<close>: no report when the broker cannot be connected; the adapter is disposed
  whatever happens. The argument is a text in ASCII.
\<close>

definition could_not_connect :: "string \<Rightarrow> js_error \<Rightarrow> string" where
  "could_not_connect broker err =
     [CHR 0x0A] @ ''['' @ broker @ ''] could not connect: '' @ error_message err @ [CHR 0x0A] @
     ''  Is the broker running? Try: docker compose up -d '' @ broker"

definition runAgainst :: "string \<Rightarrow> ('w, 'sub) Env \<Rightarrow> ('w, RunReport option) prog" where
  "runAgainst broker e s =
     (case port_call e unit_of (ad_connect (en_port e)) s of
        (Inl err, s1) \<Rightarrow> and_then (say (could_not_connect broker err)) (\<lambda>_. gives None) s1
      | (Inr _, s1) \<Rightarrow>
          finally_do (\<lambda>s. case runSuite e s of (rep, s') \<Rightarrow> (Inr (Some rep), s'))
            (port_call e unit_of (ad_dispose (en_port e))) s1)"

text \<open>The body of the loop over the brokers.\<close>

definition run_broker :: "string \<Rightarrow> ('w, 'sub) Env \<Rightarrow> ('w, RunReport option) prog" where
  "run_broker broker e = and_then (runAgainst broker e) (\<lambda>report. case report of
     None \<Rightarrow> gives None
   | Some rep \<Rightarrow> and_then (each say (printReport rep)) (\<lambda>_. gives (Some rep)))"

definition main_arg :: "string option \<Rightarrow> string" where
  "main_arg arg = map (\<lambda>ch. let k = of_char ch :: nat in if 65 \<le> k \<and> k \<le> 90 then char_of (k + 32) else ch)
     (coalesce arg ''in-memory'')"

definition main_brokers :: "string \<Rightarrow> string list option" where
  "main_brokers arg =
     (if arg = ''all'' then Some (filter (\<lambda>b. b \<noteq> ''in-memory'') KNOWN_BROKERS)
      else if arg \<in> set KNOWN_BROKERS then Some [arg] else None)"

definition exit_code :: "RunReport list \<Rightarrow> int" where
  "exit_code reports = (if list_ex (\<lambda>rep. list_ex (\<lambda>x. sr_status x = StatusFail) (rr_results rep)) reports then 1 else 0)"

text \<open>
  The adapters have states of their own types: \<open>against\<close> gives what \<open>run_broker\<close> gives for a broker, and the lines it
  wrote. An error it throws ends the process with code 1.
\<close>

type_synonym broker_run = "string \<Rightarrow> (js_error + RunReport option) \<times> string list"

fun run_brokers :: "broker_run \<Rightarrow> string list \<Rightarrow> (js_error + RunReport list) \<times> string list" where
  "run_brokers against [] = (Inr [], [])"
| "run_brokers against (b # bs) =
     (case against b of
        (Inl err, out) \<Rightarrow> (Inl err, out)
      | (Inr report, out) \<Rightarrow>
          (case run_brokers against bs of
             (Inl err, out') \<Rightarrow> (Inl err, out @ out')
           | (Inr reports, out') \<Rightarrow> (Inr (case report of None \<Rightarrow> reports | Some rep \<Rightarrow> rep # reports), out @ out')))"

definition main_run :: "broker_run \<Rightarrow> string option \<Rightarrow> int \<times> string list" where
  "main_run against argv2 =
     (let arg = main_arg argv2
      in case main_brokers arg of
           None \<Rightarrow> (2, [''Unknown broker '' @ [CHR 0x27] @ arg @ [CHR 0x27] @ ''. Known: '' @
             join_strings '', '' KNOWN_BROKERS @ '', all''])
         | Some brokers \<Rightarrow>
             (case run_brokers against brokers of
                (Inl err, out) \<Rightarrow> (1, out)
              | (Inr reports, out) \<Rightarrow> (exit_code reports, out)))"

end
