(* ===== verification/Event_Loop.thy ===== *)
theory Event_Loop
  imports Scenario_Port
begin

text \<open>
  The environment of the in-process adapter: the JavaScript event loop over the state of
  \<open>InMemoryScheduler\<close> and its bus. Jobs run in the order of the platform: first the microtasks, then the
  timer that is due first; time jumps to the next timer when nothing is ready. A handler runs without
  interruption up to a \<open>Sleep\<close>, and its rest is a task.

  What a handler does is the parameter \<open>closures\<close>.
\<close>

record Loop =
  lp_sched :: InMemoryScheduler
  lp_tasks :: "(millis \<times> nat \<times> act list) list"

definition lp_bus :: "Loop \<Rightarrow> Bus" where
  "lp_bus w = is_bus (lp_sched w)"

definition on_sched :: "(InMemoryScheduler \<Rightarrow> InMemoryScheduler) \<Rightarrow> Loop \<Rightarrow> Loop" where
  "on_sched f w = w\<lparr>lp_sched := f (lp_sched w)\<rparr>"

definition on_bus :: "(Bus \<Rightarrow> Bus) \<Rightarrow> Loop \<Rightarrow> Loop" where
  "on_bus f = on_sched (\<lambda>s. s\<lparr>is_bus := f (is_bus s)\<rparr>)"

definition lp_now :: "Loop \<Rightarrow> millis" where
  "lp_now w = is_now (lp_sched w)"

text \<open>All clocks show the same time.\<close>

definition set_clock :: "millis \<Rightarrow> Loop \<times> Locals \<Rightarrow> Loop \<times> Locals" where
  "set_clock t = (\<lambda>(w, l).
     (on_sched (\<lambda>s. s\<lparr>is_now := t, is_bus := (is_bus s)\<lparr>b_now := t\<rparr>\<rparr>) w,
      l\<lparr>lo_store := (lo_store l)\<lparr>ms_now := t\<rparr>\<rparr>))"

text \<open>The actions of a handler on the \<open>i\<close>-th delivery.\<close>

fun run_acts :: "nat \<Rightarrow> act list \<Rightarrow> Loop \<times> Locals \<Rightarrow> Loop \<times> Locals" where
  "run_acts i [] s = s"
| "run_acts i (Update f # as) s = run_acts i as (fst s, f (snd s))"
| "run_acts i (Settle CallAck # as) s = run_acts i as (on_bus (ack i) (fst s), snd s)"
| "run_acts i (Settle (CallNack r) # as) s = run_acts i as (on_bus (nack i r) (fst s), snd s)"
| "run_acts i (Send t payload rk opts # as) s =
     run_acts i as (on_sched (is_publish t payload rk opts) (fst s), snd s)"
| "run_acts i (Sleep ms # as) s =
     ((fst s)\<lparr>lp_tasks := lp_tasks (fst s) @ [(lp_now (fst s) + timeout_delay ms, i, as)]\<rparr>, snd s)"
| "run_acts i (Throw # as) s = (on_bus (handler_throws i) (fst s), snd s)"

text \<open>A delivery: the handler is called with the message.\<close>

definition run_delivery :: "(handler \<Rightarrow> closure) \<Rightarrow> Loop \<times> Locals \<Rightarrow> Loop \<times> Locals" where
  "run_delivery closures s =
     (let w = on_bus run_microtask (fst s);
          i = length (b_delivered (lp_bus (fst s)));
          d = hd (b_microtasks (lp_bus (fst s)))
      in run_acts i (closures (dl_consumer d) (wrap (dl_message d)) (lp_now w) (snd s)) (w, snd s))"

text \<open>The dispatch of a plain message to its collectors.\<close>

definition run_plain :: "Loop \<times> Locals \<Rightarrow> Loop \<times> Locals" where
  "run_plain s =
     (let m = hd (is_microtasks (lp_sched (fst s)));
          hs = handlers_of (rm_destination m) (lp_sched (fst s))
      in (on_sched (run_dispatch (\<lambda>_ _. False)) (fst s), fold (\<lambda>h. push_plain h m) hs (snd s)))"

text \<open>The position and the due time of the first of the timers that are due first.\<close>

fun first_due :: "millis list \<Rightarrow> (millis \<times> nat) option" where
  "first_due [] = None"
| "first_due (t # ts) =
     (case first_due ts of
        None \<Rightarrow> Some (t, 0)
      | Some (u, i) \<Rightarrow> if t \<le> u then Some (t, 0) else Some (u, Suc i))"

datatype due_job = DueSchedule nat | DueBus nat | DueTask nat

definition next_due :: "Loop \<Rightarrow> (millis \<times> due_job) option" where
  "next_due w =
     (let pick = (\<lambda>f ts other. case first_due ts of
            None \<Rightarrow> other
          | Some (t, i) \<Rightarrow> (case other of None \<Rightarrow> Some (t, f i)
                          | Some (u, j) \<Rightarrow> if t \<le> u then Some (t, f i) else Some (u, j)))
      in pick DueTask (map fst (lp_tasks w))
           (pick DueSchedule (map st_due (is_timers (lp_sched w)))
             (pick DueBus (map tm_due (b_timers (lp_bus w))) None)))"

fun run_due :: "due_job \<Rightarrow> Loop \<times> Locals \<Rightarrow> Loop \<times> Locals" where
  "run_due (DueSchedule i) s = (on_sched (fire_schedule i) (fst s), snd s)"
| "run_due (DueBus i) s = (on_bus (fire_timer i) (fst s), snd s)"
| "run_due (DueTask i) s =
     (case lp_tasks (fst s) ! i of (t, d, as) \<Rightarrow>
        run_acts d as ((fst s)\<lparr>lp_tasks := splice1 i (lp_tasks (fst s))\<rparr>, snd s))"

text \<open>The loop up to a deadline; \<open>None\<close> when it has run more jobs than the fuel.\<close>

fun event_loop :: "(handler \<Rightarrow> closure) \<Rightarrow> millis \<Rightarrow> nat \<Rightarrow> Loop \<times> Locals \<Rightarrow> (Loop \<times> Locals) option" where
  "event_loop closures deadline fuel s =
     (if fuel = 0 then None
      else if is_microtasks (lp_sched (fst s)) \<noteq> [] then event_loop closures deadline (fuel - 1) (run_plain s)
      else if b_microtasks (lp_bus (fst s)) \<noteq> [] then event_loop closures deadline (fuel - 1) (run_delivery closures s)
      else
        (case next_due (fst s) of
           None \<Rightarrow> Some (set_clock deadline s)
         | Some (t, j) \<Rightarrow>
             if t \<le> deadline
             then event_loop closures deadline (fuel - 1) (run_due j (set_clock (max t (lp_now (fst s))) s))
             else Some (set_clock deadline s)))"

declare event_loop.simps [simp del]

definition loop_fuel :: nat where "loop_fuel = 1000"

text \<open>Out of fuel, the state stays as it is.\<close>

definition elapse :: "(handler \<Rightarrow> closure) \<Rightarrow> millis \<Rightarrow> Loop \<times> Locals \<Rightarrow> Loop \<times> Locals" where
  "elapse closures ms s = coalesce (event_loop closures (lp_now (fst s) + ms) loop_fuel s) s"

definition on_loop :: "(InMemoryScheduler, nat \<times> handler) operation \<Rightarrow> (Loop, nat \<times> handler) operation" where
  "on_loop op w = (case op (lp_sched w) of (r, s) \<Rightarrow> (r, w\<lparr>lp_sched := s\<rparr>))"

definition loop_port :: "(Loop, nat \<times> handler) Adapter" where
  "loop_port = \<lparr>ad_name = ad_name memory_adapter, ad_capabilities = ad_capabilities memory_adapter,
     ad_busCapabilities = ad_busCapabilities memory_adapter,
     ad_connect = on_loop (ad_connect memory_adapter),
     ad_sendNow = (\<lambda>d p. on_loop (ad_sendNow memory_adapter d p)),
     ad_schedule = (\<lambda>d p at. on_loop (ad_schedule memory_adapter d p at)),
     ad_cancel = (\<lambda>h. on_loop (ad_cancel memory_adapter h)),
     ad_listScheduled = (\<lambda>d. on_loop (ad_listScheduled memory_adapter d)),
     ad_consume = (\<lambda>d h. on_loop (ad_consume memory_adapter d h)),
     ad_connectBus = on_loop (ad_connectBus memory_adapter),
     ad_publish = (\<lambda>t p rk opts. on_loop (ad_publish memory_adapter t p rk opts)),
     ad_subscribe = (\<lambda>t h opts. on_loop (ad_subscribe memory_adapter t h opts)),
     ad_dispose = on_loop (ad_dispose memory_adapter)\<rparr>"

definition memory_env :: "(handler \<Rightarrow> closure) \<Rightarrow> (nat \<Rightarrow> string) \<Rightarrow> (Loop, nat \<times> handler) Env" where
  "memory_env closures random = \<lparr>en_port = loop_port, en_now = lp_now, en_elapse = elapse closures,
     en_stopConsume = (\<lambda>(r, h) w. (Inr (), on_sched (consume_unsubscribe r h) w)),
     en_stopSubscribe = (\<lambda>(qr, h) w. (Inr (), on_bus (unsubscribe qr h) w)),
     en_random = random\<rparr>"

definition loop_init :: "Loop \<times> Locals" where
  "loop_init = (\<lparr>lp_sched = is_init, lp_tasks = []\<rparr>, no_locals)"

end
