(* ===== verification/Runner_Properties.thy ===== *)
theory Runner_Properties
  imports Runner Event_Loop Scheduler_Properties Rabbit_Mq Artemis Kafka
begin

text \<open>
  The properties of the scenarios and the runner. The first part is a small calculus of what a scenario can
  return on any adapter and in any state; the scenarios go through it by their structure.
\<close>

section \<open>What a program can return\<close>

named_theorems yields_intros \<open>rules that follow the structure of a scenario\<close>

definition yields :: "('a \<Rightarrow> bool) \<Rightarrow> ('w, 'a) prog \<Rightarrow> bool" where
  "yields P p \<longleftrightarrow> (\<forall>s. pred_sum (\<lambda>_. True) P (fst (p s)))"

lemma yields_at: "yields P p \<Longrightarrow> pred_sum (\<lambda>_. True) P (fst (p s))"
  unfolding yields_def by blast

lemma yieldsD: "yields P p \<Longrightarrow> fst (p s) = Inr r \<Longrightarrow> P r"
  using yields_at [of P p s] by simp

lemma yields_bound:
  assumes "yields Q m" and "\<And>x. Q x \<Longrightarrow> yields P (f x)"
  shows "yields P (and_then m f)"
  unfolding yields_def
proof
  fix s
  obtain r t where m: "m s = (r, t)" by (meson surj_pair)
  show "pred_sum (\<lambda>_. True) P (fst (and_then m f s))"
  proof (cases r)
    case (Inr x)
    with m yields_at [OF assms(1), of s] have "Q x" by simp
    with m Inr yields_at [OF assms(2), of x t] show ?thesis by simp
  qed (use m in simp)
qed

lemma yields_and_then [yields_intros]: "(\<And>x. yields P (f x)) \<Longrightarrow> yields P (and_then m f)"
  by (rule yields_bound [of "\<lambda>_. True"]) (simp_all add: yields_def sum.pred_True)

lemma yields_finally [yields_intros]:
  assumes "yields P p"
  shows "yields P (finally_do p c)"
  unfolding yields_def
proof
  fix s
  obtain r t where p: "p s = (r, t)" by (meson surj_pair)
  obtain r' t' where c: "c t = (r', t')" by (meson surj_pair)
  show "pred_sum (\<lambda>_. True) P (fst (finally_do p c s))"
    using p c yields_at [OF assms, of s] by (cases r') (simp_all add: finally_do_def)
qed

lemma yields_gives [yields_intros]: "P x \<Longrightarrow> yields P (gives x)"
  by (simp add: yields_def gives_def)

lemma yields_raise [yields_intros]: "yields P (raise err)"
  by (simp add: yields_def raise_def)

lemma yields_or_return [yields_intros]:
  assumes "yields (\<lambda>r. case r of Inl res \<Rightarrow> P res | Inr _ \<Rightarrow> True) b" and "\<And>x. yields P (f x)"
  shows "yields P (or_return b f)"
  unfolding or_return_def
proof (rule yields_bound [OF assms(1)])
  fix x :: "ScenarioResult + 'a"
  assume "case x of Inl res \<Rightarrow> P res | Inr _ \<Rightarrow> True"
  then show "yields P (case x of Inl res \<Rightarrow> gives res | Inr y \<Rightarrow> f y)"
    by (cases x) (simp_all add: yields_gives assms(2))
qed

lemma yields_returning [yields_intros]:
  "yields P p \<Longrightarrow> yields (\<lambda>r. case r of Inl res \<Rightarrow> P res | Inr _ \<Rightarrow> True) (returning p)"
  unfolding returning_def by (erule yields_bound) (simp add: yields_gives)

lemma yields_value [yields_intros]: "yields (\<lambda>r. case r of Inl res \<Rightarrow> P res | Inr _ \<Rightarrow> True) (gives (Inr x))"
  by (simp add: yields_def gives_def)

lemma yields_if [yields_intros]: "(b \<Longrightarrow> yields P p) \<Longrightarrow> (\<not> b \<Longrightarrow> yields P q) \<Longrightarrow> yields P (if b then p else q)"
  by simp

lemma yields_option [yields_intros]:
  "yields P p \<Longrightarrow> (\<And>x. yields P (q x)) \<Longrightarrow> yields P (case o' of None \<Rightarrow> p | Some x \<Rightarrow> q x)"
  by (cases o') simp_all

lemma yields_sum [yields_intros]:
  "(\<And>x. yields P (p x)) \<Longrightarrow> (\<And>x. yields P (q x)) \<Longrightarrow> yields P (case o' of Inl x \<Rightarrow> p x | Inr x \<Rightarrow> q x)"
  by (cases o') simp_all

lemma yields_list [yields_intros]:
  "yields P p \<Longrightarrow> (\<And>x xs. yields P (q x xs)) \<Longrightarrow> yields P (case o' of [] \<Rightarrow> p | x # xs \<Rightarrow> q x xs)"
  by (cases o') simp_all

lemma yields_prod [yields_intros]: "(\<And>x y. yields P (p x y)) \<Longrightarrow> yields P (case o' of (x, y) \<Rightarrow> p x y)"
  by (cases o') simp

lemma yields_let [yields_intros]: "(\<And>x. yields P (f x)) \<Longrightarrow> yields P (Let x f)"
  by simp

text \<open>A result that carries the scenario's name and one of some statuses.\<close>

definition reports :: "string \<Rightarrow> ScenarioStatus set \<Rightarrow> ScenarioResult \<Rightarrow> bool" where
  "reports name S r \<longleftrightarrow> sr_name r = name \<and> sr_status r \<in> S"

lemma yields_pass [yields_intros]: "StatusPass \<in> S \<Longrightarrow> yields (reports n S) (sc_pass e n d t0)"
  and yields_fail [yields_intros]: "StatusFail \<in> S \<Longrightarrow> yields (reports n S) (sc_fail e n d t0)"
  by (simp_all add: yields_def sc_pass_def sc_fail_def verdict_def and_then_def clock_def gives_def reports_def split_def)

text \<open>A scenario that runs returns a verdict under its own name; one that is gated off says so and does nothing.\<close>

definition judges :: "string \<Rightarrow> ('w, ScenarioResult) prog \<Rightarrow> bool" where
  "judges name p \<longleftrightarrow> yields (reports name {StatusPass, StatusFail}) p"

definition declines :: "string \<Rightarrow> ('w, ScenarioResult) prog \<Rightarrow> bool" where
  "declines name p \<longleftrightarrow> (\<forall>s. \<exists>detail. p s =
     (Inr \<lparr>sr_name = name, sr_status = StatusUnsupported, sr_detail = detail, sr_durationMs = 0\<rparr>, s))"

lemma declines_clock:
  fixes e :: "('w, 'sub) Env"
  shows "(\<And>t. \<exists>d. f t = sc_unsupported e name d t) \<Longrightarrow> declines name (and_then (clock e) f)"
proof -
  assume f: "\<And>t. \<exists>d. f t = sc_unsupported e name d t"
  show ?thesis
    unfolding declines_def
  proof
    fix s :: "'w \<times> Locals"
    from f [of "en_now e (fst s)"] obtain d where "f (en_now e (fst s)) = sc_unsupported e name d (en_now e (fst s))" ..
    then show "\<exists>detail. and_then (clock e) f s =
       (Inr \<lparr>sr_name = name, sr_status = StatusUnsupported, sr_detail = detail, sr_durationMs = 0\<rparr>, s)"
      by (cases s) (simp add: and_then_def clock_def sc_unsupported_def verdict_def gives_def)
  qed
qed

section \<open>The bus scenarios\<close>

text \<open>A scenario with a capability gate: it judges when the adapter declares the capability and declines otherwise.\<close>

definition gated :: "(BusCapabilities \<Rightarrow> bool) \<Rightarrow> string \<Rightarrow> (('w, 'sub) Env \<Rightarrow> ('w, ScenarioResult) prog) \<Rightarrow> ('w, 'sub) Env \<Rightarrow> bool" where
  "gated gate name scenario e \<longleftrightarrow>
     (if gate (ad_busCapabilities (en_port e)) then judges name (scenario e) else declines name (scenario e))"

lemma gatedI:
  assumes "gate (ad_busCapabilities (en_port e)) \<Longrightarrow> judges name (scenario e)"
    and "\<not> gate (ad_busCapabilities (en_port e)) \<Longrightarrow> declines name (scenario e)"
  shows "gated gate name scenario e"
  using assms by (simp add: gated_def)

lemma pubSub_gated: "gated supportsTopic ''S5 pub/sub (topic)'' pubSub e"
  by (rule gatedI) (auto simp: judges_def pubSub_def  Let_def intro!: yields_intros declines_clock)

lemma fanout_gated: "gated supportsFanout ''S6 fanout multicast'' fanout e"
  by (rule gatedI) (auto simp: judges_def fanout_def  Let_def intro!: yields_intros declines_clock)

lemma explicitAck_gated: "gated supportsManualAck ''S7 explicit ack'' explicitAck e"
  by (rule gatedI) (auto simp: judges_def explicitAck_def s7_ack_def s7_nack_def s7_crash_def Let_def intro!: yields_intros declines_clock)

lemma poisonDlq_gated: "gated supportsDeadLetter (''S8 poison '' @ arrow @ '' dead-letter'') poisonDlq e"
  by (rule gatedI) (auto simp: judges_def poisonDlq_def  Let_def intro!: yields_intros declines_clock)

lemma competingConsumers_gated: "gated supportsManualAck ''S9 competing consumers'' competingConsumers e"
  by (rule gatedI) (auto simp: judges_def competingConsumers_def  Let_def intro!: yields_intros declines_clock)

lemma idempotentConsumer_gated: "gated supportsManualAck ''S10 idempotent consumer'' idempotentConsumer e"
  by (rule gatedI) (auto simp: judges_def idempotentConsumer_def s10_plain_def s10_with_store_def s10_store_down_def Let_def intro!: yields_intros declines_clock)

lemma retryQueueScenario_gated: "gated supportsDeadLetter ''S11 retry queue'' retryQueueScenario e"
  by (rule gatedI) (auto simp: judges_def retryQueueScenario_def  Let_def intro!: yields_intros declines_clock)

lemma messageGroups_gated: "gated (\<lambda>c. supportsManualAck c \<and> supportsMessageGroups c \<noteq> Some False) ''S12 message groups'' messageGroups e"
  by (rule gatedI) (auto simp: judges_def messageGroups_def  Let_def intro!: yields_intros declines_clock)

lemma brokerNativeDedup_gated: "gated supportsDedup ''S13 broker-native dedup'' brokerNativeDedup e"
  by (rule gatedI) (auto simp: judges_def brokerNativeDedup_def  Let_def intro!: yields_intros declines_clock)

lemma priorityScenario_gated: "gated (\<lambda>_. True) ''S14 priority'' priorityScenario e"
  by (rule gatedI) (auto simp: judges_def priorityScenario_def  Let_def intro!: yields_intros declines_clock)

lemma requestReply_gated: "gated (\<lambda>_. True) ''S15 request/reply'' requestReply e"
  by (rule gatedI) (auto simp: judges_def requestReply_def  Let_def intro!: yields_intros declines_clock)

lemma ttlExpiry_gated: "gated (\<lambda>_. True) (''S16 TTL '' @ arrow @ '' expiry'') ttlExpiry e"
  by (rule gatedI) (auto simp: judges_def ttlExpiry_def  Let_def intro!: yields_intros declines_clock)

lemma durableSubscription_gated: "gated (\<lambda>_. True) ''S17 durable subscription'' durableSubscription e"
  by (rule gatedI) (auto simp: judges_def durableSubscription_def  Let_def intro!: yields_intros declines_clock)

lemma singleActiveConsumer_gated: "gated supportsManualAck ''S18 single active consumer'' singleActiveConsumer e"
  by (rule gatedI) (auto simp: judges_def singleActiveConsumer_def  Let_def intro!: yields_intros declines_clock)

lemma streamReplay_gated: "gated supportsStreamReplay ''S19 stream replay'' streamReplay e"
  by (rule gatedI) (auto simp: judges_def streamReplay_def  Let_def intro!: yields_intros declines_clock)

lemma handlerFaultIsolation_gated: "gated supportsManualAck ''S20 handler fault isolation'' handlerFaultIsolation e"
  by (rule gatedI) (auto simp: judges_def handlerFaultIsolation_def  Let_def intro!: yields_intros declines_clock)

section \<open>The scheduling scenarios\<close>

lemma immediateDelivery_judges: "judges ''S1 immediate send/receive'' (immediateDelivery e)"
  unfolding judges_def immediateDelivery_def Let_def by (auto intro!: yields_intros)

lemma scheduledDelivery_judges: "judges ''S2 scheduled delivery'' (scheduledDelivery e)"
  unfolding judges_def scheduledDelivery_def Let_def by (auto intro!: yields_intros)

text \<open>A port keeps the contract of the scheduler port.\<close>

definition cancel_view :: "('w, 'sub) Adapter \<Rightarrow> ScheduleHandle \<Rightarrow> 'w \<Rightarrow> js_error + 'w" where
  "cancel_view port h w = (case ad_cancel port h w of (Inl err, _) \<Rightarrow> Inl err | (Inr _, w') \<Rightarrow> Inr w')"

definition list_view :: "('w, 'sub) Adapter \<Rightarrow> destination \<Rightarrow> 'w \<Rightarrow> js_error + ScheduledInfo list" where
  "list_view port d w = (case fst (ad_listScheduled port d w) of Inl err \<Rightarrow> Inl err | Inr r \<Rightarrow> list_of r)"

definition port_contract :: "('w, 'sub) Adapter \<Rightarrow> bool" where
  "port_contract port \<longleftrightarrow> scheduler_port (ad_capabilities port) (cancel_view port) (list_view port)"

lemma contract_cancel:
  assumes "port_contract port" and "ad_cancel port h w = (Inl err, w')"
  shows "is_NotSupported err \<longleftrightarrow> \<not> cap_supportsCancel (ad_capabilities port)"
  using scheduler_port.cancel_verdict [OF assms(1) [unfolded port_contract_def], of h w] assms(2)
  by (auto simp: cancel_view_def attempt_of_def split: if_splits)

lemma contract_cancel_done:
  assumes "port_contract port" and "ad_cancel port h w = (Inr r, w')"
  shows "cap_supportsCancel (ad_capabilities port)"
  using scheduler_port.cancel_verdict [OF assms(1) [unfolded port_contract_def], of h w] assms(2)
  by (auto simp: cancel_view_def attempt_of_def)

lemma contract_list:
  assumes "port_contract port" and "list_view port d w = r"
  shows "(\<exists>err. r = Inl err \<and> is_NotSupported err) \<longleftrightarrow> \<not> cap_supportsList (ad_capabilities port)"
  using scheduler_port.list_verdict [OF assms(1) [unfolded port_contract_def], of d w] assms(2)
  by (auto simp: attempt_of_def split: sum.splits if_splits)

text \<open>What an attempt at an optional operation may give on a port that keeps the contract.\<close>

definition honest :: "bool \<Rightarrow> js_error + 'a \<Rightarrow> bool" where
  "honest cap r \<longleftrightarrow> ((\<exists>err. r = Inl err \<and> is_NotSupported err) \<longleftrightarrow> \<not> cap)"

lemma yields_attempt: "(\<And>s. Q (fst (p s))) \<Longrightarrow> yields Q (attempt p)"
  by (simp add: yields_def attempt_def split_def)

lemma attempt_cancel:
  assumes "port_contract (en_port e)"
  shows "yields (honest (cap_supportsCancel (ad_capabilities (en_port e)))) (attempt (do_cancel e h))"
proof (rule yields_attempt)
  fix s :: "'a \<times> Locals"
  obtain w l where s: "s = (w, l)" by (cases s)
  obtain r w' where c: "ad_cancel (en_port e) h w = (r, w')" by (meson surj_pair)
  show "honest (cap_supportsCancel (ad_capabilities (en_port e))) (fst (do_cancel e h s))"
  proof (cases r)
    case (Inl err)
    with c contract_cancel [OF assms, of h w err w'] show ?thesis
      by (simp add: honest_def do_cancel_def port_call_def await_op_def and_then_def s)
  next
    case (Inr x)
    with c contract_cancel_done [OF assms, of h w x w'] show ?thesis
      by (cases x) (simp_all add: honest_def do_cancel_def port_call_def await_op_def and_then_def s ill_typed_def)
  qed
qed

lemma attempt_list:
  assumes "port_contract (en_port e)"
  shows "yields (honest (cap_supportsList (ad_capabilities (en_port e)))) (attempt (do_listScheduled e d))"
proof (rule yields_attempt)
  fix s :: "'a \<times> Locals"
  obtain w l where s: "s = (w, l)" by (cases s)
  have "fst (do_listScheduled e d s) = list_view (en_port e) d w"
    by (auto simp: list_view_def do_listScheduled_def port_call_def await_op_def and_then_def s split: prod.splits sum.splits)
  with contract_list [OF assms refl, of d w] show "honest (cap_supportsList (ad_capabilities (en_port e))) (fst (do_listScheduled e d s))"
    by (simp add: honest_def)
qed

lemma yields_unsupported [yields_intros]: "StatusUnsupported \<in> S \<Longrightarrow> yields (reports n S) (sc_unsupported e n d t0)"
  by (simp add: yields_def sc_unsupported_def verdict_def and_then_def clock_def gives_def reports_def split_def)

definition statuses :: "bool \<Rightarrow> ScenarioStatus set" where
  "statuses cap = (if cap then {StatusPass, StatusFail} else {StatusUnsupported})"

lemma yields_honest:
  fixes f :: "'a \<Rightarrow> ('w, ScenarioResult) prog"
  assumes "yields (honest cap) m" and "\<And>x. cap \<Longrightarrow> yields (reports name (statuses cap)) (f x)"
  shows "yields (reports name (statuses cap)) (and_then m (\<lambda>r. case r of
    Inl err \<Rightarrow> if is_NotSupported err then sc_unsupported e name d t0 else raise err | Inr x \<Rightarrow> f x))"
proof (rule yields_bound [OF assms(1)])
  fix r :: "js_error + 'a"
  assume "honest cap r"
  then show "yields (reports name (statuses cap)) (case r of
      Inl err \<Rightarrow> if is_NotSupported err then sc_unsupported e name d t0 else raise err | Inr x \<Rightarrow> f x)"
  proof (cases r)
    case (Inr x)
    with \<open>honest cap r\<close> have "cap" by (simp add: honest_def)
    with Inr assms(2) [of x] show ?thesis by simp
  qed (auto simp: honest_def statuses_def intro!: yields_unsupported yields_raise)
qed

lemma cancelScheduled_honest:
  assumes "port_contract (en_port e)"
  shows "yields (reports ''S3 cancel scheduled'' (statuses (cap_supportsCancel (ad_capabilities (en_port e))))) (cancelScheduled e)"
  unfolding cancelScheduled_def Let_def
  by (intro yields_and_then yields_finally yields_honest attempt_cancel [OF assms])
    (auto intro!: yields_intros simp: statuses_def)

lemma listPending_honest:
  assumes "port_contract (en_port e)"
  shows "yields (reports ''S4 list pending'' (statuses (cap_supportsList (ad_capabilities (en_port e))))) (listPending e)"
  unfolding listPending_def Let_def
  by (intro yields_and_then yields_finally yields_honest attempt_list [OF assms])
    (auto intro!: yields_intros simp: statuses_def)

section \<open>The adapters keep the contract\<close>

lemma memory_contract: "port_contract (memory_adapter :: (InMemoryScheduler, nat \<times> handler) Adapter)"
proof -
  have "cancel_view memory_adapter = (\<lambda>h s. Inr (cancel h s))"
    and "list_view memory_adapter = (\<lambda>d s. Inr (listScheduled d s))"
    by (auto simp: cancel_view_def list_view_def memory_adapter_def returns_def fun_eq_iff)
  with memory_port.scheduler_port_axioms show ?thesis
    by (simp add: port_contract_def memory_adapter_def)
qed

lemma rabbit_contract: "port_contract (rabbit_adapter rand)"
proof -
  have "cancel_view (rabbit_adapter rand) = (\<lambda>h s. case rb_cancel h s of (Inl e, _) \<Rightarrow> Inl e | (Inr (), s') \<Rightarrow> Inr s')"
    and "list_view (rabbit_adapter rand) = (\<lambda>d s. fst (rb_listScheduled d s))"
    by (simp_all add: cancel_view_def list_view_def rabbit_adapter_def lift_result_def rb_cancel_def rb_listScheduled_def
        fun_eq_iff)
  with rabbit_port.scheduler_port_axioms show ?thesis
    by (simp add: port_contract_def rabbit_adapter_def)
qed

lemma kafka_contract: "port_contract (kafka_adapter rand)"
proof -
  have "cancel_view (kafka_adapter rand) = (\<lambda>h s. case kf_cancel h s of (Inl e, _) \<Rightarrow> Inl e | (Inr (), s') \<Rightarrow> Inr s')"
    and "list_view (kafka_adapter rand) = (\<lambda>d s. fst (kf_listScheduled d s))"
    by (simp_all add: cancel_view_def list_view_def kafka_adapter_def kf_result_def kf_cancel_def kf_listScheduled_def
        fun_eq_iff)
  with kafka_port.scheduler_port_axioms show ?thesis
    by (simp add: port_contract_def kafka_adapter_def)
qed

lemma artemis_contract: "port_contract (artemis_adapter rand http)"
  unfolding port_contract_def
proof (unfold_locales, goal_cases)
  case (2 h s e)
  then show ?case
    using art_cancel_error [of http h] unfolding never_unsupported_def
    by (cases s) (auto simp: cancel_view_def artemis_adapter_def on_endpoint_def split: prod.splits sum.splits)
next
  case (4 d s e)
  then show ?case
    using art_listScheduled_error [of http d] unfolding never_unsupported_def
    by (cases s) (auto simp: list_view_def artemis_adapter_def on_endpoint_def split: prod.splits sum.splits)
qed (simp_all add: artemis_adapter_def artemis_capabilities_def)

section \<open>The suite\<close>

text \<open>On any adapter that keeps the contract of the scheduler port, S3 and S4 are honest: they report
\<open>unsupported\<close> only when the capability is not declared, and without it they never report a pass.\<close>

theorem scheduling_verdicts_honest:
  assumes "port_contract (en_port e)"
  shows "(sr_status (fst (runOne e (''S3 cancel scheduled'', cancelScheduled) s)) = StatusUnsupported \<longrightarrow>
      \<not> cap_supportsCancel (ad_capabilities (en_port e))) \<and>
    (sr_status (fst (runOne e (''S3 cancel scheduled'', cancelScheduled) s)) = StatusPass \<longrightarrow>
      cap_supportsCancel (ad_capabilities (en_port e))) \<and>
    (sr_status (fst (runOne e (''S4 list pending'', listPending) s)) = StatusUnsupported \<longrightarrow>
      \<not> cap_supportsList (ad_capabilities (en_port e))) \<and>
    (sr_status (fst (runOne e (''S4 list pending'', listPending) s)) = StatusPass \<longrightarrow>
      cap_supportsList (ad_capabilities (en_port e)))"
  using yields_at [OF cancelScheduled_honest [OF assms], of s] yields_at [OF listPending_honest [OF assms], of s]
  by (auto simp: runOne_def failResult_def reports_def statuses_def split: prod.splits sum.splits if_splits)

definition idle_env :: "('w, 'sub) Adapter \<Rightarrow> ('w, 'sub) Env" where
  "idle_env port = \<lparr>en_port = port, en_now = (\<lambda>_. 0), en_elapse = (\<lambda>_ s. s), en_stopConsume = (\<lambda>_ w. (Inr (), w)),
     en_stopSubscribe = (\<lambda>_ w. (Inr (), w)), en_random = show_nat\<rparr>"

theorem scheduling_verdicts_honest_witness:
  "sr_status (fst (runOne (idle_env (rabbit_adapter show_nat)) (''S3 cancel scheduled'', cancelScheduled)
     (rabbit_init (rabbitConfigFromEnv Map.empty), no_locals))) \<noteq> StatusPass"
  using scheduling_verdicts_honest [of "idle_env (rabbit_adapter show_nat)" "(rabbit_init (rabbitConfigFromEnv Map.empty), no_locals)"]
    rabbit_contract [of show_nat]
  by (auto simp: idle_env_def rabbit_adapter_def rabbit_capabilities_def)

definition bus_gates :: "(BusCapabilities \<Rightarrow> bool) list" where
  "bus_gates = [supportsTopic, supportsFanout, supportsManualAck, supportsDeadLetter, supportsManualAck,
     supportsManualAck, supportsDeadLetter, (\<lambda>c. supportsManualAck c \<and> supportsMessageGroups c \<noteq> Some False),
     supportsDedup, (\<lambda>_. True), (\<lambda>_. True), (\<lambda>_. True), (\<lambda>_. True), supportsManualAck, supportsStreamReplay,
     supportsManualAck]"

lemmas bus_gated = pubSub_gated fanout_gated explicitAck_gated poisonDlq_gated competingConsumers_gated
  idempotentConsumer_gated retryQueueScenario_gated messageGroups_gated brokerNativeDedup_gated
  priorityScenario_gated requestReply_gated ttlExpiry_gated durableSubscription_gated singleActiveConsumer_gated
  streamReplay_gated handlerFaultIsolation_gated

lemma all_bus_gated: "list_all2 (\<lambda>(name, scenario) gate. gated gate name scenario e) ALL_BUS_SCENARIOS bus_gates"
  using bus_gated [of e] by (simp add: ALL_BUS_SCENARIOS_def bus_gates_def)

lemma gated_runOne:
  assumes "gated gate name scenario e"
  shows "sr_name (fst (runOne e (name, scenario) s)) = name"
    and "sr_status (fst (runOne e (name, scenario) s)) = StatusUnsupported \<longleftrightarrow> \<not> gate (ad_busCapabilities (en_port e))"
    and "sr_status (fst (runOne e (name, scenario) s)) \<noteq> StatusSkipped"
    and "\<not> gate (ad_busCapabilities (en_port e)) \<Longrightarrow> snd (runOne e (name, scenario) s) = s"
proof -
  have *: "gate (ad_busCapabilities (en_port e)) \<Longrightarrow> pred_sum (\<lambda>_. True) (reports name {StatusPass, StatusFail}) (fst (scenario e s))"
    using assms by (simp add: gated_def judges_def yields_at)
  have **: "\<exists>d. gate (ad_busCapabilities (en_port e)) \<or> scenario e s =
      (Inr \<lparr>sr_name = name, sr_status = StatusUnsupported, sr_detail = d, sr_durationMs = 0\<rparr>, s)"
    using assms by (cases "gate (ad_busCapabilities (en_port e))"; cases s) (simp_all add: gated_def declines_def)
  show "sr_name (fst (runOne e (name, scenario) s)) = name"
    and "sr_status (fst (runOne e (name, scenario) s)) = StatusUnsupported \<longleftrightarrow> \<not> gate (ad_busCapabilities (en_port e))"
    and "sr_status (fst (runOne e (name, scenario) s)) \<noteq> StatusSkipped"
    and "\<not> gate (ad_busCapabilities (en_port e)) \<Longrightarrow> snd (runOne e (name, scenario) s) = s"
    using * ** by (auto simp: runOne_def failResult_def reports_def split: prod.splits sum.splits)
qed

text \<open>C31. The verdict of a bus scenario follows the declared capabilities, on every adapter and in every state: it is
\<open>unsupported\<close> exactly when the capability the scenario needs is not declared, and then no port operation is
called; otherwise it is a pass or a failure, also when the scenario throws.\<close>

theorem bus_verdicts_follow_capabilities:
  "list_all2 (\<lambda>scenario gate.
     (sr_status (fst (runOne e scenario s)) = StatusUnsupported) = (\<not> gate (ad_busCapabilities (en_port e))) \<and>
     sr_status (fst (runOne e scenario s)) \<noteq> StatusSkipped \<and>
     (gate (ad_busCapabilities (en_port e)) \<or> snd (runOne e scenario s) = s)) ALL_BUS_SCENARIOS bus_gates"
  using all_bus_gated [of e]
  by (rule list_all2_mono) (auto simp: gated_runOne(2,3) dest: gated_runOne(4))

lemma run_each_names:
  "(\<And>x s. x \<in> set xs \<Longrightarrow> sr_name (fst (f x s)) = g x) \<Longrightarrow> map sr_name (fst (run_each f xs s)) = map g xs"
proof (induction xs arbitrary: s)
  case (Cons x xs)
  from Cons.prems [of x s] Cons.IH Cons.prems show ?case by (auto simp: split_def)
qed simp

lemma bus_scenario_gated: "scenario \<in> set ALL_BUS_SCENARIOS \<Longrightarrow> \<exists>gate. gated gate (fst scenario) (snd scenario) e"
  using all_bus_gated [of e] by (auto simp: list_all2_conv_all_nth in_set_conv_nth split_def)

lemma runOne_name: "yields (reports name S) (scenario e) \<Longrightarrow> sr_name (fst (runOne e (name, scenario) s)) = name"
  using yields_at [of "reports name S" "scenario e" s]
  by (auto simp: runOne_def failResult_def reports_def split: prod.splits sum.splits)

lemma scheduling_names:
  "x \<in> set ALL_SCENARIOS \<Longrightarrow> sr_name (fst (runOne e x s)) = fst x"
proof -
  have "yields (reports ''S3 cancel scheduled'' UNIV) (cancelScheduled e)"
    and "yields (reports ''S4 list pending'' UNIV) (listPending e)"
    unfolding cancelScheduled_def listPending_def Let_def by (auto intro!: yields_intros)
  note names = runOne_name [of _ UNIV cancelScheduled e, OF this(1)] runOne_name [of _ UNIV listPending e, OF this(2)]
    runOne_name [of _ "{StatusPass, StatusFail}" immediateDelivery e, OF immediateDelivery_judges [unfolded judges_def]]
    runOne_name [of _ "{StatusPass, StatusFail}" scheduledDelivery e, OF scheduledDelivery_judges [unfolded judges_def]]
  show "x \<in> set ALL_SCENARIOS \<Longrightarrow> sr_name (fst (runOne e x s)) = fst x"
    by (auto simp: ALL_SCENARIOS_def names)
qed

text \<open>C30. The runner reports every scenario exactly once, in the order of the suite and under its own name, whatever
the adapter does or throws, also when the bus cannot be connected or does not exist.\<close>

theorem suite_reports_every_scenario:
  "map sr_name (rr_results (fst (runSuite (e :: ('w, 'sub) Env) s))) =
    map fst (ALL_SCENARIOS :: ('w, 'sub) scenario list) @ map fst (ALL_BUS_SCENARIOS :: ('w, 'sub) scenario list)"
proof -
  have sched: "map sr_name (fst (run_each (runOne e) ALL_SCENARIOS s)) = map fst (ALL_SCENARIOS :: ('w, 'sub) scenario list)" for s
    by (rule run_each_names) (auto intro: scheduling_names)
  have bus: "map sr_name (fst (run_each (runOne e) ALL_BUS_SCENARIOS s)) = map fst (ALL_BUS_SCENARIOS :: ('w, 'sub) scenario list)" for s
  proof (rule run_each_names)
    fix x :: "('w, 'sub) scenario" and s
    assume "x \<in> set ALL_BUS_SCENARIOS"
    then show "sr_name (fst (runOne e x s)) = fst x"
      using bus_scenario_gated [of x e] gated_runOne(1) [of _ "fst x" "snd x" e s] by auto
  qed
  have "map sr_name (fst (runBus e s)) = map fst (ALL_BUS_SCENARIOS :: ('w, 'sub) scenario list)" for s
    using bus by (auto simp: runBus_def naResult_def failResult_def split_def split: sum.splits)
  with sched show ?thesis by (simp add: runSuite_def split_def)
qed

section \<open>The exit code\<close>

lemma exit_code_0: "exit_code rs = 0 \<longleftrightarrow> (\<forall>rep \<in> set rs. countBy rep StatusFail = 0)"
  by (auto simp: exit_code_def countBy_def list_ex_iff filter_empty_conv)

lemma run_brokers_ok:
  "(\<forall>b \<in> set bs. \<not> isl (fst (against b))) \<Longrightarrow> run_brokers against bs =
     (Inr (concat (map (\<lambda>b. case projr (fst (against b)) of None \<Rightarrow> [] | Some rep \<Rightarrow> [rep]) bs)),
      concat (map (\<lambda>b. snd (against b)) bs))"
proof (induction bs)
  case (Cons b bs)
  obtain x out where "against b = (Inr x, out)"
    using Cons.prems by (cases "against b"; cases "fst (against b)") auto
  with Cons show ?case by (simp split: option.split)
qed simp

lemma run_brokers_throws: "b \<in> set bs \<Longrightarrow> isl (fst (against b)) \<Longrightarrow> isl (fst (run_brokers against bs))"
proof (induction bs)
  case (Cons a bs)
  show ?case
  proof (cases "isl (fst (against a))")
    case True
    then show ?thesis by (auto simp: isl_def split: prod.split)
  next
    case False
    with Cons have "isl (fst (run_brokers against bs))" by auto
    with False show ?thesis by (auto simp: isl_def split: prod.split sum.split)
  qed
qed simp

text \<open>The command succeeds exactly if the broker is known, no run threw, and no report of a broker that could be reached
counts a failure; scenarios that are unsupported do not count.\<close>

theorem main_succeeds_iff:
  "fst (main_run against arg) = 0 \<longleftrightarrow>
     (\<exists>brokers. main_brokers (main_arg arg) = Some brokers \<and>
        (\<forall>b \<in> set brokers. \<exists>report. fst (against b) = Inr report \<and> (\<forall>rep. report = Some rep \<longrightarrow> countBy rep StatusFail = 0)))"
proof (cases "main_brokers (main_arg arg)")
  case None
  then show ?thesis by (simp add: main_run_def Let_def)
next
  case (Some brokers)
  show ?thesis
  proof (cases "\<forall>b \<in> set brokers. \<not> isl (fst (against b))")
    case True
    have ok: "(case projr (fst (against b)) of None \<Rightarrow> True | Some rep \<Rightarrow> countBy rep StatusFail = 0) \<longleftrightarrow>
        (\<exists>report. fst (against b) = Inr report \<and> (\<forall>rep. report = Some rep \<longrightarrow> countBy rep StatusFail = 0))"
      if "b \<in> set brokers" for b
      using True that by (cases "fst (against b)") (auto split: option.split)
    have "fst (main_run against arg) = 0 \<longleftrightarrow>
        (\<forall>b \<in> set brokers. case projr (fst (against b)) of None \<Rightarrow> True | Some rep \<Rightarrow> countBy rep StatusFail = 0)"
      using Some run_brokers_ok [OF True] by (auto simp: main_run_def Let_def exit_code_0 split: option.splits)
    with Some ok show ?thesis by simp
  next
    case False
    then have "isl (fst (run_brokers against brokers))" using run_brokers_throws by metis
    with False Some show ?thesis by (auto simp: main_run_def Let_def isl_def split: prod.splits)
  qed
qed

end
