(* ===== verification/Conformance.thy ===== *)
theory Conformance
  imports Runner Event_Loop
begin

text \<open>
  What the suite says of an adapter: the oracle of the message-group scenario decides its specification, waiting
  ends, the event loop does not depend on its bound, and scenarios that pass on the in-process adapter.
\<close>

section \<open>The oracle of S12\<close>

definition seqs_of :: "string \<Rightarrow> (string \<times> int) list \<Rightarrow> int list" where
  "seqs_of g es = map snd (filter (\<lambda>(g', n). g' = g) es)"

lemma seqs_of_simps [simp]:
  "seqs_of g [] = []"
  "seqs_of g ((g', n) # es) = (if g' = g then n # seqs_of g es else seqs_of g es)"
  "seqs_of g (es @ fs) = seqs_of g es @ seqs_of g fs"
  by (simp_all add: seqs_of_def)

lemma seqs_of_empty_iff: "seqs_of g es = [] \<longleftrightarrow> g \<notin> fst ` set es"
  by (force simp: seqs_of_def filter_empty_conv)

lemma in_perGroupSeqs: "(g, ns) \<in> set (perGroupSeqs es) \<longleftrightarrow> ns = seqs_of g es \<and> ns \<noteq> []"
  by (simp add: perGroupSeqs_def in_group_into seqs_of_def split_def)

lemma increasing_sorted: "increasing ns \<longleftrightarrow> sorted_wrt (<) ns"
  by (induction ns rule: increasing.induct) (auto intro: less_trans)

lemma order_fault_None: "order_fault i ess = None \<longleftrightarrow> (\<forall>es \<in> set ess. \<forall>g. sorted_wrt (<) (seqs_of g es))"
proof (induction ess arbitrary: i)
  case (Cons es ess)
  have "find (\<lambda>(g, seqs). \<not> increasing seqs) (perGroupSeqs es) = None \<longleftrightarrow> (\<forall>g. sorted_wrt (<) (seqs_of g es))"
    unfolding find_None_iff
  proof (safe, goal_cases)
    case (1 g)
    then show ?case
      by (cases "seqs_of g es = []") (auto simp: in_perGroupSeqs increasing_sorted)
  qed (auto simp: in_perGroupSeqs increasing_sorted)
  with Cons.IH [of "Suc i"] show ?case by (auto split: option.splits)
qed simp

definition pinned :: "string \<Rightarrow> (string \<times> int) list list \<Rightarrow> bool" where
  "pinned g ess \<longleftrightarrow> (\<exists>i < length ess. ownersOf g ess = [i] \<and> length (seqs_of g (ess ! i)) = PER_GROUP)"

lemma pin_fault_None: "pin_fault ess gs = None \<longleftrightarrow> (\<forall>g \<in> set gs. pinned g ess)"
proof (induction gs)
  case (Cons g gs)
  have "i < length ess" if "ownersOf g ess = [i]" for i
  proof -
    from that have "i \<in> set (ownersOf g ess)" by simp
    then show ?thesis by (simp add: ownersOf_def)
  qed
  with Cons show ?case
    by (auto simp: pinned_def seqs_of_def Let_def split: list.splits)
qed simp

lemma ownersOf_single:
  assumes "ownersOf g ess = [i]" and "j < length ess" and "j \<noteq> i"
  shows "seqs_of g (ess ! j) = []"
proof -
  from assms have "j \<notin> set (ownersOf g ess)" by simp
  with assms(2) show ?thesis by (simp add: ownersOf_def seqs_of_empty_iff)
qed

lemma sorted_run:
  assumes "sorted_wrt (<) ns" and "length ns = n" and "set ns \<subseteq> {0 ..< int n}"
  shows "ns = map int [0 ..< n]"
proof (rule sorted_distinct_set_unique)
  have d: "distinct ns" using assms(1) by (simp add: strict_sorted_iff)
  show "sorted ns" "distinct ns" using assms(1) d by (simp_all add: strict_sorted_iff)
  show "sorted (map int [0 ..< n])" "distinct (map int [0 ..< n])"
    by (simp_all add: sorted_map distinct_map sorted_wrt_upt)
  have "card (set ns) = n" using d assms(2) by (simp add: distinct_card)
  with assms(3) have "set ns = {0 ..< int n}" by (intro card_subset_eq) auto
  then show "set ns = set (map int [0 ..< n])" by (simp add: image_int_atLeastLessThan)
qed

text \<open>When S12 finds no fault in what the consumers saw, every group was delivered completely and in order to
exactly one consumer, the others having seen nothing of it, provided that the sequence numbers are the published ones.\<close>

theorem message_groups_oracle_sound:
  assumes "groups_fault ess = None" and "g \<in> set GROUPS"
    and "\<And>es n. es \<in> set ess \<Longrightarrow> (g, n) \<in> set es \<Longrightarrow> 0 \<le> n \<and> n < int PER_GROUP"
  shows "\<exists>i < length ess. seqs_of g (ess ! i) = map int [0 ..< PER_GROUP] \<and>
    (\<forall>j < length ess. j \<noteq> i \<longrightarrow> seqs_of g (ess ! j) = [])"
proof -
  from assms(1) have ord: "order_fault 0 ess = None" and pin: "pin_fault ess GROUPS = None"
    by (simp_all add: groups_fault_def split: option.splits)
  from pin assms(2) obtain i where i: "i < length ess" "ownersOf g ess = [i]" "length (seqs_of g (ess ! i)) = PER_GROUP"
    by (auto simp: pin_fault_None pinned_def)
  from ord i(1) have "sorted_wrt (<) (seqs_of g (ess ! i))" by (simp add: order_fault_None)
  moreover have "set (seqs_of g (ess ! i)) \<subseteq> {0 ..< int PER_GROUP}"
    using assms(3) [of "ess ! i"] i(1) by (auto simp: seqs_of_def)
  ultimately have "seqs_of g (ess ! i) = map int [0 ..< PER_GROUP]" using i(3) by (intro sorted_run)
  with i ownersOf_single [OF i(2)] show ?thesis by blast
qed

definition s12_observed :: "(string \<times> int) list list" where
  "s12_observed = [concat (map (\<lambda>n. [(''a'', int n), (''c'', int n)]) [0 ..< 6]), map (\<lambda>n. (''b'', int n)) [0 ..< 6]]"

theorem message_groups_oracle_sound_witness:
  "\<exists>i < length s12_observed. seqs_of ''b'' (s12_observed ! i) = map int [0 ..< PER_GROUP]"
proof -
  have "groups_fault s12_observed = None" by code_simp
  moreover have "''b'' \<in> set GROUPS" by code_simp
  moreover have "es \<in> set s12_observed \<Longrightarrow> (''b'', n) \<in> set es \<Longrightarrow> 0 \<le> n \<and> n < int PER_GROUP" for es n
    by (auto simp: s12_observed_def PER_GROUP_def)
  ultimately show ?thesis using message_groups_oracle_sound [of s12_observed "''b''"] by blast
qed

section \<open>Waiting\<close>

text \<open>Once the polls reach the deadline, more polls change nothing.\<close>

lemma poll_enough:
  assumes "\<And>s. en_now e (fst s) + 50 \<le> en_now e (fst (en_elapse e 50 s))"
    and "deadline \<le> en_now e (fst s) + 50 * int n" and "n \<le> k"
  shows "poll e p deadline k s = poll e p deadline n s"
  using assms(2,3)
proof (induction n arbitrary: k s)
  case 0
  then show ?case by (simp add: poll.simps [of e p deadline])
next
  case (Suc n)
  then obtain k' where k: "k = Suc k'" by (cases k) auto
  have "deadline \<le> en_now e (fst (en_elapse e 50 s)) + 50 * int n"
    using Suc.prems(1) assms(1) [of s] by simp
  with Suc.IH [of "en_elapse e 50 s" k'] Suc.prems(2) show ?case
    unfolding k by (simp add: poll.simps [of e p deadline "Suc k'"] poll.simps [of e p deadline "Suc n"])
qed

lemma poll_result:
  assumes "\<And>s. en_now e (fst s) + 50 \<le> en_now e (fst (en_elapse e 50 s))"
    and "deadline \<le> en_now e (fst s) + 50 * int n" and "poll e p deadline n s = (ok, s')"
  shows "(ok \<longleftrightarrow> p (snd s')) \<and> (ok \<or> deadline \<le> en_now e (fst s'))"
  using assms(2,3)
proof (induction n arbitrary: s)
  case (Suc n)
  have "deadline \<le> en_now e (fst (en_elapse e 50 s)) + 50 * int n"
    using Suc.prems(1) assms(1) [of s] by simp
  with Suc.IH [of "en_elapse e 50 s"] Suc.prems(2) show ?case
    by (auto simp: poll.simps [of e p deadline "Suc n"] split: if_splits)
qed (auto simp: poll.simps [of e p deadline 0])

text \<open>C32. \<open>waitUntil\<close> ends, on every clock that a 50 ms delay moves by at least 50 ms: its loop takes at most
\<open>timeout / 50 + 1\<close> polls (any larger bound gives the same run), its answer is the predicate in the state it ends
in, and it answers false only at the deadline or later.\<close>

theorem waitUntil_ends:
  assumes "\<And>s. en_now e (fst s) + 50 \<le> en_now e (fst (en_elapse e 50 s))" and "0 \<le> timeoutMs"
    and "nat (timeoutMs div 50) + 1 \<le> k"
  shows "\<exists>ok s'. waitUntil e p timeoutMs s = (Inr ok, s') \<and> poll e p (en_now e (fst s) + timeoutMs) k s = (ok, s') \<and>
    (ok \<longleftrightarrow> p (snd s')) \<and> (ok \<or> en_now e (fst s) + timeoutMs \<le> en_now e (fst s'))"
proof -
  let ?n = "nat (timeoutMs div 50) + 1" and ?d = "en_now e (fst s) + timeoutMs"
  have n: "?d \<le> en_now e (fst s) + 50 * int ?n" using assms(2) by (simp add: nat_0_le) presburger
  obtain ok s' where p: "poll e p ?d ?n s = (ok, s')" by (meson surj_pair)
  then have "waitUntil e p timeoutMs s = (Inr ok, s')" by (simp add: waitUntil_def)
  moreover have "poll e p ?d k s = (ok, s')" using poll_enough [OF assms(1) n assms(3), of p] p by simp
  ultimately show ?thesis using poll_result [OF assms(1) n p] by blast
qed

definition clock_env :: "(int, unit) Env" where
  "clock_env = \<lparr>en_port = undefined, en_now = id, en_elapse = (\<lambda>ms (w, l). (w + ms, l)),
     en_stopConsume = (\<lambda>_ w. (Inr (), w)), en_stopSubscribe = (\<lambda>_ w. (Inr (), w)), en_random = show_nat\<rparr>"

theorem waitUntil_ends_witness:
  "\<exists>ok s'. waitUntil clock_env (\<lambda>l. lo_counter l = 1) 120 (0, no_locals) = (Inr ok, s') \<and>
     ok = (lo_counter (snd s') = 1) \<and> (ok \<or> 120 \<le> fst s')"
  using waitUntil_ends [of clock_env 120 7 "\<lambda>l. lo_counter l = 1" "(0, no_locals)"]
  by (auto simp: clock_env_def split_def)

section \<open>The event loop\<close>

text \<open>A run that ends within its bound does not depend on the bound.\<close>

lemma event_loop_fuel:
  "event_loop closures deadline n s = Some s' \<Longrightarrow> n \<le> m \<Longrightarrow> event_loop closures deadline m s = Some s'"
proof (induction n arbitrary: m s)
  case (Suc n)
  then obtain k where "m = Suc k" "n \<le> k" by (cases m) auto
  with Suc show ?case
    by (auto simp: event_loop.simps [of closures deadline "Suc n"] event_loop.simps [of closures deadline "Suc k"]
        split: option.splits prod.splits if_splits)
qed (simp add: event_loop.simps)

lemma set_clock_now: "lp_now (fst (set_clock t s)) = t"
  by (simp add: set_clock_def split_def lp_now_def on_sched_def)

lemma event_loop_clock: "event_loop closures deadline n s = Some s' \<Longrightarrow> lp_now (fst s') = deadline"
proof (induction n arbitrary: s)
  case (Suc n)
  then show ?case
    by (auto simp: event_loop.simps [of closures deadline "Suc n"] set_clock_now
        split: option.splits prod.splits if_splits)
qed (simp add: event_loop.simps)

section \<open>The in-process adapter\<close>

definition memory :: "(Loop, nat \<times> handler) Env" where
  "memory = memory_env scenario_closures (\<lambda>_. [])"

definition status_on_memory :: "(Loop, nat \<times> handler) scenario \<Rightarrow> ScenarioStatus" where
  "status_on_memory scenario = sr_status (fst (runOne memory scenario loop_init))"

lemma memory_immediate: "status_on_memory (''S1 immediate send/receive'', immediateDelivery) = StatusPass" by code_simp

lemma memory_scheduled: "status_on_memory (''S2 scheduled delivery'', scheduledDelivery) = StatusPass" by code_simp

lemma memory_cancel: "status_on_memory (''S3 cancel scheduled'', cancelScheduled) = StatusPass" by code_simp

lemma memory_list: "status_on_memory (''S4 list pending'', listPending) = StatusPass" by code_simp

lemma memory_pubsub: "status_on_memory (''S5 pub/sub (topic)'', pubSub) = StatusPass" by code_simp

lemma memory_fanout: "status_on_memory (''S6 fanout multicast'', fanout) = StatusPass" by code_simp

lemma memory_dedup: "status_on_memory (''S13 broker-native dedup'', brokerNativeDedup) = StatusPass" by code_simp

lemma memory_reply: "status_on_memory (''S15 request/reply'', requestReply) = StatusPass" by code_simp

lemma memory_ttl: "status_on_memory (''S16 TTL '' @ arrow @ '' expiry'', ttlExpiry) = StatusPass" by code_simp

text \<open>The in-process adapter passes the scenarios on immediate and scheduled sending, cancelling, listing,
topics, fan-out, deduplication, request and reply and expiry, run by the runner on the event loop.\<close>

theorem memory_conformance:
  "map status_on_memory
     [(''S1 immediate send/receive'', immediateDelivery), (''S2 scheduled delivery'', scheduledDelivery),
      (''S3 cancel scheduled'', cancelScheduled), (''S4 list pending'', listPending),
      (''S5 pub/sub (topic)'', pubSub), (''S6 fanout multicast'', fanout),
      (''S13 broker-native dedup'', brokerNativeDedup),
      (''S15 request/reply'', requestReply), (''S16 TTL '' @ arrow @ '' expiry'', ttlExpiry)] =
   replicate 9 StatusPass"
  by (simp only: list.map memory_immediate memory_scheduled memory_cancel memory_list memory_pubsub memory_fanout memory_dedup memory_reply memory_ttl) (simp add: numeral_eq_Suc)

end
