(* ===== verification/Json.thy ===== *)
theory Json
  imports Js_Value
begin

text \<open>
  \<open>JSON.stringify\<close> and \<open>JSON.parse\<close> on the values of \<open>Js_Value\<close>. Texts are in UTF-8; numbers are exact, without the
  rounding and the range of the platform's doubles; a lone surrogate is kept as its three bytes.
\<close>

section \<open>Stringify\<close>

definition hex_digit :: "nat \<Rightarrow> char" where
  "hex_digit d = (if d < 10 then char_of (48 + d) else char_of (87 + d))"

definition QUOTE :: char where "QUOTE = CHR 0x22"
definition BACKSLASH :: char where "BACKSLASH = CHR 0x5C"

definition escape_char :: "char \<Rightarrow> string" where
  "escape_char ch =
     (let n = (of_char ch :: nat)
      in if ch = QUOTE \<or> ch = BACKSLASH then [BACKSLASH, ch]
         else if n = 8 then [BACKSLASH, CHR ''b'']
         else if n = 9 then [BACKSLASH, CHR ''t'']
         else if n = 10 then [BACKSLASH, CHR ''n'']
         else if n = 12 then [BACKSLASH, CHR ''f'']
         else if n = 13 then [BACKSLASH, CHR ''r'']
         else if n < 32 then [BACKSLASH, CHR ''u'', CHR ''0'', CHR ''0'', hex_digit (n div 16), hex_digit (n mod 16)]
         else [ch])"

definition json_quote :: "string \<Rightarrow> string" where
  "json_quote s = QUOTE # concat (map escape_char s) @ [QUOTE]"

text \<open>A property that is \<open>undefined\<close> is left out; an \<open>undefined\<close> element of an array is \<open>null\<close>.\<close>

fun json_stringify :: "js_value \<Rightarrow> string"
  and json_elements :: "js_value list \<Rightarrow> string list"
  and json_members :: "(string \<times> js_value) list \<Rightarrow> string list" where
  "json_stringify Undef = ''null''"
| "json_stringify Null = ''null''"
| "json_stringify (JBool b) = (if b then ''true'' else ''false'')"
| "json_stringify (JNum n) = show_int n"
| "json_stringify (JReal s) = s"
| "json_stringify (JStr s) = json_quote s"
| "json_stringify (JArr vs) = ''['' @ comma_join (json_elements vs) @ '']''"
| "json_stringify (JObj ps) = ''{'' @ comma_join (json_members ps) @ ''}''"
| "json_elements [] = []"
| "json_elements (v # vs) = json_stringify v # json_elements vs"
| "json_members [] = []"
| "json_members ((k, v) # ps) =
     (if v = Undef then json_members ps
      else (json_quote k @ '':'' @ json_stringify v) # json_members ps)"

section \<open>Parse\<close>

definition is_ws :: "char \<Rightarrow> bool" where
  "is_ws ch \<longleftrightarrow> ch \<in> {CHR '' '', CHR 0x09, CHR 0x0A, CHR 0x0D}"

definition skip_ws :: "string \<Rightarrow> string" where
  "skip_ws = dropWhile is_ws"

definition is_digit :: "char \<Rightarrow> bool" where
  "is_digit ch \<longleftrightarrow> (48 \<le> (of_char ch :: nat) \<and> (of_char ch :: nat) \<le> 57)"

definition hex_value :: "char \<Rightarrow> nat option" where
  "hex_value ch =
     (let n = (of_char ch :: nat)
      in if is_digit ch then Some (n - 48)
         else if 97 \<le> n \<and> n \<le> 102 then Some (n - 87)
         else if 65 \<le> n \<and> n \<le> 70 then Some (n - 55)
         else None)"

definition hex4 :: "char \<Rightarrow> char \<Rightarrow> char \<Rightarrow> char \<Rightarrow> nat option" where
  "hex4 a b c d =
     (case (hex_value a, hex_value b, hex_value c, hex_value d) of
        (Some w, Some x, Some y, Some z) \<Rightarrow> Some (((w * 16 + x) * 16 + y) * 16 + z)
      | _ \<Rightarrow> None)"

definition utf8 :: "nat \<Rightarrow> string" where
  "utf8 n =
     (if n < 128 then [char_of n]
      else if n < 2048 then [char_of (192 + n div 64), char_of (128 + n mod 64)]
      else if n < 65536 then [char_of (224 + n div 4096), char_of (128 + n div 64 mod 64), char_of (128 + n mod 64)]
      else [char_of (240 + n div 262144), char_of (128 + n div 4096 mod 64), char_of (128 + n div 64 mod 64),
            char_of (128 + n mod 64)])"

definition simple_escape :: "char \<Rightarrow> char option" where
  "simple_escape e =
     (if e = QUOTE \<or> e = BACKSLASH \<or> e = CHR ''/'' then Some e
      else if e = CHR ''b'' then Some (CHR 0x08)
      else if e = CHR ''f'' then Some (CHR 0x0C)
      else if e = CHR ''n'' then Some (CHR 0x0A)
      else if e = CHR ''r'' then Some (CHR 0x0D)
      else if e = CHR ''t'' then Some (CHR 0x09)
      else None)"

text \<open>The code unit of a \<open>\u\<close> escape whose backslash has been read, and what follows it.\<close>

fun unit_escape :: "string \<Rightarrow> (nat \<times> string) option" where
  "unit_escape (u # a # b # c # d # r) =
     (if u = CHR ''u'' then map_option (\<lambda>n. (n, r)) (hex4 a b c d) else None)"
| "unit_escape _ = None"

text \<open>The character of an escape: two escaped surrogates make one.\<close>

definition read_escape :: "string \<Rightarrow> (string \<times> string) option" where
  "read_escape r =
     (case unit_escape r of
        Some (hi, r1) \<Rightarrow>
          (case (if 55296 \<le> hi \<and> hi < 56320 \<and> r1 \<noteq> [] \<and> hd r1 = BACKSLASH then unit_escape (tl r1) else None) of
             Some (lo, r2) \<Rightarrow>
               if 56320 \<le> lo \<and> lo < 57344 then Some (utf8 (65536 + (hi - 55296) * 1024 + (lo - 56320)), r2)
               else Some (utf8 hi, r1)
           | None \<Rightarrow> Some (utf8 hi, r1))
      | None \<Rightarrow>
          (case r of
             [] \<Rightarrow> None
           | e # r1 \<Rightarrow> map_option (\<lambda>ch. ([ch], r1)) (simple_escape e)))"

lemma unit_escape_shorter: "unit_escape r = Some (n, r1) \<Longrightarrow> length r1 < length r"
  by (induction r rule: unit_escape.induct) (auto split: if_splits)

lemma escape_shorter: "read_escape r = Some (s, r1) \<Longrightarrow> length r1 < length r"
proof -
  assume e: "read_escape r = Some (s, r1)"
  show "length r1 < length r"
  proof (cases "unit_escape r")
    case None
    with e show ?thesis by (auto simp: read_escape_def split: list.splits)
  next
    case (Some p)
    obtain hi r2 where p: "p = (hi, r2)" by (cases p)
    with Some have "length r2 < length r" by (simp add: unit_escape_shorter)
    with e Some p show ?thesis
      by (cases r2) (auto simp: read_escape_def dest!: unit_escape_shorter split: if_splits option.splits)
  qed
qed

text \<open>The characters of a string whose opening quote has been read, and what follows its closing quote.\<close>

function parse_string :: "string \<Rightarrow> (string \<times> string) option" where
  "parse_string [] = None"
| "parse_string (ch # r) =
     (if ch = QUOTE then Some ([], r)
      else if ch = BACKSLASH then
        (case read_escape r of
           None \<Rightarrow> None
         | Some (s, r1) \<Rightarrow> map_option (\<lambda>(t, r2). (s @ t, r2)) (parse_string r1))
      else if (of_char ch :: nat) < 32 then None
      else map_option (\<lambda>(t, r2). (ch # t, r2)) (parse_string r))"
  by pat_completeness auto
termination
  by (relation "measure length") (auto dest: escape_shorter)

text \<open>Numbers: \<open>m\<close> divided by ten to the power of \<open>k\<close>, as the platform renders it.\<close>

fun strip_zeros :: "nat \<Rightarrow> nat \<Rightarrow> nat \<times> nat" where
  "strip_zeros m 0 = (m, 0)"
| "strip_zeros m (Suc k) = (if m mod 10 = 0 then strip_zeros (m div 10) k else (m, Suc k))"

definition decimal :: "bool \<Rightarrow> nat \<Rightarrow> nat \<Rightarrow> js_value" where
  "decimal neg m k =
     (case strip_zeros m k of
        (m', k') \<Rightarrow>
          if k' = 0 then JNum (if neg then - int m' else int m')
          else
            let frac = show_nat (m' mod 10 ^ k')
            in JReal ((if neg then ''-'' else []) @ show_nat (m' div 10 ^ k') @ ''.'' @
                 replicate (k' - length frac) CHR ''0'' @ frac))"

definition digits :: "string \<Rightarrow> string \<times> string" where
  "digits s = (takeWhile is_digit s, dropWhile is_digit s)"

definition parse_fraction :: "string \<Rightarrow> (string \<times> string) option" where
  "parse_fraction s =
     (if s \<noteq> [] \<and> hd s = CHR ''.'' then
        (case digits (tl s) of (ds, r) \<Rightarrow> if ds = [] then None else Some (ds, r))
      else Some ([], s))"

definition parse_exponent :: "string \<Rightarrow> (int \<times> string) option" where
  "parse_exponent s =
     (if s \<noteq> [] \<and> hd s \<in> {CHR ''e'', CHR ''E''} then
        let r = tl s;
            neg = (r \<noteq> [] \<and> hd r = CHR ''-'');
            r1 = (if r \<noteq> [] \<and> hd r \<in> {CHR ''-'', CHR ''+''} then tl r else r)
        in case digits r1 of
             (ds, r2) \<Rightarrow> if ds = [] then None
               else Some (if neg then - int (read_digits ds) else int (read_digits ds), r2)
      else Some (0, s))"

definition parse_number :: "string \<Rightarrow> (js_value \<times> string) option" where
  "parse_number s =
     (let neg = (s \<noteq> [] \<and> hd s = CHR ''-'');
          s1 = (if neg then tl s else s)
      in case digits s1 of
           (ds, r) \<Rightarrow>
             if ds = [] then None
             else
               let (whole, r0) = (if hd ds = CHR ''0'' then (''0'', tl s1) else (ds, r))
               in case parse_fraction r0 of
                    None \<Rightarrow> None
                  | Some (frac, r1) \<Rightarrow>
                      (case parse_exponent r1 of
                         None \<Rightarrow> None
                       | Some (ex, r2) \<Rightarrow>
                           let m = read_digits (whole @ frac); e = ex - int (length frac)
                           in Some (if 0 \<le> e then decimal neg (m * 10 ^ nat e) 0 else decimal neg m (nat (- e)), r2)))"

definition literals :: "(string \<times> js_value) list" where
  "literals = [(''true'', JBool True), (''false'', JBool False), (''null'', Null)]"

definition parse_literal :: "string \<Rightarrow> (js_value \<times> string) option" where
  "parse_literal s =
     map_option (\<lambda>(w, v). (v, drop (length w) s)) (find (\<lambda>(w, v). take (length w) s = w) literals)"

text \<open>
  Values, with a bound on the nesting and the number of members that the length of the text is enough for: each
  step consumes a character.
\<close>

fun parse_value :: "nat \<Rightarrow> string \<Rightarrow> (js_value \<times> string) option"
  and parse_elements :: "nat \<Rightarrow> js_value list \<Rightarrow> string \<Rightarrow> (js_value \<times> string) option"
  and parse_members :: "nat \<Rightarrow> (string \<times> js_value) list \<Rightarrow> string \<Rightarrow> (js_value \<times> string) option" where
  "parse_value 0 s = None"
| "parse_value (Suc n) s =
     (case skip_ws s of
        [] \<Rightarrow> None
      | ch # r \<Rightarrow>
          if ch = QUOTE then map_option (\<lambda>(t, r1). (JStr t, r1)) (parse_string r)
          else if ch = CHR ''['' then
            (if skip_ws r \<noteq> [] \<and> hd (skip_ws r) = CHR '']'' then Some (JArr [], tl (skip_ws r))
             else parse_elements n [] r)
          else if ch = CHR ''{'' then
            (if skip_ws r \<noteq> [] \<and> hd (skip_ws r) = CHR ''}'' then Some (JObj [], tl (skip_ws r))
             else parse_members n [] r)
          else if ch = CHR ''-'' \<or> is_digit ch then parse_number (ch # r)
          else parse_literal (ch # r))"
| "parse_elements 0 acc s = None"
| "parse_elements (Suc n) acc s =
     (case parse_value n s of
        None \<Rightarrow> None
      | Some (v, r) \<Rightarrow>
          (case skip_ws r of
             [] \<Rightarrow> None
           | ch # r1 \<Rightarrow>
               if ch = CHR '','' then parse_elements n (acc @ [v]) r1
               else if ch = CHR '']'' then Some (JArr (acc @ [v]), r1)
               else None))"
| "parse_members 0 acc s = None"
| "parse_members (Suc n) acc s =
     (case skip_ws s of
        [] \<Rightarrow> None
      | q # r \<Rightarrow>
          if q \<noteq> QUOTE then None
          else
            (case parse_string r of
               None \<Rightarrow> None
             | Some (k, r1) \<Rightarrow>
                 (case skip_ws r1 of
                    [] \<Rightarrow> None
                  | colon # r2 \<Rightarrow>
                      if colon \<noteq> CHR '':'' then None
                      else
                        (case parse_value n r2 of
                           None \<Rightarrow> None
                         | Some (v, r3) \<Rightarrow>
                             (case skip_ws r3 of
                                [] \<Rightarrow> None
                              | ch # r4 \<Rightarrow>
                                  if ch = CHR '','' then parse_members n (js_map_set acc k v) r4
                                  else if ch = CHR ''}'' then Some (JObj (js_map_set acc k v), r4)
                                  else None)))))"

definition json_parse :: "string \<Rightarrow> js_value option" where
  "json_parse s =
     (case parse_value (length s) s of
        Some (v, r) \<Rightarrow> if skip_ws r = [] then Some v else None
      | None \<Rightarrow> None)"

section \<open>The bound of the parser\<close>

lemma length_skip_ws: "length (skip_ws s) \<le> length s"
  by (simp add: skip_ws_def length_dropWhile_le)

lemma parse_string_shorter: "parse_string s = Some (t, r) \<Longrightarrow> length r < length s"
proof (induction s arbitrary: t rule: parse_string.induct)
  case (2 ch s)
  show ?case
  proof (cases "ch = QUOTE")
    case False
    show ?thesis
    proof (cases "ch = BACKSLASH")
      case True
      with 2 False obtain u s1 t1 where e: "read_escape s = Some (u, s1)" "parse_string s1 = Some (t1, r)"
        by (auto split: option.splits)
      with 2(1) [OF False True e(1) refl] escape_shorter [OF e(1)] show ?thesis by force
    next
      case False2: False
      with 2 False show ?thesis by (force split: if_splits)
    qed
  qed (use 2 in simp)
qed simp

end
