(* ===== verification/Sse_Hub.thy ===== *)
theory Sse_Hub
  imports Json Decorators
begin

text \<open>
  The core of the SSE cluster: the wire contract (\<open>sse/domain/contract.ts\<close>), the outbound ports
  (\<open>sse/ports.ts\<close>), the hub over them (\<open>sse/domain/hub.ts\<close>) and the adapter of any message bus to the broker
  port (\<open>sse/adapters/bus-message-port.ts\<close>).

  A publish target comes out of a request body unchecked, so it is a \<^typ>\<open>js_value\<close>; \<open>target\<close> builds the
  well-formed ones. The instances of a cluster share the broker \<open>cl_bus\<close>; each has its own counter of
  subscriber ids. The clock of an instance is the parameter \<open>now\<close>; \<open>at\<close> is \<open>new Date().toISOString()\<close>.
\<close>

section \<open>The contract\<close>

definition SSE_CHANNEL :: destination where
  "SSE_CHANNEL = ''mbc.sse''"

datatype Scope = ScopeUser | ScopeOrg

fun scope_text :: "Scope \<Rightarrow> string" where
  "scope_text ScopeUser = ''user''"
| "scope_text ScopeOrg = ''org''"

definition target :: "Scope \<Rightarrow> string \<Rightarrow> js_value" where
  "target scope uid = JObj [(''type'', JStr (scope_text scope)), (''id'', JStr uid)]"

definition routingKeyFor :: "js_value \<Rightarrow> string" where
  "routingKeyFor t = js_String (js_prop ''type'' t) @ ''.'' @ js_String (js_prop ''id'' t)"

definition SseEnvelope :: "js_value \<Rightarrow> js_value \<Rightarrow> js_value \<Rightarrow> string \<Rightarrow> string \<Rightarrow> js_value" where
  "SseEnvelope from text to via at =
     JObj [(''from'', from), (''text'', text), (''to'', to), (''via'', JStr via), (''at'', JStr at)]"

definition SseFrame :: "Scope \<Rightarrow> string \<Rightarrow> js_value \<Rightarrow> js_value" where
  "SseFrame scope instanceId message =
     JObj [(''scope'', JStr (scope_text scope)), (''instanceId'', JStr instanceId), (''message'', message)]"

section \<open>The ports\<close>

text \<open>
  What the hub needs of a broker whose state is of type \<^typ>\<open>'c\<close>: a subscription of a handler to a routing key, with a
  handle to end it, and a publication; and of a connection, that the calls \<^typ>\<open>'r\<close> on it carry frames.
\<close>

record ('c, 'sub) MessageBusPort =
  port_subscribe :: "string \<Rightarrow> handler \<Rightarrow> 'c \<Rightarrow> (js_error + 'sub) \<times> 'c"
  port_publish :: "string \<Rightarrow> string \<Rightarrow> 'c \<Rightarrow> (js_error + unit) \<times> 'c"

record 'r ConnectionSink =
  sink_send :: "js_value \<Rightarrow> 'r"
  sink_close :: 'r

section \<open>The broker adapter\<close>

record 'w Cluster =
  cl_bus :: 'w
  cl_seq :: "string \<Rightarrow> nat"

definition subscriber_id :: "string \<Rightarrow> string \<Rightarrow> millis \<Rightarrow> nat \<Rightarrow> string" where
  "subscriber_id instanceId routingKey now seq =
     instanceId @ ''.'' @ routingKey @ ''.'' @ show_int now @ ''.'' @ show_nat seq"

definition transient_options :: "string \<Rightarrow> string \<Rightarrow> SubscribeOptions" where
  "transient_options routingKey sid = no_subscribe_options\<lparr>so_kind := Some Topic, so_routingKey := Some routingKey,
     so_subscriberId := Some sid, so_transient := Some True\<rparr>"

definition bmp_subscribe :: "('w, 'sub) Adapter \<Rightarrow> string \<Rightarrow> ('w \<Rightarrow> millis) \<Rightarrow> string \<Rightarrow> handler \<Rightarrow> 'w Cluster \<Rightarrow>
    (js_error + 'sub) \<times> 'w Cluster" where
  "bmp_subscribe bus instanceId now routingKey h c =
     (let seq = cl_seq c instanceId;
          sid = subscriber_id instanceId routingKey (now (cl_bus c)) seq;
          c1 = c\<lparr>cl_seq := (cl_seq c)(instanceId := Suc seq)\<rparr>
      in case ad_subscribe bus SSE_CHANNEL h (Some (transient_options routingKey sid)) (cl_bus c1) of
           (Inr (RSub sub), w) \<Rightarrow> (Inr sub, c1\<lparr>cl_bus := w\<rparr>)
         | (Inr _, w) \<Rightarrow> (Inl (Error ''not a subscription''), c1\<lparr>cl_bus := w\<rparr>)
         | (Inl e, w) \<Rightarrow> (Inl e, c1\<lparr>cl_bus := w\<rparr>))"

definition bmp_publish :: "('w, 'sub) Adapter \<Rightarrow> string \<Rightarrow> string \<Rightarrow> 'w Cluster \<Rightarrow> (js_error + unit) \<times> 'w Cluster" where
  "bmp_publish bus routingKey payload c =
     (case ad_publish bus SSE_CHANNEL payload (Some routingKey) None (cl_bus c) of
        (Inl e, w) \<Rightarrow> (Inl e, c\<lparr>cl_bus := w\<rparr>)
      | (Inr _, w) \<Rightarrow> (Inr (), c\<lparr>cl_bus := w\<rparr>))"

definition BusMessagePort :: "('w, 'sub) Adapter \<Rightarrow> string \<Rightarrow> ('w \<Rightarrow> millis) \<Rightarrow> ('w Cluster, 'sub) MessageBusPort" where
  "BusMessagePort bus instanceId now =
     \<lparr>port_subscribe = bmp_subscribe bus instanceId now, port_publish = bmp_publish bus\<rparr>"

lemma BusMessagePort_simps [simp]:
  "port_subscribe (BusMessagePort bus instanceId now) = bmp_subscribe bus instanceId now"
  "port_publish (BusMessagePort bus instanceId now) = bmp_publish bus"
  by (simp_all add: BusMessagePort_def)

section \<open>The hub\<close>

record PublishIntent =
  pi_to :: js_value
  pi_from :: js_value
  pi_text :: js_value

definition envelope_of :: "string \<Rightarrow> string \<Rightarrow> PublishIntent \<Rightarrow> js_value" where
  "envelope_of instanceId at intent =
     SseEnvelope (if truthy (pi_from intent) then pi_from intent else JStr ''anon'')
       (if pi_text intent \<in> {Undef, Null} then JStr [] else pi_text intent)
       (pi_to intent) instanceId at"

definition hub_publish :: "('c, 'sub) MessageBusPort \<Rightarrow> string \<Rightarrow> string \<Rightarrow> PublishIntent \<Rightarrow> 'c \<Rightarrow>
    (js_error + string) \<times> 'c" where
  "hub_publish port instanceId at intent c =
     (let routingKey = routingKeyFor (pi_to intent)
      in case port_publish port routingKey (json_stringify (envelope_of instanceId at intent)) c of
           (Inl e, c') \<Rightarrow> (Inl e, c')
         | (Inr _, c') \<Rightarrow> (Inr routingKey, c'))"

definition hub_parse :: "string \<Rightarrow> string \<Rightarrow> js_value" where
  "hub_parse instanceId body =
     (case json_parse body of
        Some v \<Rightarrow> v
      | None \<Rightarrow> SseEnvelope (JStr ''anon'') (JStr body) (target ScopeUser []) instanceId [])"

text \<open>
  The handler of a subscription is numbered by its connection and scope. On a message it sends the frame to the
  connection's sink, and acknowledges.
\<close>

definition sink_handler :: "nat \<Rightarrow> Scope \<Rightarrow> handler" where
  "sink_handler k scope = (case scope of ScopeUser \<Rightarrow> 2 * k | ScopeOrg \<Rightarrow> 2 * k + 1)"

definition frame_of :: "Scope \<Rightarrow> string \<Rightarrow> string \<Rightarrow> js_value" where
  "frame_of scope instanceId body = SseFrame scope instanceId (hub_parse instanceId body)"

definition bindScope :: "('c, 'sub) MessageBusPort \<Rightarrow> Scope \<Rightarrow> string \<Rightarrow> nat \<Rightarrow> 'c \<Rightarrow> (js_error + 'sub) \<times> 'c" where
  "bindScope port scope uid k = port_subscribe port (routingKeyFor (target scope uid)) (sink_handler k scope)"

definition hub_connect :: "('c, 'sub) MessageBusPort \<Rightarrow> string \<Rightarrow> string \<Rightarrow> nat \<Rightarrow> 'c \<Rightarrow>
    (js_error + 'sub \<times> 'sub) \<times> 'c" where
  "hub_connect port userId orgId k c =
     (case bindScope port ScopeUser userId k c of
        (Inl e, c1) \<Rightarrow> (Inl e, c1)
      | (Inr userUnsub, c1) \<Rightarrow>
          (case bindScope port ScopeOrg orgId k c1 of
             (Inl e, c2) \<Rightarrow> (Inl e, c2)
           | (Inr orgUnsub, c2) \<Rightarrow> (Inr (userUnsub, orgUnsub), c2)))"

text \<open>The teardown handle: both subscriptions are ended whatever the first does.\<close>

definition hub_teardown :: "('sub \<Rightarrow> 'w \<Rightarrow> (js_error + unit) \<times> 'w) \<Rightarrow> 'sub \<times> 'sub \<Rightarrow> 'w Cluster \<Rightarrow> 'w Cluster" where
  "hub_teardown stop subs c =
     c\<lparr>cl_bus := snd (stop (snd subs) (snd (stop (fst subs) (cl_bus c))))\<rparr>"

section \<open>The contract of the broker port\<close>

text \<open>
  What the hub relies on: a subscription that is granted binds its handler to its routing key, and later subscriptions
  and publications, granted or not, leave it bound. \<open>good\<close> is the state of a broker in which this holds.
\<close>

definition connected :: "('c \<Rightarrow> 'sub \<Rightarrow> string \<Rightarrow> handler \<Rightarrow> bool) \<Rightarrow> 'c \<Rightarrow> 'sub \<times> 'sub \<Rightarrow> string \<Rightarrow> string \<Rightarrow> nat \<Rightarrow> bool" where
  "connected bound c subs userId orgId k \<longleftrightarrow>
     bound c (fst subs) (routingKeyFor (target ScopeUser userId)) (sink_handler k ScopeUser) \<and>
     bound c (snd subs) (routingKeyFor (target ScopeOrg orgId)) (sink_handler k ScopeOrg)"

locale message_bus_port =
  fixes port :: "('c, 'sub) MessageBusPort"
    and good :: "'c \<Rightarrow> bool"
    and bound :: "'c \<Rightarrow> 'sub \<Rightarrow> string \<Rightarrow> handler \<Rightarrow> bool"
  assumes subscribe_good: "good c \<Longrightarrow> good (snd (port_subscribe port key h c))"
    and subscribe_binds: "good c \<Longrightarrow> port_subscribe port key h c = (Inr sub, c') \<Longrightarrow> bound c' sub key h"
    and subscribe_keeps: "good c \<Longrightarrow> bound c sub' key' h' \<Longrightarrow> bound (snd (port_subscribe port key h c)) sub' key' h'"
    and publish_good: "good c \<Longrightarrow> good (snd (port_publish port key body c))"
    and publish_keeps: "good c \<Longrightarrow> bound c sub key' h \<Longrightarrow> bound (snd (port_publish port key body c)) sub key' h"
begin

lemma bindScope_good: "good c \<Longrightarrow> bindScope port scope uid k c = (r, c') \<Longrightarrow> good c'"
  using subscribe_good [of c] by (metis bindScope_def snd_conv)

lemma bindScope_binds:
  "good c \<Longrightarrow> bindScope port scope uid k c = (Inr sub, c') \<Longrightarrow>
   bound c' sub (routingKeyFor (target scope uid)) (sink_handler k scope)"
  using subscribe_binds by (simp add: bindScope_def)

lemma bindScope_keeps:
  "good c \<Longrightarrow> bound c sub key h \<Longrightarrow> bindScope port scope uid k c = (r, c') \<Longrightarrow> bound c' sub key h"
  using subscribe_keeps [of c] by (metis bindScope_def snd_conv)

lemma connect_cases:
  assumes "good c" and "hub_connect port userId orgId k c = (r, c')"
  obtains (refused) e where "r = Inl e" "good c'" "bindScope port ScopeUser userId k c = (Inl e, c')"
  | (half) u e where "r = Inl e" "good c'"
      "bound c' u (routingKeyFor (target ScopeUser userId)) (sink_handler k ScopeUser)"
  | (both) subs where "r = Inr subs" "good c'" "connected bound c' subs userId orgId k"
proof -
  obtain r1 c1 where 1: "bindScope port ScopeUser userId k c = (r1, c1)" by (meson surj_pair)
  obtain r2 c2 where 2: "bindScope port ScopeOrg orgId k c1 = (r2, c2)" by (meson surj_pair)
  have g1: "good c1" by (rule bindScope_good [OF assms(1) 1])
  have g2: "good c2" by (rule bindScope_good [OF g1 2])
  show thesis
  proof (cases r1)
    case (Inl e)
    with 1 assms(2) g1 show ?thesis by (intro refused) (simp_all add: hub_connect_def)
  next
    case u: (Inr u)
    with 1 have b1: "bound c1 u (routingKeyFor (target ScopeUser userId)) (sink_handler k ScopeUser)"
      using bindScope_binds [OF assms(1)] by simp
    note b2 = bindScope_keeps [OF g1 b1 2]
    show ?thesis
    proof (cases r2)
      case (Inl e)
      with 1 2 u assms(2) g2 b2 show ?thesis by (intro half [where e = e and u = u]) (simp_all add: hub_connect_def)
    next
      case (Inr v)
      with 2 have "bound c2 v (routingKeyFor (target ScopeOrg orgId)) (sink_handler k ScopeOrg)"
        using bindScope_binds [OF g1] by simp
      with 1 2 u Inr assms(2) g2 b2 show ?thesis
        by (intro both [of "(u, v)"]) (simp_all add: hub_connect_def connected_def)
    qed
  qed
qed

text \<open>A connection that was set up has both its keys bound; the next ones and the posts of any instance leave them.\<close>

lemma connect_binds:
  "good c \<Longrightarrow> hub_connect port userId orgId k c = (Inr subs, c') \<Longrightarrow> good c' \<and> connected bound c' subs userId orgId k"
  by (erule connect_cases [of c]) auto

lemma connect_keeps:
  assumes "good c" and "connected bound c subs userId orgId k" and "hub_connect port userId' orgId' k' c = (r, c')"
  shows "connected bound c' subs userId orgId k"
proof -
  obtain r1 c1 where 1: "bindScope port ScopeUser userId' k' c = (r1, c1)" by (meson surj_pair)
  obtain r2 c2 where 2: "bindScope port ScopeOrg orgId' k' c1 = (r2, c2)" by (meson surj_pair)
  have g1: "good c1" by (rule bindScope_good [OF assms(1) 1])
  have "connected bound c1 subs userId orgId k"
    using assms(2) bindScope_keeps [OF assms(1) _ 1] by (simp add: connected_def)
  moreover from this have "connected bound c2 subs userId orgId k"
    using bindScope_keeps [OF g1 _ 2] by (simp add: connected_def)
  ultimately show ?thesis
    using assms(3) 1 2 by (auto simp: hub_connect_def split: sum.splits)
qed

lemma publish_answers:
  assumes "good c" and "connected bound c subs userId orgId k" and "hub_publish port instanceId at intent c = (r, c')"
  shows "good c' \<and> connected bound c' subs userId orgId k \<and> (\<forall>key. r = Inr key \<longrightarrow> key = routingKeyFor (pi_to intent))"
proof -
  obtain x c1 where p: "port_publish port (routingKeyFor (pi_to intent)) (json_stringify (envelope_of instanceId at intent)) c = (x, c1)"
    by (meson surj_pair)
  have "good c1" using publish_good [OF assms(1)] p by (metis snd_conv)
  moreover have "connected bound c1 subs userId orgId k"
    using assms(2) publish_keeps [OF assms(1)] p unfolding connected_def by (metis snd_conv)
  moreover have "c' = c1" "\<forall>key. r = Inr key \<longrightarrow> key = routingKeyFor (pi_to intent)"
    using assms(3) p by (auto simp: hub_publish_def split: sum.splits)
  ultimately show ?thesis by simp
qed

text \<open>When the second binding is refused the first stays: nothing is handed out that would end it.\<close>

lemma connect_half_bound:
  assumes "good c" and "bindScope port ScopeUser userId k c = (Inr u, c1)" and "bindScope port ScopeOrg orgId k c1 = (Inl e, c2)"
  shows "hub_connect port userId orgId k c = (Inl e, c2)"
    and "bound c2 u (routingKeyFor (target ScopeUser userId)) (sink_handler k ScopeUser)"
  using assms bindScope_keeps [OF bindScope_good [OF assms(1,2)] bindScope_binds [OF assms(1,2)] assms(3)]
  by (simp_all add: hub_connect_def)

end

end
