(* ===== verification/Sse_Http.thy ===== *)
theory Sse_Http
  imports Sse_Hub
begin

text \<open>
  The HTTP adapter of the SSE cluster (\<open>sse/adapters/http-server.ts\<close>). What the adapter does to a response is
  the list of its calls (\<open>res_call\<close>). A request carries its URL as the platform's parser splits it (\<^term>\<open>None\<close>
  when it throws) and the text of its body, or the error of its stream. Reading \<open>index.html\<close> is the parameter
  \<open>index_html\<close>. The life of a stream, with its heartbeat and its clean-up, is a step function at the end.
\<close>

section \<open>Requests and responses\<close>

datatype res_call =
    SetHeader string string
  | WriteHead nat "(string \<times> string) list"
  | WriteChunk string
  | EndWith "string option"

record Request =
  rq_method :: string
  rq_url :: "(string \<times> (string \<times> string) list) option"
  rq_body :: "js_error + string"

definition LF :: string where "LF = [CHR 0x0A]"

definition HEARTBEAT_MS :: millis where "HEARTBEAT_MS = 15000"

definition setCors :: "res_call list" where
  "setCors =
     [SetHeader ''access-control-allow-origin'' ''*'',
      SetHeader ''access-control-allow-methods'' ''GET, POST, OPTIONS'',
      SetHeader ''access-control-allow-headers'' ''content-type'',
      SetHeader ''access-control-max-age'' ''86400'']"

definition plain :: "nat \<Rightarrow> string \<Rightarrow> res_call list" where
  "plain status text = [WriteHead status [(''content-type'', ''text/plain'')], EndWith (Some text)]"

text \<open>\<open>url.searchParams.get\<close>: the first value of the name.\<close>

definition param :: "string \<Rightarrow> (string \<times> string) list \<Rightarrow> string option" where
  "param name query = js_map_get query name"

section \<open>The stream of a connection\<close>

definition hello :: "string \<Rightarrow> string \<Rightarrow> string \<Rightarrow> string" where
  "hello instanceId userId orgId =
     ''event: hello'' @ LF @ ''data: '' @
     json_stringify (JObj [(''instanceId'', JStr instanceId), (''userId'', JStr userId), (''orgId'', JStr orgId)]) @
     LF @ LF"

definition openSseSink :: "string \<Rightarrow> string \<Rightarrow> string \<Rightarrow> res_call list" where
  "openSseSink instanceId userId orgId =
     [WriteHead 200 [(''content-type'', ''text/event-stream''), (''cache-control'', ''no-cache, no-transform''),
        (''connection'', ''keep-alive''), (''x-instance-id'', instanceId)],
      WriteChunk (hello instanceId userId orgId)]"

definition keep_alive :: "millis \<Rightarrow> string" where
  "keep_alive now = '': keep-alive '' @ show_int now @ LF @ LF"

definition http_sink :: "res_call ConnectionSink" where
  "http_sink = \<lparr>sink_send = (\<lambda>frame. WriteChunk (''data: '' @ json_stringify frame @ LF @ LF)), sink_close = EndWith None\<rparr>"

text \<open>What a connection's handler writes for a broker message.\<close>

definition deliver_frame :: "Scope \<Rightarrow> string \<Rightarrow> IncomingMessage \<Rightarrow> res_call" where
  "deliver_frame scope instanceId m = sink_send http_sink (frame_of scope instanceId (rm_body m))"

section \<open>The handlers\<close>

text \<open>
  A handler gives the calls it makes on the response, the error it throws, if any, and the cluster after it. The
  parameter \<open>connect\<close> is the hub's \<open>connect\<close> on the identity of the connection, and \<open>pub\<close> its \<open>publish\<close>.
\<close>

type_synonym 'c outcome = "res_call list \<times> js_error option \<times> 'c"

definition handleEvents :: "string \<Rightarrow> (string \<Rightarrow> string \<Rightarrow> 'c \<Rightarrow> (js_error + 'h) \<times> 'c) \<Rightarrow>
    (string \<times> string) list \<Rightarrow> 'c \<Rightarrow> 'c outcome" where
  "handleEvents instanceId connect query c =
     (case (param ''userId'' query, param ''orgId'' query) of
        (Some userId, Some orgId) \<Rightarrow>
          if userId = [] \<or> orgId = [] then (plain 400 ''userId and orgId query params are required'', None, c)
          else
            (case connect userId orgId c of
               (Inl e, c') \<Rightarrow> (openSseSink instanceId userId orgId, Some e, c')
             | (Inr _, c') \<Rightarrow> (openSseSink instanceId userId orgId, None, c'))
      | _ \<Rightarrow> (plain 400 ''userId and orgId query params are required'', None, c))"

definition nullish :: "js_value \<Rightarrow> bool" where
  "nullish v \<longleftrightarrow> v = Undef \<or> v = Null"

definition or_default :: "js_value \<Rightarrow> string \<Rightarrow> js_value" where
  "or_default v d = (if nullish v then JStr d else v)"

definition handlePublish :: "string \<Rightarrow> (PublishIntent \<Rightarrow> 'c \<Rightarrow> (js_error + string) \<times> 'c) \<Rightarrow>
    js_error + string \<Rightarrow> 'c \<Rightarrow> 'c outcome" where
  "handlePublish instanceId pub raw c =
     (case raw of
        Inl e \<Rightarrow> ([], Some e, c)
      | Inr text \<Rightarrow>
          (case json_parse text of
             None \<Rightarrow> (plain 400 ''invalid JSON body'', None, c)
           | Some body \<Rightarrow>
               let to = js_prop ''to'' body
               in if \<not> truthy (js_prop ''type'' to) \<or> \<not> truthy (js_prop ''id'' to) then
                    (plain 400 ''body must be { to: { type, id }, from, text }'', None, c)
                  else
                    (case pub \<lparr>pi_to = to, pi_from = or_default (js_prop ''from'' body) ''anon'',
                               pi_text = or_default (js_prop ''text'' body) []\<rparr> c of
                       (Inl e, c') \<Rightarrow> ([], Some e, c')
                     | (Inr routingKey, c') \<Rightarrow>
                         ([WriteHead 202 [(''content-type'', ''application/json'')],
                           EndWith (Some (json_stringify (JObj [(''accepted'', JBool True),
                             (''routingKey'', JStr routingKey), (''via'', JStr instanceId)])))], None, c'))))"

definition handle :: "string \<Rightarrow> js_error + string \<Rightarrow> (string \<Rightarrow> string \<Rightarrow> 'c \<Rightarrow> (js_error + 'h) \<times> 'c) \<Rightarrow>
    (PublishIntent \<Rightarrow> 'c \<Rightarrow> (js_error + string) \<times> 'c) \<Rightarrow> Request \<Rightarrow> 'c \<Rightarrow> 'c outcome" where
  "handle instanceId index_html connect pub req c =
     (case rq_url req of
        None \<Rightarrow> ([], Some (Error ''Invalid URL''), c)
      | Some (pathname, query) \<Rightarrow>
          (case
             if rq_method req = ''OPTIONS'' then ([WriteHead 204 [], EndWith None], None, c)
             else if rq_method req = ''GET'' \<and> pathname = ''/healthz'' then
               ([WriteHead 200 [(''content-type'', ''application/json'')],
                 EndWith (Some (json_stringify (JObj [(''ok'', JBool True), (''instanceId'', JStr instanceId)])))], None, c)
             else if rq_method req = ''GET'' \<and> pathname = ''/'' then
               (case index_html of
                  Inl e \<Rightarrow> ([], Some e, c)
                | Inr html \<Rightarrow> ([WriteHead 200 [(''content-type'', ''text/html; charset=utf-8'')], EndWith (Some html)], None, c))
             else if rq_method req = ''GET'' \<and> pathname = ''/events'' then handleEvents instanceId connect query c
             else if rq_method req = ''POST'' \<and> pathname = ''/publish'' then handlePublish instanceId pub (rq_body req) c
             else (plain 404 ''not found'', None, c)
           of (calls, err, c') \<Rightarrow> (setCors @ calls, err, c')))"

fun is_head :: "res_call \<Rightarrow> bool" where
  "is_head (WriteHead _ _) = True"
| "is_head _ = False"

text \<open>The callback of \<open>createServer\<close>, with its \<open>catch\<close>.\<close>

definition serve :: "string \<Rightarrow> js_error + string \<Rightarrow> (string \<Rightarrow> string \<Rightarrow> 'c \<Rightarrow> (js_error + 'h) \<times> 'c) \<Rightarrow>
    (PublishIntent \<Rightarrow> 'c \<Rightarrow> (js_error + string) \<times> 'c) \<Rightarrow> Request \<Rightarrow> 'c \<Rightarrow> res_call list \<times> 'c" where
  "serve instanceId index_html connect pub req c =
     (case handle instanceId index_html connect pub req c of
        (calls, None, c') \<Rightarrow> (calls, c')
      | (calls, Some e, c') \<Rightarrow>
          (calls @ (if list_ex is_head calls then [] else [WriteHead 500 [(''content-type'', ''text/plain'')]]) @
             [EndWith (Some (''error: '' @ error_message e))], c'))"

section \<open>The life of a stream\<close>

text \<open>
  \<open>handleEvents\<close> awaits the hub while the client may go away. The events of a connection are the two
  subscriptions being bound, or failing, the heartbeat of its interval timer, and the \<open>close\<close> events of request and
  response; \<open>cn_beats\<close> holds the heartbeats written and \<open>cn_unsubscribed\<close> is what the teardown has ended. The clean-up
  runs once: it clears the timer and runs the teardown installed at that moment.
\<close>

datatype phase = BindingUser | BindingOrg | Streaming | Failed

record 'sub Connection =
  cn_phase :: phase
  cn_closed :: bool
  cn_timer :: "millis option"
  cn_beats :: "res_call list"
  cn_bound :: "'sub list"
  cn_unsubscribed :: "'sub list"

text \<open>The stream opened at the time \<open>now\<close>; \<open>cn_timer\<close> is when its next heartbeat is due.\<close>

definition opened :: "millis \<Rightarrow> 'sub Connection" where
  "opened now = \<lparr>cn_phase = BindingUser, cn_closed = False, cn_timer = Some (now + HEARTBEAT_MS), cn_beats = [],
     cn_bound = [], cn_unsubscribed = []\<rparr>"

datatype 'sub stream_event = Bound 'sub | BindFails | Beat millis | ClientCloses

definition beat :: "millis \<Rightarrow> 'sub Connection \<Rightarrow> 'sub Connection option" where
  "beat now cn =
     (case cn_timer cn of
        None \<Rightarrow> None
      | Some due \<Rightarrow>
          if due \<le> now
          then Some (cn\<lparr>cn_beats := cn_beats cn @ [WriteChunk (keep_alive now)], cn_timer := Some (now + HEARTBEAT_MS)\<rparr>)
          else None)"

definition cleanup :: "'sub Connection \<Rightarrow> 'sub Connection" where
  "cleanup cn =
     (if cn_closed cn then cn
      else if cn_phase cn = Streaming then cn\<lparr>cn_closed := True, cn_timer := None, cn_unsubscribed := cn_bound cn\<rparr>
      else cn\<lparr>cn_closed := True, cn_timer := None\<rparr>)"

fun stream_step :: "'sub stream_event \<Rightarrow> 'sub Connection \<Rightarrow> 'sub Connection option" where
  "stream_step (Bound sub) cn =
     (case cn_phase cn of
        BindingUser \<Rightarrow> Some (cn\<lparr>cn_phase := BindingOrg, cn_bound := [sub]\<rparr>)
      | BindingOrg \<Rightarrow> Some (cn\<lparr>cn_phase := Streaming, cn_bound := cn_bound cn @ [sub]\<rparr>)
      | _ \<Rightarrow> None)"
| "stream_step BindFails cn =
     (if cn_phase cn \<in> {BindingUser, BindingOrg} then Some (cn\<lparr>cn_phase := Failed\<rparr>) else None)"
| "stream_step (Beat now) cn = beat now cn"
| "stream_step ClientCloses cn = Some (cleanup cn)"

fun stream_run :: "'sub stream_event list \<Rightarrow> 'sub Connection \<Rightarrow> 'sub Connection option" where
  "stream_run [] cn = Some cn"
| "stream_run (e # es) cn = (case stream_step e cn of None \<Rightarrow> None | Some cn' \<Rightarrow> stream_run es cn')"

text \<open>The subscriptions a connection still has on the broker.\<close>

definition live_subscriptions :: "'sub Connection \<Rightarrow> 'sub list" where
  "live_subscriptions cn = filter (\<lambda>sub. sub \<notin> set (cn_unsubscribed cn)) (cn_bound cn)"

end
