(* ===== verification/Sse_Cluster.thy ===== *)
theory Sse_Cluster
  imports Sse_Http
begin

text \<open>
  A running SSE cluster on the in-process broker: the instances share the broker, browsers open and close streams
  (\<open>handleEvents\<close>), post messages (\<open>handlePublish\<close>), and the broker delivers to the sinks (\<open>SseHub.bindScope\<close> over
  \<open>BusMessagePort.subscribe\<close>). Opening a stream is one event; that a client may leave meanwhile is the subject of
  \<open>stream_step\<close>. A specification of the cluster without a broker follows.
\<close>

section \<open>The cluster\<close>

record Stream =
  sm_inst :: string
  sm_user :: string
  sm_org :: string
  sm_subs :: "(nat \<times> handler) \<times> (nat \<times> handler)"
  sm_open :: bool
  sm_out :: "res_call list"

record System =
  sy_cluster :: "InMemoryScheduler Cluster"
  sy_streams :: "Stream list"

definition sys_init :: System where
  "sys_init = \<lparr>sy_cluster = \<lparr>cl_bus = is_init, cl_seq = (\<lambda>_. 0)\<rparr>, sy_streams = []\<rparr>"

definition sy_bus :: "System \<Rightarrow> Bus" where
  "sy_bus S = is_bus (cl_bus (sy_cluster S))"

definition on_broker :: "(Bus \<Rightarrow> Bus) \<Rightarrow> System \<Rightarrow> System" where
  "on_broker f S = S\<lparr>sy_cluster := (sy_cluster S)\<lparr>cl_bus := (cl_bus (sy_cluster S))\<lparr>is_bus := f (sy_bus S)\<rparr>\<rparr>\<rparr>"

definition stop_memory :: "nat \<times> handler \<Rightarrow> InMemoryScheduler \<Rightarrow> (js_error + unit) \<times> InMemoryScheduler" where
  "stop_memory sub s = (Inr (), s\<lparr>is_bus := unsubscribe (fst sub) (snd sub) (is_bus s)\<rparr>)"

definition sys_open :: "string \<Rightarrow> string \<Rightarrow> string \<Rightarrow> System \<Rightarrow> System" where
  "sys_open inst userId orgId S =
     (case hub_connect (BusMessagePort memory_adapter inst is_now) userId orgId (length (sy_streams S)) (sy_cluster S) of
        (Inl e, c) \<Rightarrow> S\<lparr>sy_cluster := c\<rparr>
      | (Inr subs, c) \<Rightarrow> S\<lparr>sy_cluster := c, sy_streams := sy_streams S @
           [\<lparr>sm_inst = inst, sm_user = userId, sm_org = orgId, sm_subs = subs, sm_open = True,
             sm_out = setCors @ openSseSink inst userId orgId\<rparr>]\<rparr>)"

text \<open>\<open>POST /publish\<close> on the instance, at the time \<open>at\<close>; the answer is dropped.\<close>

definition sys_post :: "string \<Rightarrow> string \<Rightarrow> js_error + string \<Rightarrow> System \<Rightarrow> System" where
  "sys_post inst at raw S =
     (case handlePublish inst (hub_publish (BusMessagePort memory_adapter inst is_now) inst at) raw (sy_cluster S) of
        (calls, err, c) \<Rightarrow> S\<lparr>sy_cluster := c\<rparr>)"

text \<open>The connection and the scope of a handler.\<close>

definition scope_of :: "handler \<Rightarrow> Scope" where
  "scope_of h = (if even h then ScopeUser else ScopeOrg)"

text \<open>What is written after the client has gone is lost.\<close>

definition write_frame :: "handler \<Rightarrow> IncomingMessage \<Rightarrow> Stream list \<Rightarrow> Stream list" where
  "write_frame h m sts =
     (let k = h div 2; st = sts ! k
      in if k < length sts \<and> sm_open st
         then sts[k := st\<lparr>sm_out := sm_out st @ [deliver_frame (scope_of h) (sm_inst st) m]\<rparr>]
         else sts)"

text \<open>The next delivery: the handler is called with the message, and acknowledges it.\<close>

definition sys_deliver :: "System \<Rightarrow> System" where
  "sys_deliver S =
     (case b_microtasks (sy_bus S) of
        [] \<Rightarrow> S
      | d # _ \<Rightarrow>
          (on_broker (\<lambda>b. ack (length (b_delivered b)) (run_microtask b)) S)
            \<lparr>sy_streams := write_frame (dl_consumer d) (wrap (dl_message d)) (sy_streams S)\<rparr>)"

definition sys_close :: "nat \<Rightarrow> System \<Rightarrow> System" where
  "sys_close k S =
     (let st = sy_streams S ! k
      in if k < length (sy_streams S) \<and> sm_open st
         then S\<lparr>sy_cluster := hub_teardown stop_memory (sm_subs st) (sy_cluster S),
                sy_streams := (sy_streams S)[k := st\<lparr>sm_open := False\<rparr>]\<rparr>
         else S)"

datatype sys_event =
    Open string string string
  | Post string string "js_error + string"
  | Deliver
  | Close nat

fun sys_step :: "sys_event \<Rightarrow> System \<Rightarrow> System" where
  "sys_step (Open inst userId orgId) S = sys_open inst userId orgId S"
| "sys_step (Post inst at raw) S = sys_post inst at raw S"
| "sys_step Deliver S = sys_deliver S"
| "sys_step (Close k) S = sys_close k S"

definition sys_run :: "sys_event list \<Rightarrow> System \<Rightarrow> System" where
  "sys_run es S = fold sys_step es S"

section \<open>The specification\<close>

text \<open>
  A cluster without a broker: every open stream has, per scope, the list of the message bodies that wait for it. A
  post is put into every open stream whose routing key takes the key of the post.
\<close>

record Inbox =
  ib_inst :: string
  ib_id :: "Scope \<Rightarrow> string"
  ib_open :: bool
  ib_waiting :: "Scope \<Rightarrow> string list"
  ib_out :: "res_call list"

definition takes_key :: "Inbox \<Rightarrow> Scope \<Rightarrow> string \<Rightarrow> bool" where
  "takes_key ib s key \<longleftrightarrow> topicMatch (routingKeyFor (target s (ib_id ib s))) key"

definition frame_call :: "Scope \<Rightarrow> string \<Rightarrow> string \<Rightarrow> res_call" where
  "frame_call s inst body = sink_send http_sink (frame_of s inst body)"

datatype spec_event =
    SOpen string string string
  | SPost string string
  | SDeliver nat Scope
  | SClose nat

definition pick :: "'a \<Rightarrow> 'a \<Rightarrow> Scope \<Rightarrow> 'a" where
  "pick u v s = (case s of ScopeUser \<Rightarrow> u | ScopeOrg \<Rightarrow> v)"

definition arrive :: "string \<Rightarrow> string \<Rightarrow> Inbox \<Rightarrow> Inbox" where
  "arrive key body ib =
     (if ib_open ib
      then ib\<lparr>ib_waiting := (\<lambda>s. if takes_key ib s key then ib_waiting ib s @ [body] else ib_waiting ib s)\<rparr>
      else ib)"

definition hand_over :: "Scope \<Rightarrow> Inbox \<Rightarrow> Inbox" where
  "hand_over s ib =
     (case ib_waiting ib s of
        [] \<Rightarrow> ib
      | body # rest \<Rightarrow> ib\<lparr>ib_waiting := (ib_waiting ib)(s := rest), ib_out := ib_out ib @ [frame_call s (ib_inst ib) body]\<rparr>)"

definition shut :: "Inbox \<Rightarrow> Inbox" where
  "shut ib = (if ib_open ib then ib\<lparr>ib_open := False, ib_waiting := (\<lambda>_. [])\<rparr> else ib)"

definition at_index :: "nat \<Rightarrow> ('a \<Rightarrow> 'a) \<Rightarrow> 'a list \<Rightarrow> 'a list" where
  "at_index k f xs = (if k < length xs then xs[k := f (xs ! k)] else xs)"

fun spec_step :: "spec_event \<Rightarrow> Inbox list \<Rightarrow> Inbox list" where
  "spec_step (SOpen inst userId orgId) ibs = ibs @
     [\<lparr>ib_inst = inst, ib_id = pick userId orgId, ib_open = True, ib_waiting = (\<lambda>_. []),
       ib_out = setCors @ openSseSink inst userId orgId\<rparr>]"
| "spec_step (SPost key body) ibs = map (arrive key body) ibs"
| "spec_step (SDeliver k s) ibs = at_index k (hand_over s) ibs"
| "spec_step (SClose k) ibs = at_index k shut ibs"

text \<open>What an event of the cluster is for the specification. A post that is refused is nothing.\<close>

definition accepted :: "string \<Rightarrow> string \<Rightarrow> js_error + string \<Rightarrow> (string \<times> string) option" where
  "accepted inst at raw =
     (case raw of
        Inl e \<Rightarrow> None
      | Inr text \<Rightarrow>
          (case json_parse text of
             None \<Rightarrow> None
           | Some body \<Rightarrow>
               let to = js_prop ''to'' body
               in if truthy (js_prop ''type'' to) \<and> truthy (js_prop ''id'' to)
                  then Some (routingKeyFor to, json_stringify (envelope_of inst at
                    \<lparr>pi_to = to, pi_from = or_default (js_prop ''from'' body) ''anon'',
                     pi_text = or_default (js_prop ''text'' body) []\<rparr>))
                  else None))"

fun spec_of :: "System \<Rightarrow> sys_event \<Rightarrow> spec_event list" where
  "spec_of S (Open inst userId orgId) = [SOpen inst userId orgId]"
| "spec_of S (Post inst at raw) =
     (case accepted inst at raw of None \<Rightarrow> [] | Some (key, body) \<Rightarrow> [SPost key body])"
| "spec_of S Deliver =
     (case b_microtasks (sy_bus S) of
        [] \<Rightarrow> []
      | d # _ \<Rightarrow> [SDeliver (dl_consumer d div 2) (scope_of (dl_consumer d))])"
| "spec_of S (Close k) = [SClose k]"

text \<open>What waits for an open stream is what its queue holds, in flight first.\<close>

definition queue_bodies :: "BusQueue \<Rightarrow> string list" where
  "queue_bodies q = map (bm_body \<circ> fst) (bq_inflight q) @ map bm_body (bq_pending q)"

end
