(* ===== verification/Json_Roundtrip.thy ===== *)
theory Json_Roundtrip
  imports Json
begin

text \<open>
  The bound of the parser is enough for every text, parsing undoes stringifying, and a stringified value has no
  line break in it.
\<close>

section \<open>The bound is enough\<close>

lemma skip_ws_Cons: "skip_ws s = ch # r \<Longrightarrow> length r < length s"
  using length_skip_ws [of s] by simp

lemma digits_shorter: "digits s = (ds, r) \<Longrightarrow> length s = length ds + length r"
  unfolding digits_def by (metis Pair_inject length_append takeWhile_dropWhile_id)

lemma parse_fraction_shorter: "parse_fraction s = Some (ds, r) \<Longrightarrow> length r \<le> length s"
  by (cases s) (auto simp: parse_fraction_def dest!: digits_shorter split: if_splits prod.splits)

lemma parse_exponent_shorter: "parse_exponent s = Some (e, r) \<Longrightarrow> length r \<le> length s"
proof (cases s)
  case (Cons x xs)
  assume "parse_exponent s = Some (e, r)"
  with Cons show ?thesis
    by (cases xs) (auto simp: parse_exponent_def Let_def dest!: digits_shorter split: if_splits prod.splits)
qed (simp add: parse_exponent_def)

lemma parse_number_shorter: "parse_number s = Some (v, r) \<Longrightarrow> length r < length s"
proof -
  assume n: "parse_number s = Some (v, r)"
  define s1 where "s1 = (if s \<noteq> [] \<and> hd s = CHR ''-'' then tl s else s)"
  obtain ds r0 where d: "digits s1 = (ds, r0)" by (cases "digits s1")
  define r1 where "r1 = (if hd ds = CHR ''0'' then tl s1 else r0)"
  from n d have ds: "ds \<noteq> []" by (auto simp: parse_number_def s1_def)
  from n d ds obtain fr r2 ex r3 where "parse_fraction r1 = Some (fr, r2)" "parse_exponent r2 = Some (ex, r3)" "r3 = r"
    by (auto simp: parse_number_def s1_def r1_def Let_def split: option.splits if_splits)
  then have "length r \<le> length r1"
    using parse_fraction_shorter parse_exponent_shorter by (meson le_trans)
  moreover from ds digits_shorter [OF d] have "length r1 < length s1"
    by (cases ds; cases s1) (auto simp: r1_def)
  moreover have "length s1 \<le> length s" by (simp add: s1_def)
  ultimately show ?thesis by simp
qed

lemma parse_literal_shorter: "parse_literal (ch # s) = Some (v, r) \<Longrightarrow> length r < length (ch # s)"
  by (auto simp: parse_literal_def literals_def split: if_splits)

lemma parse_shorter:
  "parse_value n s = Some (v, r) \<Longrightarrow> length r < length s"
  "parse_elements n acc s = Some (v, r) \<Longrightarrow> length r < length s"
  "parse_members n acc' s = Some (v, r) \<Longrightarrow> length r < length s"
proof (induction n s and n acc s and n acc' s arbitrary: v r and v r and v r
    rule: parse_value_parse_elements_parse_members.induct)
  case (2 n s)
  obtain ch r1 where s: "skip_ws s = ch # r1" using "2.prems" by (cases "skip_ws s") auto
  have tail: "length (tl (skip_ws r1)) \<le> length r1" using length_skip_ws [of r1] by simp
  have "length r < length (ch # r1)"
    using "2.prems" s "2.IH"(1)[OF s] "2.IH"(2)[OF s] tail parse_number_shorter [of "ch # r1" v r]
      parse_literal_shorter [of ch r1 v r]
    by (auto split: if_splits dest!: parse_string_shorter)
  then show ?case using length_skip_ws [of s] s by simp
next
  case (4 n acc s)
  then obtain v1 r1 where v1: "parse_value n s = Some (v1, r1)" by (auto split: option.splits)
  with 4 show ?case
    by (force split: list.splits if_splits dest!: skip_ws_Cons)
next
  case (6 n acc s)
  then show ?case
    by (force split: list.splits if_splits option.splits dest!: skip_ws_Cons parse_string_shorter)
qed simp_all

text \<open>A bound that covers what a successful parse consumes gives the same parse.\<close>

lemma parse_enough:
  "parse_value n s = Some (v, r) \<Longrightarrow> length s \<le> m + length r \<Longrightarrow> parse_value m s = Some (v, r)"
  "parse_elements n acc s = Some (v, r) \<Longrightarrow> length s \<le> m + length r \<Longrightarrow> parse_elements m acc s = Some (v, r)"
  "parse_members n acc' s = Some (v, r) \<Longrightarrow> length s \<le> m + length r \<Longrightarrow> parse_members m acc' s = Some (v, r)"
proof (induction n s and n acc s and n acc' s arbitrary: v r m and v r m and v r m
    rule: parse_value_parse_elements_parse_members.induct)
  case (2 n s)
  obtain k where m: "m = Suc k" using "2.prems" parse_shorter(1) [of "Suc n" s v r] by (cases m) auto
  obtain ch r1 where s: "skip_ws s = ch # r1" using "2.prems" by (cases "skip_ws s") auto
  have "length r1 \<le> k + length r" using skip_ws_Cons [OF s] "2.prems"(2) m by simp
  then have sub: "ch \<noteq> QUOTE \<Longrightarrow> ch = CHR ''['' \<Longrightarrow> \<not> (skip_ws r1 \<noteq> [] \<and> hd (skip_ws r1) = CHR '']'') \<Longrightarrow>
        parse_elements n [] r1 = Some (v, r) \<Longrightarrow> parse_elements k [] r1 = Some (v, r)"
    "ch \<noteq> QUOTE \<Longrightarrow> ch \<noteq> CHR ''['' \<Longrightarrow> ch = CHR ''{'' \<Longrightarrow> \<not> (skip_ws r1 \<noteq> [] \<and> hd (skip_ws r1) = CHR ''}'') \<Longrightarrow>
        parse_members n [] r1 = Some (v, r) \<Longrightarrow> parse_members k [] r1 = Some (v, r)"
    using "2.IH"(1)[OF s] "2.IH"(2)[OF s] by blast+
  show ?case
  proof (cases "ch = QUOTE")
    case False
    note q = False
    show ?thesis
    proof (cases "ch = CHR ''[''")
      case True
      with q "2.prems"(1) s sub(1) show ?thesis
        by (simp only: m parse_value.simps s list.case if_True if_False refl split: if_split) metis
    next
      case False
      with q "2.prems"(1) s sub(2) show ?thesis
        by (simp only: m parse_value.simps s list.case if_True if_False refl split: if_split) metis
    qed
  qed (use "2.prems"(1) s m in simp)
next
  case (4 n acc s)
  obtain k where m: "m = Suc k" using "4.prems" parse_shorter(2) [of "Suc n" acc s v r] by (cases m) auto
  from "4.prems" obtain v1 r1 where v1: "parse_value n s = Some (v1, r1)" by (auto split: option.splits)
  with "4.prems" obtain ch r2 where r2: "skip_ws r1 = ch # r2" by (auto split: list.splits)
  note len = skip_ws_Cons [OF r2] parse_shorter(1) [OF v1]
  show ?case
  proof (cases "ch = CHR '',''")
    case True
    with "4.prems" v1 r2 have e: "parse_elements n (acc @ [v1]) r2 = Some (v, r)" by simp
    from parse_shorter(2) [OF e] len "4.prems"(2) m have "length s \<le> k + length r1" "length r2 \<le> k + length r" by auto
    with "4.IH"(1)[OF v1] "4.IH"(2)[OF v1 refl r2 True e] show ?thesis by (simp add: m r2 True)
  next
    case False
    with "4.prems" v1 r2 have "r2 = r" by (auto split: if_splits)
    with len "4.prems"(2) m have "length s \<le> k + length r1" by simp
    with "4.IH"(1)[OF v1] "4.prems" False v1 r2 show ?thesis by (auto simp: m split: if_splits)
  qed
next
  case (6 n acc s)
  obtain k where m: "m = Suc k" using "6.prems" parse_shorter(3) [of "Suc n" acc s v r] by (cases m) auto
  from "6.prems" obtain q s1 where s1: "skip_ws s = q # s1" "q = QUOTE" by (auto split: list.splits if_splits)
  with "6.prems" obtain key r1 where r1: "parse_string s1 = Some (key, r1)" by (auto split: option.splits)
  with "6.prems" s1 obtain colon r2 where r2: "skip_ws r1 = colon # r2" "colon = CHR '':''"
    by (auto split: list.splits if_splits)
  with "6.prems" s1 r1 obtain v1 r3 where v1: "parse_value n r2 = Some (v1, r3)" by (auto split: option.splits)
  with "6.prems" s1 r1 r2 obtain ch r4 where r4: "skip_ws r3 = ch # r4" by (auto split: list.splits)
  note len = skip_ws_Cons [OF s1(1)] parse_string_shorter [OF r1] skip_ws_Cons [OF r2(1)] parse_shorter(1) [OF v1]
    skip_ws_Cons [OF r4]
  note IH = "6.IH"(1)[OF s1(1) _ r1 refl r2(1) _ v1] "6.IH"(2)[OF s1(1) _ r1 refl r2(1) _ v1 refl r4]
  show ?case
  proof (cases "ch = CHR '',''")
    case True
    with "6.prems" s1 r1 r2 v1 r4 have e: "parse_members n (js_map_set acc key v1) r4 = Some (v, r)" by simp
    from parse_shorter(3) [OF e] len "6.prems"(2) m have "length r2 \<le> k + length r3" "length r4 \<le> k + length r" by auto
    with IH e s1 r1 r2 r4 True show ?thesis by (simp add: m)
  next
    case False
    with "6.prems" s1 r1 r2 v1 r4 have "r4 = r" by (auto split: if_splits)
    with len "6.prems"(2) m have "length r2 \<le> k + length r3" by simp
    with IH(1) "6.prems" False s1 r1 r2 v1 r4 show ?thesis by (auto simp: m split: if_splits)
  qed
qed simp_all

text \<open>So no larger bound parses more.\<close>

lemma json_parse_bound:
  "parse_value n s = Some (v, r) \<Longrightarrow> parse_value (length s) s = Some (v, r)"
  by (rule parse_enough(1)) simp_all

section \<open>Parsing undoes stringifying\<close>

lemma char_code_cases: "(of_char ch :: nat) = of_char ch' \<longleftrightarrow> ch = ch'"
  by simp

lemma hex_value_digit: "d < 16 \<Longrightarrow> hex_value (hex_digit d) = Some d"
  by (auto simp: hex_value_def hex_digit_def is_digit_def Let_def)

lemma backslash_quote [simp]: "BACKSLASH \<noteq> QUOTE" "QUOTE \<noteq> BACKSLASH"
  by (simp_all add: BACKSLASH_def QUOTE_def)

lemma parse_escape:
  "read_escape r = Some (s, r1) \<Longrightarrow> parse_string (BACKSLASH # r) = map_option (\<lambda>(t, r2). (s @ t, r2)) (parse_string r1)"
  by (simp add: BACKSLASH_def QUOTE_def)

lemma control_escape:
  assumes "n < 32"
  shows "read_escape (CHR ''u'' # CHR ''0'' # CHR ''0'' # hex_digit (n div 16) # hex_digit (n mod 16) # s) = Some ([char_of n], s)"
proof -
  have "hex4 (CHR ''0'') (CHR ''0'') (hex_digit (n div 16)) (hex_digit (n mod 16)) = Some n"
    using assms hex_value_digit [of "n div 16"] hex_value_digit [of "n mod 16"]
    by (simp add: hex4_def hex_value_def [of "CHR ''0''"] is_digit_def)
  with assms show ?thesis by (simp add: read_escape_def utf8_def)
qed

lemma simple_escapes:
  "simple_escape e = Some ch \<Longrightarrow> e \<noteq> CHR ''u'' \<Longrightarrow> read_escape (e # s) = Some ([ch], s)"
proof -
  assume e: "simple_escape e = Some ch" "e \<noteq> CHR ''u''"
  have "unit_escape (e # s) = None" using e(2) by (cases "e # s" rule: unit_escape.cases) auto
  with e show ?thesis by (simp add: read_escape_def)
qed

lemma named_escape:
  "escape_char ch = [BACKSLASH, e] \<Longrightarrow> simple_escape e = Some ch \<Longrightarrow> e \<noteq> CHR ''u'' \<Longrightarrow>
   parse_string (escape_char ch @ s) = map_option (\<lambda>(t, r). (ch # t, r)) (parse_string s)"
  by (simp add: parse_escape simple_escapes)

lemma escape_controls:
  fixes ch :: char
  shows "of_char ch = (8::nat) \<Longrightarrow> escape_char ch = [BACKSLASH, CHR ''b''] \<and> simple_escape (CHR ''b'') = Some ch"
    and "of_char ch = (9::nat) \<Longrightarrow> escape_char ch = [BACKSLASH, CHR ''t''] \<and> simple_escape (CHR ''t'') = Some ch"
    and "of_char ch = (10::nat) \<Longrightarrow> escape_char ch = [BACKSLASH, CHR ''n''] \<and> simple_escape (CHR ''n'') = Some ch"
    and "of_char ch = (12::nat) \<Longrightarrow> escape_char ch = [BACKSLASH, CHR ''f''] \<and> simple_escape (CHR ''f'') = Some ch"
    and "of_char ch = (13::nat) \<Longrightarrow> escape_char ch = [BACKSLASH, CHR ''r''] \<and> simple_escape (CHR ''r'') = Some ch"
  using char_code_cases [of ch "CHR 0x08"] char_code_cases [of ch "CHR 0x09"] char_code_cases [of ch "CHR 0x0A"] char_code_cases [of ch "CHR 0x0C"] char_code_cases [of ch "CHR 0x0D"]
  by (auto simp: escape_char_def simple_escape_def QUOTE_def BACKSLASH_def)

lemma parse_escape_char:
  "parse_string (escape_char ch @ s) = map_option (\<lambda>(t, r). (ch # t, r)) (parse_string s)"
proof -
  let ?n = "of_char ch :: nat"
  consider "ch = QUOTE \<or> ch = BACKSLASH" | "?n = 8" | "?n = 9" | "?n = 10" | "?n = 12" | "?n = 13"
    | "ch \<noteq> QUOTE" "ch \<noteq> BACKSLASH" "?n \<notin> {8, 9, 10, 12, 13}" "?n < 32" | "ch \<noteq> QUOTE" "ch \<noteq> BACKSLASH" "32 \<le> ?n"
    by fastforce
  then show ?thesis
  proof cases
    case 1
    then have "escape_char ch = [BACKSLASH, ch]" "simple_escape ch = Some ch" "ch \<noteq> CHR ''u''"
      by (auto simp: escape_char_def simple_escape_def QUOTE_def BACKSLASH_def)
    then show ?thesis by (simp add: parse_escape simple_escapes)
  next
    case 7
    then have "escape_char ch = [BACKSLASH, CHR ''u'', CHR ''0'', CHR ''0'', hex_digit (?n div 16), hex_digit (?n mod 16)]"
      by (auto simp: escape_char_def Let_def)
    with control_escape [OF 7(4), of s] show ?thesis by (simp add: parse_escape)
  next
    case 8
    then have "escape_char ch = [ch]" by (simp add: escape_char_def)
    with 8 show ?thesis by simp
  qed (auto dest!: escape_controls intro: named_escape)
qed

lemma parse_quoted: "parse_string (concat (map escape_char s) @ QUOTE # rest) = Some (s, rest)"
  by (induction s) (simp_all add: parse_escape_char)

lemma show_nat_digits: "ch \<in> set (show_nat n) \<Longrightarrow> is_digit ch"
proof (induction n rule: show_nat.induct)
  case (1 n)
  have "is_digit (digit_char d)" if "d < 10" for d
    using that by (simp add: is_digit_def of_char_digit_char)
  with 1 show ?case by (subst (asm) (2) show_nat.simps) (auto split: if_splits)
qed

lemma show_nat_nonempty: "show_nat n \<noteq> []"
  by (subst show_nat.simps) simp

lemma show_nat_leading: "hd (show_nat n) = CHR ''0'' \<longleftrightarrow> n = 0"
proof (induction n rule: show_nat.induct)
  case (1 n)
  have "digit_char d = CHR ''0'' \<longleftrightarrow> d = 0" if "d < 10" for d
    using of_char_digit_char [OF that] char_code_cases [of "digit_char d" "CHR ''0''"] by simp
  with 1 show ?case
    by (subst show_nat.simps) (auto simp: show_nat_nonempty)
qed

definition ends_value :: "string \<Rightarrow> bool" where
  "ends_value rest \<longleftrightarrow> rest = [] \<or> hd rest \<in> {CHR '','', CHR ''}'', CHR '']''}"

lemma digits_show_nat: "ends_value rest \<Longrightarrow> digits (show_nat n @ rest) = (show_nat n, rest)"
proof -
  assume "ends_value rest"
  then have "takeWhile is_digit rest = []" "dropWhile is_digit rest = rest"
    by (cases rest; auto simp: ends_value_def is_digit_def)+
  with show_nat_digits [of _ n] show ?thesis
    by (simp add: digits_def takeWhile_append2 dropWhile_append2)
qed

lemma ends_number: "ends_value rest \<Longrightarrow> parse_fraction rest = Some ([], rest) \<and> parse_exponent rest = Some (0, rest)"
  by (auto simp: ends_value_def parse_fraction_def parse_exponent_def)

lemma tl_show_nat_zero: "show_nat 0 = ''0''"
  by code_simp

lemma parse_show_nat:
  assumes "ends_value rest"
  shows "parse_number (show_nat n @ rest) = Some (JNum (int n), rest)"
    and "n > 0 \<Longrightarrow> parse_number (CHR ''-'' # show_nat n @ rest) = Some (JNum (- int n), rest)"
proof -
  have minus: "hd (show_nat n @ rest) \<noteq> CHR ''-''"
    using show_nat_digits [of "hd (show_nat n)" n] show_nat_nonempty [of n] by (auto simp: is_digit_def)
  note facts = digits_show_nat [OF assms] ends_number [OF assms] show_nat_nonempty show_nat_leading read_show_nat
  show "parse_number (show_nat n @ rest) = Some (JNum (int n), rest)"
  proof (cases "n = 0")
    case True
    then show ?thesis using digits_show_nat [OF assms, of 0] ends_number [OF assms]
      by (simp add: tl_show_nat_zero parse_number_def read_digits_def decimal_def)
  qed (use minus facts in \<open>simp add: parse_number_def decimal_def\<close>)
  show "parse_number (CHR ''-'' # show_nat n @ rest) = Some (JNum (- int n), rest)" if "n > 0"
    using that facts by (simp add: parse_number_def decimal_def)
qed

fun json_ok :: "js_value \<Rightarrow> bool" where
  "json_ok Undef = False"
| "json_ok (JReal s) = False"
| "json_ok (JArr vs) = list_all json_ok vs"
| "json_ok (JObj ps) = (distinct (map fst ps) \<and> list_all (\<lambda>p. json_ok (snd p)) ps)"
| "json_ok _ = True"

definition starts_value :: "string \<Rightarrow> bool" where
  "starts_value s \<longleftrightarrow> s \<noteq> [] \<and> \<not> is_ws (hd s) \<and> hd s \<notin> {CHR '']'', CHR ''}'', CHR '',''}"

lemma show_int_cases: "show_int n = show_nat (nat n) \<and> 0 \<le> n \<or> show_int n = CHR ''-'' # show_nat (nat (- n)) \<and> n < 0"
  by (simp add: show_int_def)

lemma digit_starts: "is_digit ch \<Longrightarrow> \<not> is_ws ch \<and> ch \<notin> {CHR '']'', CHR ''}'', CHR '','', CHR ''['', CHR ''{'', QUOTE}"
  by (auto simp: is_digit_def is_ws_def QUOTE_def)

lemma hd_show_nat: "is_digit (hd (show_nat n))"
  by (rule show_nat_digits [of _ n]) (simp add: show_nat_nonempty)

lemma stringify_starts: "json_ok v \<Longrightarrow> starts_value (json_stringify v)"
proof (cases v)
  case (JNum n)
  then show ?thesis
    using show_int_cases [of n] digit_starts [OF hd_show_nat, of "nat n"] show_nat_nonempty [of "nat n"]
    by (auto simp: starts_value_def is_ws_def)
qed (auto simp: starts_value_def is_ws_def json_quote_def QUOTE_def)

lemma skip_ws_starts: "starts_value s \<Longrightarrow> skip_ws (s @ rest) = s @ rest"
  by (cases s) (auto simp: starts_value_def skip_ws_def)

lemma comma_join_cons: "comma_join (x # xs) = (if xs = [] then x else x @ CHR '','' # comma_join xs)"
  by (cases xs) simp_all

lemma elements_empty: "json_elements vs = [] \<longleftrightarrow> vs = []"
  by (cases vs) simp_all

lemma members_empty: "list_all (\<lambda>p. json_ok (snd p)) ps \<Longrightarrow> json_members ps = [] \<longleftrightarrow> ps = []"
  by (cases ps; cases "hd ps") auto

lemma parse_number_value:
  assumes "ends_value rest" and "n \<ge> 1"
  shows "parse_value n (show_int m @ rest) = Some (JNum m, rest)"
proof -
  obtain k where n: "n = Suc k" using assms(2) by (cases n) auto
  have ok: "json_ok (JNum m)" by simp
  note starts = skip_ws_starts [OF stringify_starts [OF ok], of rest]
  from show_int_cases [of m] show ?thesis
  proof (elim disjE conjE)
    assume s: "show_int m = show_nat (nat m)" "0 \<le> m"
    obtain ch r where c: "show_nat (nat m) = ch # r" using show_nat_nonempty [of "nat m"] by (cases "show_nat (nat m)") auto
    with hd_show_nat [of "nat m"] have "is_digit ch" by simp
    with digit_starts [OF this] parse_show_nat(1) [OF assms(1), of "nat m"] starts s c show ?thesis
      by (simp add: n)
  next
    assume s: "show_int m = CHR ''-'' # show_nat (nat (- m))" "m < 0"
    with parse_show_nat(2) [OF assms(1), of "nat (- m)"] starts show ?thesis
      by (simp add: n QUOTE_def)
  qed
qed

lemma parse_words:
  "n \<ge> 1 \<Longrightarrow> parse_value n (''true'' @ rest) = Some (JBool True, rest)"
  "n \<ge> 1 \<Longrightarrow> parse_value n (''false'' @ rest) = Some (JBool False, rest)"
  "n \<ge> 1 \<Longrightarrow> parse_value n (''null'' @ rest) = Some (Null, rest)"
  by (cases n; simp add: skip_ws_def is_ws_def QUOTE_def is_digit_def parse_literal_def literals_def)+

lemma skip_ws_open: "\<not> is_ws ch \<Longrightarrow> skip_ws (ch # s) = ch # s"
  and not_ws: "\<not> is_ws (CHR '','')" "\<not> is_ws (CHR ''['')" "\<not> is_ws (CHR '']'')" "\<not> is_ws (CHR ''{'')"
    "\<not> is_ws (CHR ''}'')" "\<not> is_ws (CHR '':'')" "\<not> is_ws QUOTE"
  by (simp_all add: skip_ws_def is_ws_def QUOTE_def)

lemmas ws_simps = skip_ws_open not_ws

lemma open_not_quote [simp]: "CHR ''['' \<noteq> QUOTE" "CHR ''{'' \<noteq> QUOTE" "QUOTE \<noteq> CHR ''}''"
  by (simp_all add: QUOTE_def)

lemma parse_text:
  "json_ok v \<Longrightarrow> ends_value rest \<Longrightarrow> length (json_stringify v) \<le> n \<Longrightarrow>
   parse_value n (json_stringify v @ rest) = Some (v, rest)"
  "list_all json_ok vs \<Longrightarrow> vs \<noteq> [] \<Longrightarrow> length (comma_join (json_elements vs)) < n \<Longrightarrow>
   parse_elements n acc (comma_join (json_elements vs) @ CHR '']'' # rest) = Some (JArr (acc @ vs), rest)"
  "list_all (\<lambda>p. json_ok (snd p)) ps \<Longrightarrow> ps \<noteq> [] \<Longrightarrow> distinct (map fst (acc' @ ps)) \<Longrightarrow>
   length (comma_join (json_members ps)) < n \<Longrightarrow>
   parse_members n acc' (comma_join (json_members ps) @ CHR ''}'' # rest) = Some (JObj (acc' @ ps), rest)"
proof (induction v and vs and ps arbitrary: n rest and n acc rest and n acc' rest
    rule: json_stringify_json_elements_json_members.induct)
  case 2
  then show ?case using parse_words(3) [of n rest] by simp
next
  case (3 b)
  then show ?case using parse_words(1,2) [of n rest] by (auto split: if_splits)
next
  case (4 m)
  then have "n \<ge> 1" using stringify_starts [of "JNum m"] by (cases n) (auto simp: starts_value_def)
  with 4 show ?case by (simp add: parse_number_value)
next
  case (6 s)
  then obtain k where n: "n = Suc k" by (cases n) (auto simp: json_quote_def)
  show ?case using parse_quoted [of s rest]
    by (simp add: n json_quote_def ws_simps)
next
  case (7 vs)
  then obtain k where n: "n = Suc k" by (cases n) auto
  show ?case
  proof (cases "vs = []")
    case True
    then show ?thesis by (simp add: n ws_simps)
  next
    case False
    with 7 have e: "parse_elements k [] (comma_join (json_elements vs) @ CHR '']'' # rest) = Some (JArr vs, rest)"
      by (simp add: n)
    obtain x xs where vs: "vs = x # xs" using False by (cases vs) auto
    with 7 have "starts_value (json_stringify x)" by (simp add: stringify_starts)
    then have "skip_ws (comma_join (json_elements vs) @ CHR '']'' # rest) = comma_join (json_elements vs) @ CHR '']'' # rest"
      and "hd (comma_join (json_elements vs) @ CHR '']'' # rest) \<noteq> CHR '']''"
      using skip_ws_starts [of "json_stringify x"] by (auto simp: vs comma_join_cons starts_value_def)
    with e show ?thesis by (simp add: n ws_simps)
  qed
next
  case (8 ps)
  then obtain k where n: "n = Suc k" by (cases n) auto
  show ?case
  proof (cases "ps = []")
    case True
    then show ?thesis by (simp add: n ws_simps)
  next
    case False
    with 8 have e: "parse_members k [] (comma_join (json_members ps) @ CHR ''}'' # rest) = Some (JObj ps, rest)"
      by (simp add: n)
    obtain key x xs where ps: "ps = (key, x) # xs" using False by (cases ps) auto
    with 8 have "x \<noteq> Undef" by auto
    then obtain t where t: "comma_join (json_members ps) = QUOTE # t"
      by (cases "json_members xs = []") (simp_all add: ps comma_join_cons json_quote_def)
    then have "skip_ws (comma_join (json_members ps) @ CHR ''}'' # rest) = comma_join (json_members ps) @ CHR ''}'' # rest"
      by (simp add: ws_simps)
    with e t show ?thesis by (simp add: n ws_simps)
  qed
next
  case (10 v vs)
  then obtain k where n: "n = Suc k" by (cases n) auto
  show ?case
  proof (cases "vs = []")
    case True
    with 10 have "parse_value k (json_stringify v @ CHR '']'' # rest) = Some (v, CHR '']'' # rest)"
      by (simp add: n ends_value_def)
    with True show ?thesis by (simp add: n ws_simps)
  next
    case False
    let ?r = "comma_join (json_elements vs) @ CHR '']'' # rest"
    from False 10 have "parse_value k (json_stringify v @ CHR '','' # ?r) = Some (v, CHR '','' # ?r)"
      by (simp add: n ends_value_def comma_join_cons elements_empty)
    moreover from False 10 have "parse_elements k (acc @ [v]) ?r = Some (JArr (acc @ v # vs), rest)"
      by (simp add: n comma_join_cons elements_empty)
    ultimately show ?thesis using False
      by (simp add: n comma_join_cons elements_empty ws_simps)
  qed
next
  case (12 key v ps)
  then obtain k where n: "n = Suc k" by (cases n) auto
  from 12 have v: "v \<noteq> Undef" by auto
  have fresh: "js_map_set acc' key v = acc' @ [(key, v)]"
    using 12 by (simp add: js_map_set_fresh js_map_get_None_iff image_iff)
  show ?case
  proof (cases "ps = []")
    case True
    with 12 v have "parse_value k (json_stringify v @ CHR ''}'' # rest) = Some (v, CHR ''}'' # rest)"
      by (simp add: n ends_value_def)
    with True v fresh show ?thesis
      by (simp add: n ws_simps json_quote_def parse_quoted)
  next
    case False
    let ?r = "comma_join (json_members ps) @ CHR ''}'' # rest"
    from False 12 v have "parse_value k (json_stringify v @ CHR '','' # ?r) = Some (v, CHR '','' # ?r)"
      by (simp add: n ends_value_def comma_join_cons members_empty)
    moreover from False 12 v have "parse_members k (acc' @ [(key, v)]) ?r = Some (JObj (acc' @ (key, v) # ps), rest)"
      by (simp add: n comma_join_cons members_empty)
    ultimately show ?thesis using False 12 v fresh
      by (simp add: n comma_join_cons members_empty ws_simps json_quote_def parse_quoted)
  qed
qed (simp_all add: parse_words)

theorem json_roundtrip: "json_ok v \<Longrightarrow> json_parse (json_stringify v) = Some v"
  using parse_text(1) [of v "[]" "length (json_stringify v)"]
  by (simp add: json_parse_def ends_value_def skip_ws_def)

section \<open>No line breaks\<close>

lemma escape_char_printable: "ch' \<in> set (escape_char ch) \<Longrightarrow> 32 \<le> (of_char ch' :: nat)"
  by (auto simp: escape_char_def Let_def QUOTE_def BACKSLASH_def hex_digit_def split: if_splits)

definition printable :: "string \<Rightarrow> bool" where
  "printable s \<longleftrightarrow> list_all (\<lambda>ch. 32 \<le> (of_char ch :: nat)) s"

lemma printable_simps [simp]:
  "printable []"
  "printable (ch # s) \<longleftrightarrow> 32 \<le> (of_char ch :: nat) \<and> printable s"
  "printable (s @ t) \<longleftrightarrow> printable s \<and> printable t"
  by (simp_all add: printable_def)

lemma printable_quote: "printable (json_quote s)"
  by (auto simp: json_quote_def QUOTE_def printable_def list_all_iff dest: escape_char_printable)

lemma printable_show_nat: "printable (show_nat n)"
  using show_nat_digits [of _ n] by (force simp: printable_def list_all_iff is_digit_def)

lemma printable_comma_join: "list_all printable xs \<Longrightarrow> printable (comma_join xs)"
  by (induction xs rule: comma_join.induct) simp_all

fun reals_printable :: "js_value \<Rightarrow> bool" where
  "reals_printable (JReal s) = printable s"
| "reals_printable (JArr vs) = list_all reals_printable vs"
| "reals_printable (JObj ps) = list_all (\<lambda>p. reals_printable (snd p)) ps"
| "reals_printable _ = True"

lemma printable_text:
  "reals_printable v \<Longrightarrow> printable (json_stringify v)"
  "list_all reals_printable vs \<Longrightarrow> list_all printable (json_elements vs)"
  "list_all (\<lambda>p. reals_printable (snd p)) ps \<Longrightarrow> list_all printable (json_members ps)"
  by (induction v and vs and ps rule: json_stringify_json_elements_json_members.induct)
    (auto simp: printable_quote printable_show_nat show_int_def printable_comma_join)

lemma printable_replicate: "printable [ch] \<Longrightarrow> printable (replicate n ch)"
  by (simp add: printable_def list_all_iff)

lemma decimal_printable: "reals_printable (decimal neg m k)"
  by (auto simp: decimal_def Let_def printable_show_nat intro!: printable_replicate split: prod.splits)

lemma parse_number_printable: "parse_number s = Some (v, r) \<Longrightarrow> reals_printable v"
  by (auto simp: parse_number_def Let_def decimal_printable split: prod.splits option.splits if_splits)

lemma parse_literal_printable: "parse_literal s = Some (v, r) \<Longrightarrow> reals_printable v"
  by (auto simp: parse_literal_def literals_def split: if_splits)

lemma reals_printable_set:
  "list_all (\<lambda>p. reals_printable (snd p)) ps \<Longrightarrow> reals_printable v \<Longrightarrow>
   list_all (\<lambda>p. reals_printable (snd p)) (js_map_set ps k v)"
  by (induction ps k v rule: js_map_set.induct) auto

lemma parse_printable:
  "parse_value n s = Some (v, r) \<Longrightarrow> reals_printable v"
  "list_all reals_printable acc \<Longrightarrow> parse_elements n acc s = Some (v, r) \<Longrightarrow> reals_printable v"
  "list_all (\<lambda>p. reals_printable (snd p)) acc' \<Longrightarrow> parse_members n acc' s = Some (v, r) \<Longrightarrow> reals_printable v"
proof (induction n s and n acc s and n acc' s arbitrary: v r and v r and v r
    rule: parse_value_parse_elements_parse_members.induct)
  case (2 n s)
  obtain ch r1 where s: "skip_ws s = ch # r1" using "2.prems" by (cases "skip_ws s") auto
  from "2.prems" s "2.IH"(1)[OF s] "2.IH"(2)[OF s] show ?case
    by (auto split: if_splits dest: parse_number_printable parse_literal_printable)
next
  case (4 n acc s)
  from "4.prems" obtain v1 r1 where v1: "parse_value n s = Some (v1, r1)" by (auto split: option.splits)
  with "4.prems" obtain ch r2 where r2: "skip_ws r1 = ch # r2" by (auto split: list.splits)
  from "4.IH"(1)[OF v1] have ok: "list_all reals_printable (acc @ [v1])" using "4.prems"(1) by simp
  show ?case
  proof (cases "ch = CHR '',''")
    case True
    with "4.prems"(2) v1 r2 have "parse_elements n (acc @ [v1]) r2 = Some (v, r)" by simp
    from "4.IH"(2)[OF v1 refl r2 True ok this] show ?thesis .
  qed (use "4.prems" v1 r2 ok in \<open>auto split: if_splits\<close>)
next
  case (6 n acc s)
  from "6.prems" obtain q s1 where s1: "skip_ws s = q # s1" "q = QUOTE" by (auto split: list.splits if_splits)
  with "6.prems" obtain key r1 where r1: "parse_string s1 = Some (key, r1)" by (auto split: option.splits)
  with "6.prems" s1 obtain colon r2 where r2: "skip_ws r1 = colon # r2" "colon = CHR '':''"
    by (auto split: list.splits if_splits)
  with "6.prems" s1 r1 obtain v1 r3 where v1: "parse_value n r2 = Some (v1, r3)" by (auto split: option.splits)
  with "6.prems" s1 r1 r2 obtain ch r4 where r4: "skip_ws r3 = ch # r4" by (auto split: list.splits)
  note IH = "6.IH"(1)[OF s1(1) _ r1 refl r2(1) _ v1] "6.IH"(2)[OF s1(1) _ r1 refl r2(1) _ v1 refl r4]
  have ok: "list_all (\<lambda>p. reals_printable (snd p)) (js_map_set acc key v1)"
    using reals_printable_set [OF "6.prems"(1)] IH(1) s1 r2 by simp
  show ?case
  proof (cases "ch = CHR '',''")
    case True
    with "6.prems"(2) s1 r1 r2 v1 r4 have "parse_members n (js_map_set acc key v1) r4 = Some (v, r)" by simp
    with IH(2) ok s1 r2 True show ?thesis by simp
  qed (use "6.prems" s1 r1 r2 v1 r4 ok in \<open>auto split: if_splits\<close>)
qed simp_all

lemma json_parse_printable: "json_parse s = Some v \<Longrightarrow> reals_printable v"
  by (auto simp: json_parse_def split: option.splits prod.splits if_splits dest: parse_printable(1))

end
