(* ===== verification/Sse_Properties.thy ===== *)
theory Sse_Properties
  imports Sse_Http Json_Roundtrip Bus_Effects
begin

text \<open>
  The properties of the SSE cluster: who receives a message, that every connection has queues of its own, what
  reaches the stream, the answers of the server and the life of a connection. The cluster runs on the in-process
  bus, whose laws carry the proofs.
\<close>

section \<open>Routing\<close>

lemma routingKeyFor_target: "routingKeyFor (target scope uid) = scope_text scope @ CHR ''.'' # uid"
  by (simp add: routingKeyFor_def target_def)

lemma routingKeyFor_nonempty [simp]: "routingKeyFor (target scope uid) \<noteq> []"
  by (simp add: routingKeyFor_target)

lemma scope_text_no_dot: "CHR ''.'' \<notin> set (scope_text scope)"
  by (cases scope) simp_all

lemma routingKeyFor_words: "split_on CHR ''.'' (routingKeyFor (target scope uid)) = scope_text scope # split_on CHR ''.'' uid"
  by (simp add: routingKeyFor_target split_on_append scope_text_no_dot)

lemma scope_text_inject [simp]: "scope_text scope = scope_text scope' \<longleftrightarrow> scope = scope'"
  by (cases scope; cases scope') simp_all

lemma routingKeyFor_inject [simp]:
  "routingKeyFor (target scope uid) = routingKeyFor (target scope' uid') \<longleftrightarrow> scope = scope' \<and> uid = uid'"
  by (metis routingKeyFor_words list.inject scope_text_inject split_on_inject)

lemma wildcard_free_key: "wildcard_free uid \<Longrightarrow> wildcard_free (routingKeyFor (target scope uid))"
  by (cases scope) (auto simp: wildcard_free_def routingKeyFor_words)

lemma topicMatch_target:
  "wildcard_free uid \<Longrightarrow> topicMatch (routingKeyFor (target scope uid)) key \<longleftrightarrow> key = routingKeyFor (target scope uid)"
  using topicMatch_literal [OF wildcard_free_key] by auto

text \<open>C33. The routing keys isolate users and organisations: a stream takes a message exactly when scope and id are
its own, for every id without a wildcard word. But an id is not checked for wildcards: the stream of the user \<open>#\<close>
takes the direct messages of every user.\<close>

theorem sse_isolation:
  assumes "wildcard_free uid"
  shows "(topicMatch (routingKeyFor (target scope uid)) (routingKeyFor (target scope' uid')) \<longleftrightarrow> scope = scope' \<and> uid = uid') \<and>
    topicMatch (routingKeyFor (target ScopeUser ''#'')) (routingKeyFor (target ScopeUser uid'))"
proof
  show "topicMatch (routingKeyFor (target scope uid)) (routingKeyFor (target scope' uid')) \<longleftrightarrow> scope = scope' \<and> uid = uid'"
    using topicMatch_target [OF assms] by auto
  have "matches_words (split_on CHR ''.'' ''#'') ws" for ws
    by (simp add: matches_words_hash) (metis order_refl)
  then show "topicMatch (routingKeyFor (target ScopeUser ''#'')) (routingKeyFor (target ScopeUser uid'))"
    by (simp add: topicMatch_words routingKeyFor_words matches_words_step)
qed

theorem sse_isolation_witness:
  "\<not> topicMatch (routingKeyFor (target ScopeUser ''bob'')) (routingKeyFor (target ScopeUser ''alice''))"
proof -
  have "wildcard_free ''bob''" by code_simp
  from sse_isolation [OF this, of ScopeUser ScopeUser "''alice''"] show ?thesis by simp
qed

section \<open>Queues of a connection\<close>

lemma pump_empty: "qr < length (b_objs b) \<Longrightarrow> bq_pending (q_at b qr) = [] \<Longrightarrow> q_at (pump qr b) qr' = q_at b qr'"
  by (simp add: pump_at pump_queue.simps [of "q_at b qr"])

lemma subscribe_fresh:
  fixes h :: handler
  assumes "b_queues b (bus_key topic sid) = None" and "so_subscriberId opts = Some sid" and "so_streamReplay opts = None"
  defines "b' \<equiv> fst (subscribe topic h opts b)" and "n \<equiv> length (b_objs b)"
  shows "snd (subscribe topic h opts b) = (n, h)"
    and "length (b_objs b') = Suc n"
    and "\<forall>qr < n. q_at b' qr = q_at b qr"
    and "bq_consumers (q_at b' n) = [h]" and "bq_kind (q_at b' n) = coalesce (so_kind opts) Topic"
    and "bq_routingKey (q_at b' n) = so_routingKey opts"
    and "b_queues b' = (b_queues b)(bus_key topic sid \<mapsto> n)"
    and "b_byTopic b' = (b_byTopic b)(topic \<mapsto> coalesce (b_byTopic b topic) [] @ [n])"
    and "b_microtasks b' = b_microtasks b"
    and "q_at b' n = (mk_queue topic (coalesce (so_kind opts) Topic) (so_routingKey opts)
      (coalesce (so_maxDeliveries opts) DEFAULT_MAX_DELIVERIES) (coalesce (so_deadLetter opts) False)
      (so_retryDelayMs opts) (coalesce (so_partitionByGroup opts) False)
      (coalesce (so_singleActiveConsumer opts) False))\<lparr>bq_consumers := [h]\<rparr>"
proof -
  define b1 where "b1 = add_consumer n h (create_queue topic (bus_key topic sid) opts b)"
  have s: "subscribe topic h opts b = (pump n b1, (n, h))"
    using assms(1,2) by (simp add: subscribe_def b1_def n_def)
  have len: "length (b_objs b1) = Suc n"
    by (simp add: b1_def add_consumer_def set_queue_def create_queue_def assms(3) n_def Let_def)
  have q: "q_at b1 qr = (if qr = n then (mk_queue topic (coalesce (so_kind opts) Topic) (so_routingKey opts)
      (coalesce (so_maxDeliveries opts) DEFAULT_MAX_DELIVERIES) (coalesce (so_deadLetter opts) False)
      (so_retryDelayMs opts) (coalesce (so_partitionByGroup opts) False)
      (coalesce (so_singleActiveConsumer opts) False))\<lparr>bq_consumers := [h]\<rparr> else q_at b qr)" if "qr \<le> n" for qr
    using that by (auto simp: b1_def add_consumer_def set_queue_def create_queue_def assms(3) n_def Let_def q_at_def nth_append
        mk_queue_def nth_update_if)
  have keep: "q_at (pump n b1) qr = q_at b1 qr" for qr
    by (rule pump_empty) (simp_all add: len q [OF order_refl] mk_queue_def)
  have "pump_queue (q_at b1 n) = (q_at b1 n, [])"
    by (simp add: pump_queue.simps [of "q_at b1 n"]) (simp add: q [OF order_refl] mk_queue_def)
  then have micro: "b_microtasks (pump n b1) = b_microtasks b"
    by (simp add: pump_microtasks)
      (simp add: b1_def add_consumer_def set_queue_def create_queue_def assms(3) Let_def)
  show "snd (subscribe topic h opts b) = (n, h)" and "length (b_objs b') = Suc n"
    and "\<forall>qr < n. q_at b' qr = q_at b qr"
    and "bq_consumers (q_at b' n) = [h]" and "bq_kind (q_at b' n) = coalesce (so_kind opts) Topic"
    and "bq_routingKey (q_at b' n) = so_routingKey opts"
    and "b_queues b' = (b_queues b)(bus_key topic sid \<mapsto> n)"
    and "b_byTopic b' = (b_byTopic b)(topic \<mapsto> coalesce (b_byTopic b topic) [] @ [n])"
    and "b_microtasks b' = b_microtasks b"
    and "q_at b' n = (mk_queue topic (coalesce (so_kind opts) Topic) (so_routingKey opts)
      (coalesce (so_maxDeliveries opts) DEFAULT_MAX_DELIVERIES) (coalesce (so_deadLetter opts) False)
      (so_retryDelayMs opts) (coalesce (so_partitionByGroup opts) False)
      (coalesce (so_singleActiveConsumer opts) False))\<lparr>bq_consumers := [h]\<rparr>"
    by (simp_all add: b'_def s len keep q mk_queue_def micro)
      (simp_all add: b1_def add_consumer_def set_queue_def create_queue_def assms(3) n_def Let_def)
qed

abbreviation bus_of :: "InMemoryScheduler Cluster \<Rightarrow> Bus" where
  "bus_of c \<equiv> is_bus (cl_bus c)"

lemma bmp_subscribe_memory:
  assumes "subscribe SSE_CHANNEL h (transient_options key (subscriber_id inst key (now (cl_bus c)) (cl_seq c inst))) (bus_of c)
    = (b', sub)"
  shows "bmp_subscribe memory_adapter inst now key h c =
    (Inr sub, c\<lparr>cl_seq := (cl_seq c)(inst := Suc (cl_seq c inst)), cl_bus := (cl_bus c)\<lparr>is_bus := b'\<rparr>\<rparr>)"
  using assms by (simp add: bmp_subscribe_def memory_adapter_def is_subscribe_def returns_def Let_def)

text \<open>A subscription on the broker: a queue of the channel that filters on its key and has no other consumer.\<close>

definition key_bound :: "InMemoryScheduler Cluster \<Rightarrow> nat \<times> handler \<Rightarrow> string \<Rightarrow> handler \<Rightarrow> bool" where
  "key_bound c sub key h \<longleftrightarrow>
     (let b = bus_of c; qr = fst sub
      in snd sub = h \<and> qr < length (b_objs b) \<and> qr \<in> set (coalesce (b_byTopic b SSE_CHANNEL) []) \<and>
         bq_kind (q_at b qr) = Topic \<and> bq_routingKey (q_at b qr) = Some key \<and> bq_consumers (q_at b qr) = [h])"

definition stream_bound :: "Bus \<Rightarrow> nat \<Rightarrow> Scope \<Rightarrow> string \<Rightarrow> nat \<Rightarrow> bool" where
  "stream_bound b qr scope uid k \<longleftrightarrow>
     qr < length (b_objs b) \<and> qr \<in> set (coalesce (b_byTopic b SSE_CHANNEL) []) \<and> bq_kind (q_at b qr) = Topic \<and>
     bq_routingKey (q_at b qr) = Some (routingKeyFor (target scope uid)) \<and>
     bq_consumers (q_at b qr) = [sink_handler k scope]"

lemma key_bound_stream:
  "key_bound c (qr, sink_handler k scope) (routingKeyFor (target scope uid)) (sink_handler k scope) =
     stream_bound (bus_of c) qr scope uid k"
  by (simp add: key_bound_def stream_bound_def Let_def)

text \<open>No queue has a subscriber id that an instance has yet to give out; names of instances have no dots.\<close>

definition ids_unused :: "InMemoryScheduler Cluster \<Rightarrow> bool" where
  "ids_unused c \<longleftrightarrow> (\<forall>inst key now seq. CHR ''.'' \<notin> set inst \<and> cl_seq c inst \<le> seq \<longrightarrow>
     b_queues (bus_of c) (bus_key SSE_CHANNEL (subscriber_id inst key now seq)) = None)"

lemma split_on_tail: "tl (split_on ch (s @ ch # w)) \<noteq> []"
proof (induction s)
  case (Cons x s)
  then show ?case by (cases "split_on ch (s @ ch # w)") auto
qed simp

lemma last_split_on: "ch \<notin> set w \<Longrightarrow> last (split_on ch (s @ ch # w)) = w"
proof (induction s)
  case Nil
  then show ?case by (simp add: split_on_no_sep)
next
  case (Cons x s)
  have "tl (split_on ch (s @ ch # w)) \<noteq> []" by (rule split_on_tail)
  with Cons show ?case by (cases "split_on ch (s @ ch # w)") auto
qed

lemma show_nat_no_dot: "CHR ''.'' \<notin> set (show_nat n)"
  using show_nat_digits [of "CHR ''.''" n] by (auto simp: is_digit_def)

lemma subscriber_id_inject:
  assumes "CHR ''.'' \<notin> set inst" and "CHR ''.'' \<notin> set inst'"
    and eq: "subscriber_id inst key now seq = subscriber_id inst' key' now' seq'"
  shows "inst = inst' \<and> seq = seq'"
proof
  have "hd (split_on CHR ''.'' (subscriber_id inst key now seq)) = inst" if "CHR ''.'' \<notin> set inst" for inst key now seq
    using that by (simp add: subscriber_id_def split_on_append)
  with assms show "inst = inst'" by metis
  have "last (split_on CHR ''.'' (subscriber_id inst key now seq)) = show_nat seq" for inst key now seq
    using last_split_on [OF show_nat_no_dot, of "inst @ ''.'' @ key @ ''.'' @ show_int now" seq]
    by (simp add: subscriber_id_def)
  with eq show "seq = seq'" by (metis show_nat_inject)
qed

lemma bus_key_channel: "bus_key SSE_CHANNEL s = bus_key SSE_CHANNEL s' \<longleftrightarrow> s = s'"
  by (simp add: bus_key_def)

lemma bmp_subscribe_fresh:
  assumes fresh: "ids_unused c" and inst: "CHR ''.'' \<notin> set inst"
  defines "n \<equiv> length (b_objs (bus_of c))"
  shows "\<exists>c'. bmp_subscribe memory_adapter inst now key h c = (Inr (n, h), c') \<and> ids_unused c' \<and>
    length (b_objs (bus_of c')) = Suc n \<and> (\<forall>qr < n. q_at (bus_of c') qr = q_at (bus_of c) qr) \<and>
    set (coalesce (b_byTopic (bus_of c) SSE_CHANNEL) []) \<subseteq> set (coalesce (b_byTopic (bus_of c') SSE_CHANNEL) []) \<and>
    key_bound c' (n, h) key h"
proof -
  let ?sid = "subscriber_id inst key (now (cl_bus c)) (cl_seq c inst)"
  let ?s = "subscribe SSE_CHANNEL h (transient_options key ?sid) (bus_of c)"
  obtain b' sub where s: "?s = (b', sub)" by (cases ?s)
  have free: "b_queues (bus_of c) (bus_key SSE_CHANNEL ?sid) = None"
    using fresh inst by (simp add: ids_unused_def)
  have opts: "so_subscriberId (transient_options key ?sid) = Some ?sid" "so_streamReplay (transient_options key ?sid) = None"
    by (simp_all add: transient_options_def no_subscribe_options_def)
  note f = subscribe_fresh [OF free opts, where h = h, unfolded s, simplified, folded n_def]
  define c' where "c' = c\<lparr>cl_seq := (cl_seq c)(inst := Suc (cl_seq c inst)), cl_bus := (cl_bus c)\<lparr>is_bus := b'\<rparr>\<rparr>"
  have "bmp_subscribe memory_adapter inst now key h c = (Inr (n, h), c')"
    using bmp_subscribe_memory [of h key inst now c b' sub, OF s] f(1) by (simp add: c'_def)
  moreover have "ids_unused c'"
    unfolding ids_unused_def
  proof (intro allI impI)
    fix inst' key' now' seq
    assume a: "CHR ''.'' \<notin> set inst' \<and> cl_seq c' inst' \<le> seq"
    then have "cl_seq c inst' \<le> seq" by (simp add: c'_def split: if_splits)
    moreover have "subscriber_id inst' key' now' seq \<noteq> ?sid"
      using subscriber_id_inject [OF conjunct1 [OF a] inst, of key' now' seq] a by (auto simp: c'_def)
    ultimately show "b_queues (bus_of c') (bus_key SSE_CHANNEL (subscriber_id inst' key' now' seq)) = None"
      using fresh a f(7) by (simp add: ids_unused_def c'_def bus_key_channel)
  qed
  moreover have "key_bound c' (n, h) key h"
    using f by (simp add: key_bound_def c'_def transient_options_def Let_def)
  ultimately show ?thesis using f by (auto simp: c'_def)
qed

lemma bindScope_memory:
  assumes "ids_unused c" and "CHR ''.'' \<notin> set inst"
  defines "n \<equiv> length (b_objs (bus_of c))"
  shows "\<exists>c'. bindScope (BusMessagePort memory_adapter inst now) scope uid k c = (Inr (n, sink_handler k scope), c') \<and> ids_unused c' \<and>
    length (b_objs (bus_of c')) = Suc n \<and> (\<forall>qr < n. q_at (bus_of c') qr = q_at (bus_of c) qr) \<and>
    set (coalesce (b_byTopic (bus_of c) SSE_CHANNEL) []) \<subseteq> set (coalesce (b_byTopic (bus_of c') SSE_CHANNEL) []) \<and>
    stream_bound (bus_of c') n scope uid k"
  using bmp_subscribe_fresh [OF assms(1,2), of now "routingKeyFor (target scope uid)" "sink_handler k scope"]
  by (simp add: bindScope_def n_def key_bound_stream)

text \<open>A connection gets two queues of its own, one for the user and one for the organisation, each with the
connection's handler as its only consumer, whatever streams there are on any instance; queues of earlier
subscriptions stay as they are, and the ids the instances give out stay unused.\<close>

theorem sse_connect_exclusive:
  assumes "ids_unused c" and "CHR ''.'' \<notin> set inst"
  shows "\<exists>u v c'. hub_connect (BusMessagePort memory_adapter inst now) userId orgId k c = (Inr (u, v), c') \<and>
    fst u \<noteq> fst v \<and> length (b_objs (bus_of c)) \<le> fst u \<and> length (b_objs (bus_of c)) \<le> fst v \<and>
    stream_bound (bus_of c') (fst u) ScopeUser userId k \<and> stream_bound (bus_of c') (fst v) ScopeOrg orgId k \<and>
    (\<forall>qr < length (b_objs (bus_of c)). q_at (bus_of c') qr = q_at (bus_of c) qr) \<and> ids_unused c'"
proof -
  let ?n = "length (b_objs (bus_of c))"
  obtain c1 where c1: "bindScope (BusMessagePort memory_adapter inst now) ScopeUser userId k c = (Inr (?n, sink_handler k ScopeUser), c1)"
    "ids_unused c1" "length (b_objs (bus_of c1)) = Suc ?n" "\<forall>qr < ?n. q_at (bus_of c1) qr = q_at (bus_of c) qr"
    "stream_bound (bus_of c1) ?n ScopeUser userId k"
    using bindScope_memory [OF assms, of now ScopeUser userId k] by auto
  obtain c2 where c2: "bindScope (BusMessagePort memory_adapter inst now) ScopeOrg orgId k c1 = (Inr (Suc ?n, sink_handler k ScopeOrg), c2)"
    "ids_unused c2" "length (b_objs (bus_of c2)) = Suc (Suc ?n)"
    "\<forall>qr < Suc ?n. q_at (bus_of c2) qr = q_at (bus_of c1) qr"
    "set (coalesce (b_byTopic (bus_of c1) SSE_CHANNEL) []) \<subseteq> set (coalesce (b_byTopic (bus_of c2) SSE_CHANNEL) [])"
    "stream_bound (bus_of c2) (Suc ?n) ScopeOrg orgId k"
    using bindScope_memory [OF c1(2) assms(2), of now ScopeOrg orgId k] c1(3) by auto
  have "stream_bound (bus_of c2) ?n ScopeUser userId k"
    using c1(5) c2 by (auto simp: stream_bound_def)
  with c1 c2 show ?thesis by (auto simp: hub_connect_def)
qed

definition empty_cluster :: "InMemoryScheduler Cluster" where
  "empty_cluster = \<lparr>cl_bus = is_init, cl_seq = (\<lambda>_. 0)\<rparr>"

lemma ids_unused_empty: "ids_unused empty_cluster"
  by (simp add: ids_unused_def empty_cluster_def is_init_def empty_bus_def)

theorem sse_connect_exclusive_witness:
  "\<exists>u v c'. hub_connect (BusMessagePort memory_adapter ''inst-7001'' is_now) ''alice'' ''acme'' 0 empty_cluster = (Inr (u, v), c') \<and>
     fst u \<noteq> fst v \<and> stream_bound (bus_of c') (fst u) ScopeUser ''alice'' 0"
proof -
  have "CHR ''.'' \<notin> set ''inst-7001''" by simp
  from sse_connect_exclusive [OF ids_unused_empty this] show ?thesis by blast
qed

section \<open>From a request to a stream\<close>

lemma hub_publish_memory:
  "hub_publish (BusMessagePort memory_adapter inst now) inst at intent c = (Inr (routingKeyFor (pi_to intent)),
     c\<lparr>cl_bus := (cl_bus c)\<lparr>is_bus := publish SSE_CHANNEL (json_stringify (envelope_of inst at intent))
       (Some (routingKeyFor (pi_to intent))) None (bus_of c)\<rparr>\<rparr>)"
  by (simp add: hub_publish_def bmp_publish_def memory_adapter_def returns_def is_publish_def Let_def)

lemma js_prop_simps [simp]:
  "js_prop key (JObj []) = Undef"
  "js_prop key (JObj ((key', v) # ps)) = (if key' = key then v else js_prop key (JObj ps))"
  by simp_all

definition publish_body :: "js_value \<Rightarrow> js_value \<Rightarrow> js_value \<Rightarrow> js_value" where
  "publish_body to from text = JObj [(''to'', to), (''from'', from), (''text'', text)]"

definition intent_of :: "js_value \<Rightarrow> js_value \<Rightarrow> js_value \<Rightarrow> PublishIntent" where
  "intent_of to from text = \<lparr>pi_to = to, pi_from = or_default from ''anon'', pi_text = or_default text []\<rparr>"

definition post_publish :: "js_value \<Rightarrow> Request" where
  "post_publish body = \<lparr>rq_method = ''POST'', rq_url = Some (''/publish'', []), rq_body = Inr (json_stringify body)\<rparr>"

lemma json_ok_or_default: "json_ok v \<Longrightarrow> json_ok (or_default v d)"
  by (simp add: or_default_def nullish_def)

lemma json_ok_envelope:
  "json_ok from \<Longrightarrow> json_ok text \<Longrightarrow> json_ok to \<Longrightarrow> json_ok (envelope_of inst at (intent_of to from text))"
  by (simp add: envelope_of_def SseEnvelope_def intent_of_def json_ok_or_default)

lemma json_ok_target [simp]: "json_ok (target scope uid)"
  by (simp add: target_def)

lemma published_body: "published_as topic body key opts m \<Longrightarrow> bm_body m = body"
  unfolding published_as_def by (drule arg_cong [of _ _ bm_body]) (simp add: mk_message_def)

lemma serve_post_publish:
  assumes "json_ok from" and "json_ok text" and "uid \<noteq> []"
    and pub: "pub (intent_of (target scope uid) from text) c = (Inr key, c')"
  shows "serve inst html connect pub (post_publish (publish_body (target scope uid) from text)) c =
    (setCors @ [WriteHead 202 [(''content-type'', ''application/json'')],
       EndWith (Some (json_stringify (JObj [(''accepted'', JBool True), (''routingKey'', JStr key), (''via'', JStr inst)])))], c')"
proof -
  have body: "json_parse (json_stringify (publish_body (target scope uid) from text)) = Some (publish_body (target scope uid) from text)"
    using assms(1,2) by (intro json_roundtrip) (simp add: publish_body_def)
  have "truthy (js_prop ''type'' (target scope uid))" "truthy (js_prop ''id'' (target scope uid))"
    using assms(3) by (cases scope; simp add: target_def)+
  with body pub show ?thesis
    by (simp add: serve_def handle_def post_publish_def handlePublish_def publish_body_def intent_of_def del: js_prop.simps)
qed

lemma deliver_envelope:
  assumes "json_ok v" and "rm_body m = json_stringify v"
  shows "deliver_frame scope inst m = sink_send http_sink (SseFrame scope inst v)"
  using assms by (simp add: deliver_frame_def frame_of_def hub_parse_def json_roundtrip)

text \<open>A message posted to any instance reaches the streams it is addressed to, on every instance, and no other:
the answer is 202, and a stream's queue gets one message exactly when scope and id are the target's; what the stream
writes for that message is a frame with the posted envelope, unchanged.\<close>

theorem sse_post_delivers:
  assumes "reachable (bus_of c)" and "stream_bound (bus_of c) qr scope uid k" and "wildcard_free uid"
    and "json_ok from" and "json_ok text" and "uid' \<noteq> []"
  shows "\<exists>body c'. serve inst html connect (hub_publish (BusMessagePort memory_adapter inst now) inst at)
        (post_publish (publish_body (target scope' uid') from text)) c =
      (setCors @ [WriteHead 202 [(''content-type'', ''application/json'')], EndWith (Some body)], c') \<and>
    (if scope' = scope \<and> uid' = uid
     then \<exists>m. held (q_at (bus_of c') qr) = add_mset m (held (q_at (bus_of c) qr)) \<and>
       deliver_frame scope inst2 (wrap m) = sink_send http_sink (SseFrame scope inst2 (envelope_of inst at (intent_of (target scope' uid') from text)))
     else held (q_at (bus_of c') qr) = held (q_at (bus_of c) qr))"
proof -
  let ?intent = "intent_of (target scope' uid') from text" and ?key = "routingKeyFor (target scope' uid')"
  let ?body = "json_stringify (envelope_of inst at ?intent)"
  define c' where "c' = c\<lparr>cl_bus := (cl_bus c)\<lparr>is_bus := publish SSE_CHANNEL ?body (Some ?key) None (bus_of c)\<rparr>\<rparr>"
  have "hub_publish (BusMessagePort memory_adapter inst now) inst at ?intent c = (Inr ?key, c')"
    by (simp add: hub_publish_memory c'_def intent_of_def)
  note served = serve_post_publish [where pub = "hub_publish (BusMessagePort memory_adapter inst now) inst at", OF assms(4,5,6) this, of inst html connect]
  have hit: "matches (q_at (bus_of c) qr) ?key \<longleftrightarrow> scope' = scope \<and> uid' = uid"
    using assms(2,3) by (auto simp: stream_bound_def matches_def topicMatch_target)
  have "\<not> is_duplicate None (bus_of c)" by (simp add: is_duplicate_def opt_field_def)
  note held = publish_held [OF reachable_bus_ok [OF assms(1)] this, of qr SSE_CHANNEL "Some ?key" ?body]
  show ?thesis
  proof (cases "scope' = scope \<and> uid' = uid")
    case True
    with hit assms(2) held obtain m where m: "published_as SSE_CHANNEL ?body ?key None m"
      "held (q_at (bus_of c') qr) = add_mset m (held (q_at (bus_of c) qr))"
      by (auto simp: stream_bound_def c'_def)
    from m(1) have "bm_body m = ?body" by (rule published_body)
    then have "deliver_frame scope inst2 (wrap m) = sink_send http_sink (SseFrame scope inst2 (envelope_of inst at ?intent))"
      using assms(4,5) by (intro deliver_envelope json_ok_envelope) (simp_all add: wrap_def)
    with m(2) served True show ?thesis by auto
  next
    case False
    with hit held have "held (q_at (bus_of c') qr) = held (q_at (bus_of c) qr)" by (simp add: c'_def)
    with served False show ?thesis by auto
  qed
qed

definition alice_cluster :: "InMemoryScheduler Cluster" where
  "alice_cluster = snd (hub_connect (BusMessagePort memory_adapter ''inst-7001'' is_now) ''alice'' ''acme'' 0 empty_cluster)"

lemma subscribe_reachable: "reachable b \<Longrightarrow> reachable (fst (subscribe t h opts b))"
  by (rule reachable.step [OF _ bus_step.subscribe])

lemma bmp_subscribe_reachable:
  "reachable (bus_of c) \<Longrightarrow> reachable (bus_of (snd (bmp_subscribe memory_adapter inst now key h c)))"
  by (auto simp: bmp_subscribe_def memory_adapter_def is_subscribe_def returns_def Let_def
      dest: subscribe_reachable split: prod.splits) (metis fst_conv subscribe_reachable)

lemma hub_connect_reachable:
  "reachable (bus_of c) \<Longrightarrow> reachable (bus_of (snd (hub_connect (BusMessagePort memory_adapter inst now) userId orgId k c)))"
proof -
  assume c: "reachable (bus_of c)"
  obtain r1 c1 where 1: "bindScope (BusMessagePort memory_adapter inst now) ScopeUser userId k c = (r1, c1)" by (meson surj_pair)
  obtain r2 c2 where 2: "bindScope (BusMessagePort memory_adapter inst now) ScopeOrg orgId k c1 = (r2, c2)" by (meson surj_pair)
  note bind = bmp_subscribe_reachable [where inst = inst and now = now]
  have c1: "reachable (bus_of c1)"
    using bind [OF c, of "routingKeyFor (target ScopeUser userId)" "sink_handler k ScopeUser"] 1 by (simp add: bindScope_def)
  moreover have "reachable (bus_of c2)"
    using bind [OF c1, of "routingKeyFor (target ScopeOrg orgId)" "sink_handler k ScopeOrg"] 2 by (simp add: bindScope_def)
  ultimately show ?thesis using 1 2 by (simp add: hub_connect_def split: sum.split)
qed

lemma alice_reachable: "reachable (bus_of alice_cluster)"
  unfolding alice_cluster_def
  by (rule hub_connect_reachable) (simp add: empty_cluster_def is_init_def reachable.start)

lemma alice_bound: "stream_bound (bus_of alice_cluster) 0 ScopeUser ''alice'' 0"
proof -
  have "stream_bound (bus_of alice_cluster) 0 ScopeUser ''alice'' 0 = True" by code_simp
  then show ?thesis by simp
qed

theorem sse_post_delivers_witness:
  "\<exists>m c'. held (q_at (bus_of c') 0) = add_mset m (held (q_at (bus_of alice_cluster) 0)) \<and>
     deliver_frame ScopeUser ''inst-7001'' (wrap m) = sink_send http_sink (SseFrame ScopeUser ''inst-7001''
       (envelope_of ''inst-7002'' ''now'' (intent_of (target ScopeUser ''alice'') (JStr ''bob'') (JStr ''hi''))))"
proof -
  have "wildcard_free ''alice''" by code_simp
  from sse_post_delivers [OF alice_reachable alice_bound this, of "JStr ''bob''" "JStr ''hi''" "''alice''" "''inst-7002''"
      "Inr []" "\<lambda>_ _ c. (Inr (), c)" is_now "''now''" ScopeUser "''inst-7001''"]
  show ?thesis by auto
qed

section \<open>What a stream carries\<close>

definition event_text :: "string \<Rightarrow> string \<Rightarrow> string \<Rightarrow> bool" where
  "event_text prefix data chunk \<longleftrightarrow> printable data \<and> chunk = prefix @ data @ LF @ LF"

text \<open>C34. No message can break the framing of a stream: whatever the body of a broker message, JSON or not, and
whatever its texts hold, a delivery writes one event of one \<open>data:\<close> line, with no control character before the blank
line that ends it; the same holds of the \<open>hello\<close> event for every user and organisation.\<close>

theorem sse_frames_are_single_events:
  "(\<exists>data. event_text ''data: '' data (case deliver_frame scope inst m of WriteChunk s \<Rightarrow> s | _ \<Rightarrow> [])) \<and>
   (\<exists>data. event_text (''event: hello'' @ LF @ ''data: '') data (hello inst userId orgId))"
proof
  have "reals_printable (hub_parse inst (rm_body m))"
    by (auto simp: hub_parse_def SseEnvelope_def target_def split: option.split dest: json_parse_printable)
  then have "printable (json_stringify (frame_of scope inst (rm_body m)))"
    by (intro printable_text(1)) (simp add: frame_of_def SseFrame_def)
  then show "\<exists>data. event_text ''data: '' data (case deliver_frame scope inst m of WriteChunk s \<Rightarrow> s | _ \<Rightarrow> [])"
    by (auto simp: event_text_def deliver_frame_def http_sink_def)
  have "printable (json_stringify (JObj [(''instanceId'', JStr inst), (''userId'', JStr userId), (''orgId'', JStr orgId)]))"
    by (intro printable_text(1)) simp
  then show "\<exists>data. event_text (''event: hello'' @ LF @ ''data: '') data (hello inst userId orgId)"
    by (auto simp: event_text_def hello_def)
qed

section \<open>Answers\<close>

fun is_end :: "res_call \<Rightarrow> bool" where
  "is_end (EndWith _) = True"
| "is_end _ = False"

text \<open>A request that opens a stream: its identity is given and the hub binds it.\<close>

definition opens_stream :: "(string \<Rightarrow> string \<Rightarrow> 'c \<Rightarrow> (js_error + 'h) \<times> 'c) \<Rightarrow> Request \<Rightarrow> 'c \<Rightarrow> bool" where
  "opens_stream connect req c \<longleftrightarrow> rq_method req = ''GET'' \<and>
     (case rq_url req of
        None \<Rightarrow> False
      | Some (path, query) \<Rightarrow> path = ''/events'' \<and>
          (case (param ''userId'' query, param ''orgId'' query) of
             (Some userId, Some orgId) \<Rightarrow> userId \<noteq> [] \<and> orgId \<noteq> [] \<and> \<not> isl (fst (connect userId orgId c))
           | _ \<Rightarrow> False))"

definition answered :: "bool \<Rightarrow> res_call list \<Rightarrow> bool" where
  "answered streaming calls \<longleftrightarrow> length (filter is_head calls) = 1 \<and>
     length (filter is_end calls) = (if streaming then 0 else 1) \<and> (streaming \<or> is_end (last calls))"

definition finish :: "'c outcome \<Rightarrow> res_call list" where
  "finish = (\<lambda>(calls, err, c). case err of
     None \<Rightarrow> calls
   | Some e \<Rightarrow> calls @ (if list_ex is_head calls then [] else [WriteHead 500 [(''content-type'', ''text/plain'')]]) @
       [EndWith (Some (''error: '' @ error_message e))])"

lemma serve_finish: "fst (serve inst html connect pub req c) = finish (handle inst html connect pub req c)"
  by (simp add: serve_def finish_def split: prod.split option.split)

lemma finish_cors: "answered b (finish (calls, err, c)) \<Longrightarrow> answered b (finish (setCors @ calls, err, c))"
  by (auto simp: finish_def answered_def setCors_def split: option.splits if_splits)

lemma answered_plain: "answered False (finish (plain status text, None, c))"
  and answered_throw: "answered False (finish ([], Some e, c))"
  and answered_end: "answered False (finish ([WriteHead n hs, EndWith x], None, c))"
  and answered_cors_throw: "answered False (finish (setCors, Some e, c))"
  by (simp_all add: answered_def finish_def plain_def setCors_def)

lemma answered_events:
  "answered (case (param ''userId'' query, param ''orgId'' query) of
      (Some userId, Some orgId) \<Rightarrow> userId \<noteq> [] \<and> orgId \<noteq> [] \<and> \<not> isl (fst (connect userId orgId c))
    | _ \<Rightarrow> False) (finish (handleEvents inst connect query c))"
  by (auto simp: handleEvents_def openSseSink_def answered_plain answered_def finish_def plain_def
      split: option.split prod.split sum.split)

lemma answered_publish: "answered False (finish (handlePublish inst pub raw c))"
  by (auto simp: handlePublish_def Let_def answered_plain answered_throw answered_end
      split: option.split prod.split sum.split)

text \<open>C35. Every request is answered once: on each path, also when the broker, a file or the request's stream fails,
the status line is written exactly once and the response is ended exactly once, by the last call; only an event
stream that was opened is left open.\<close>

theorem serve_answers_once:
  "answered (opens_stream connect req c) (fst (serve inst html connect pub req c))"
proof (cases "rq_url req")
  case None
  then show ?thesis by (simp add: serve_finish handle_def opens_stream_def answered_throw)
next
  case (Some u)
  obtain path query where u: "u = (path, query)" by (cases u)
  note answers = finish_cors answered_plain answered_throw answered_end answered_publish answered_events
  consider (events) "rq_method req = ''GET''" "path = ''/events''" | (other) "\<not> (rq_method req = ''GET'' \<and> path = ''/events'')"
    by blast
  then show ?thesis
  proof cases
    case events
    then have "opens_stream connect req c = (case (param ''userId'' query, param ''orgId'' query) of
        (Some userId, Some orgId) \<Rightarrow> userId \<noteq> [] \<and> orgId \<noteq> [] \<and> \<not> isl (fst (connect userId orgId c))
      | _ \<Rightarrow> False)"
      by (simp add: opens_stream_def Some u)
    moreover obtain calls err c' where h: "handleEvents inst connect query c = (calls, err, c')" by (metis prod_cases3)
    moreover have "handle inst html connect pub req c = (setCors @ calls, err, c')"
      using events h by (simp add: handle_def Some u)
    ultimately show ?thesis using answered_events [where query = query and connect = connect and c = c and inst = inst] by (simp add: serve_finish finish_cors)
  next
    case other
    then have "\<not> opens_stream connect req c" by (auto simp: opens_stream_def Some u)
    moreover have "answered False (finish (handle inst html connect pub req c))"
      using other answered_publish [of inst pub "rq_body req" c]
      by (auto simp: handle_def Some u intro!: finish_cors answered_cors_throw answered_plain answered_throw answered_end split: sum.split prod.split)
    ultimately show ?thesis by (simp add: serve_finish)
  qed
qed

section \<open>The end of a connection\<close>

lemma stream_run_closed:
  assumes "stream_run es cn = Some cn'" and "cn_closed cn"
    and "cn_timer cn = None"
  shows "cn_unsubscribed cn' = cn_unsubscribed cn \<and> cn_beats cn' = cn_beats cn \<and>
    (cn_phase cn = Streaming \<longrightarrow> cn_phase cn' = Streaming \<and> cn_bound cn' = cn_bound cn)"
  using assms
proof (induction es arbitrary: cn)
  case (Cons e es)
  from Cons.prems obtain cn1 where 1: "stream_step e cn = Some cn1" "stream_run es cn1 = Some cn'"
    by (auto split: option.splits)
  from 1(1) Cons.prems(2,3) have "cn_closed cn1" "cn_timer cn1 = None" "cn_unsubscribed cn1 = cn_unsubscribed cn"
    "cn_beats cn1 = cn_beats cn" "cn_phase cn = Streaming \<longrightarrow> cn_phase cn1 = Streaming \<and> cn_bound cn1 = cn_bound cn"
    by (cases e; auto simp: cleanup_def beat_def split: phase.splits if_splits)+
  with Cons.IH [OF 1(2)] show ?case by simp
qed simp

lemma stream_run_open:
  "stream_run es (opened now) = Some cn \<Longrightarrow> \<not> cn_closed cn \<Longrightarrow> cn_unsubscribed cn = []"
proof -
  have "stream_run es cn0 = Some cn \<Longrightarrow> \<not> cn_closed cn \<Longrightarrow> \<not> cn_closed cn0 \<and> cn_unsubscribed cn = cn_unsubscribed cn0" for cn0
  proof (induction es arbitrary: cn0)
    case (Cons e es)
    from Cons.prems obtain cn1 where 1: "stream_step e cn0 = Some cn1" "stream_run es cn1 = Some cn"
      by (auto split: option.splits)
    from Cons.IH [OF 1(2) Cons.prems(2)] 1(1) show ?case
      by (cases e) (auto simp: cleanup_def beat_def split: phase.splits if_splits option.splits)
  qed simp
  then show "stream_run es (opened now) = Some cn \<Longrightarrow> \<not> cn_closed cn \<Longrightarrow> cn_unsubscribed cn = []"
    by (force simp: opened_def)
qed

text \<open>C36. When the client goes away the heartbeat stops, and the subscriptions of its connection are ended exactly if
the stream was already set up: then none is left, whatever follows. If the client leaves while the hub is still binding,
or if a binding failed, the clean-up has nothing installed to run and every subscription bound before or after stays on
the broker.\<close>

theorem sse_teardown_needs_setup:
  assumes "stream_run es (opened now) = Some cn" and "\<not> cn_closed cn"
    and "stream_run (ClientCloses # es') cn = Some cn'"
  shows "live_subscriptions cn' = (if cn_phase cn = Streaming then [] else cn_bound cn') \<and> cn_beats cn' = cn_beats cn"
proof -
  from assms(3) have run: "stream_run es' (cleanup cn) = Some cn'" by simp
  have closed: "cn_closed (cleanup cn)" "cn_timer (cleanup cn) = None" "cn_beats (cleanup cn) = cn_beats cn"
    using assms(2) by (simp_all add: cleanup_def)
  note after = stream_run_closed [OF run closed(1,2)]
  show ?thesis
  proof (cases "cn_phase cn = Streaming")
    case True
    with after assms(2) have "cn_unsubscribed cn' = cn_bound cn" "cn_bound cn' = cn_bound cn"
      by (simp_all add: cleanup_def)
    with True after closed(3) show ?thesis by (simp add: live_subscriptions_def)
  next
    case False
    with after assms(2) stream_run_open [OF assms(1,2)] have "cn_unsubscribed cn' = []" by (simp add: cleanup_def)
    with False after closed(3) show ?thesis by (simp add: live_subscriptions_def)
  qed
qed

theorem sse_teardown_needs_setup_witness:
  "\<exists>cn'. stream_run [Beat 20000, ClientCloses, Bound (1::nat), Bound 2] (opened 0) = Some cn' \<and> cn_closed cn' \<and>
     cn_phase cn' = Streaming \<and> live_subscriptions cn' = [1, 2] \<and> length (cn_beats cn') = 1"
proof -
  define cn :: "nat Connection" where "cn = the (beat 20000 (opened 0))"
  define cn' :: "nat Connection" where "cn' = cn\<lparr>cn_phase := Streaming, cn_closed := True, cn_timer := None, cn_bound := [1, 2]\<rparr>"
  have beat: "beat 20000 (opened 0) = Some cn" by (simp add: cn_def beat_def opened_def HEARTBEAT_MS_def)
  have cn: "cn_phase cn = BindingUser" "\<not> cn_closed cn" "cn_bound cn = []" "length (cn_beats cn) = 1" "cn_unsubscribed cn = []"
    by (simp_all add: cn_def beat_def opened_def HEARTBEAT_MS_def)
  have run: "stream_run (ClientCloses # [Bound 1, Bound 2]) cn = Some cn'"
    using cn by (simp add: cleanup_def cn'_def)
  have "stream_run [Beat 20000] (opened 0) = Some cn" using beat by simp
  from sse_teardown_needs_setup [OF this cn(2) run] cn have "live_subscriptions cn' = cn_bound cn'" "length (cn_beats cn') = 1"
    by simp_all
  with run beat show ?thesis by (intro exI [of _ cn']) (simp add: cn'_def del: stream_run.simps(2), simp)
qed

end
