(* ===== verification/Sse_Lanes.thy ===== *)
theory Sse_Lanes
  imports Sse_Cluster Sse_Properties
begin

text \<open>
  The unit of the proofs on the SSE cluster is the lane of a queue: the queue with the deliveries scheduled for it. An
  operation on one queue leaves every other lane as it is; what a post, a delivery, a new subscription and the end of
  one do to the lane of a stream is shown here.
\<close>

section \<open>Lanes\<close>

definition lane :: "Bus \<Rightarrow> nat \<Rightarrow> BusQueue \<times> Delivery list" where
  "lane b qr = (q_at b qr, filter (\<lambda>d. dl_queue d = qr) (b_microtasks b))"

text \<open>
  The lane of a stream. An open one has one consumer, which holds a message exactly if one is there, and one delivery
  is scheduled for it; a closed one has nothing in flight.
\<close>

definition lane_ok :: "bool \<Rightarrow> string \<Rightarrow> nat \<Rightarrow> BusQueue \<times> Delivery list \<Rightarrow> bool" where
  "lane_ok opn pat qr = (\<lambda>(q, ds).
     bq_kind q = Topic \<and> bq_routingKey q = Some pat \<and> \<not> bq_partitionByGroup q \<and> \<not> bq_singleActiveConsumer q \<and>
     (\<forall>d \<in> set ds. dl_consumer d = qr) \<and>
     (if opn then bq_consumers q = [qr] \<and> (\<forall>m \<in> set (bq_pending q). prio m = 0) \<and>
        (case bq_inflight q of
           [] \<Rightarrow> bq_pending q = [] \<and> ds = []
         | x # xs \<Rightarrow> snd x = qr \<and> xs = [] \<and> ds = [\<lparr>dl_queue = qr, dl_message = fst x, dl_consumer = qr\<rparr>])
      else bq_consumers q = [] \<and> bq_inflight q = []))"

lemma splice1_0 [simp]: "splice1 0 (x # xs) = xs"
  by (simp add: splice1_def)

lemma rr_scan_one: "rr_scan (Suc 0) [c] busy n = (Suc n, if c \<in> busy then None else Some c)"
  by (simp add: Let_def)

lemma nextDelivery_one:
  assumes "bq_consumers q = [c]" and "\<not> bq_partitionByGroup q" and "\<not> bq_singleActiveConsumer q"
    and "\<forall>m \<in> set (bq_pending q). prio m = 0" and "bq_pending q = m # ms"
  shows "nextDelivery q =
    (if c \<in> bq_busy q then (q\<lparr>bq_rr := Suc (bq_rr q)\<rparr>, None)
     else (q\<lparr>bq_rr := Suc (bq_rr q), bq_pending := ms\<rparr>, Some (m, c)))"
proof -
  have "best_index (m # ms) = 0"
    using best_index_const [of "m # ms" 0] assms(4,5) by simp
  then show ?thesis
    using assms(1,2,3,5) by (simp add: nextDelivery_def plainDelivery_def nextConsumer_def rr_scan_one nextPending_def
        del: rr_scan.simps)
qed

lemma pump_queue_busy:
  assumes "bq_consumers q = [c]" and "\<not> bq_partitionByGroup q" and "\<not> bq_singleActiveConsumer q"
    and "\<forall>m \<in> set (bq_pending q). prio m = 0" and "c \<in> bq_busy q"
  shows "\<exists>n. pump_queue q = (q\<lparr>bq_rr := n\<rparr>, [])"
proof (cases "bq_pending q")
  case Nil
  then have "pump_queue q = (q\<lparr>bq_rr := bq_rr q\<rparr>, [])" by (simp add: pump_queue.simps [of q])
  then show ?thesis by blast
next
  case (Cons m ms)
  with nextDelivery_one [OF assms(1-4) Cons] assms(1,5) show ?thesis
    by (auto simp: pump_queue.simps [of q])
qed

lemma pump_queue_free:
  assumes "bq_consumers q = [c]" and "\<not> bq_partitionByGroup q" and "\<not> bq_singleActiveConsumer q"
    and "\<forall>m \<in> set (bq_pending q). prio m = 0" and "bq_inflight q = []" and "bq_pending q = m # ms"
  shows "\<exists>n. pump_queue q = (q\<lparr>bq_pending := ms, bq_inflight := [(count_delivery m, c)], bq_rr := n\<rparr>, [(count_delivery m, c)])"
proof -
  let ?q = "hand_out (q\<lparr>bq_rr := Suc (bq_rr q), bq_pending := ms\<rparr>) m c"
  have "c \<notin> bq_busy q" using assms(5) by (simp add: bq_busy_def)
  with nextDelivery_one [OF assms(1-4,6)]
  have next1: "nextDelivery q = (q\<lparr>bq_rr := Suc (bq_rr q), bq_pending := ms\<rparr>, Some (m, c))" by simp
  have q: "?q = q\<lparr>bq_rr := Suc (bq_rr q), bq_pending := ms, bq_inflight := [(count_delivery m, c)]\<rparr>"
    using assms(5) by (simp add: hand_out_def inflight_set_def)
  obtain n where "pump_queue ?q = (?q\<lparr>bq_rr := n\<rparr>, [])"
    using pump_queue_busy [of ?q c] assms(1-4,6) by (auto simp: q bq_busy_def)
  with next1 assms(1,6) show ?thesis
    by (auto simp: pump_queue.simps [of q] q intro!: exI [of _ n])
qed

text \<open>Operations on one queue, seen from the lanes.\<close>

lemma lane_pump:
  assumes "qr < length (b_objs b)"
  shows "lane (pump qr b) qr' = (if qr' = qr
     then (fst (pump_queue (q_at b qr)), snd (lane b qr) @
       map (\<lambda>(m, c). \<lparr>dl_queue = qr, dl_message = m, dl_consumer = c\<rparr>) (snd (pump_queue (q_at b qr))))
     else lane b qr')"
  using assms by (auto simp: lane_def pump_at pump_microtasks filter_empty_conv filter_id_conv)

lemma lane_set_queue:
  "qr < length (b_objs b) \<Longrightarrow> lane (set_queue qr q b) qr' = (if qr' = qr then (q, snd (lane b qr)) else lane b qr')"
  by (simp add: lane_def q_at_set_queue)

lemma lane_counters [simp]: "lane (b\<lparr>b_seq := i, b_nextRef := j\<rparr>) qr = lane b qr"
  by (simp add: lane_def q_at_def)

lemma lane_ok_push:
  "lane_ok opn pat qr (q, ds) \<Longrightarrow> prio m = 0 \<Longrightarrow> bq_inflight q \<noteq> [] \<Longrightarrow>
   lane_ok opn pat qr (q\<lparr>bq_pending := bq_pending q @ [m]\<rparr>, ds)"
  by (auto simp: lane_ok_def split: if_splits list.splits)

text \<open>An open lane whose consumer is free, and what the pump makes of it.\<close>

definition lane_free :: "string \<Rightarrow> nat \<Rightarrow> BusQueue \<times> Delivery list \<Rightarrow> bool" where
  "lane_free pat qr = (\<lambda>(q, ds).
     bq_kind q = Topic \<and> bq_routingKey q = Some pat \<and> \<not> bq_partitionByGroup q \<and> \<not> bq_singleActiveConsumer q \<and>
     bq_consumers q = [qr] \<and> (\<forall>m \<in> set (bq_pending q). prio m = 0) \<and> bq_inflight q = [] \<and> ds = [])"

lemma pump_free_lane:
  assumes "qr < length (b_objs b)" and "lane_free pat qr (lane b qr)"
  shows "lane_ok True pat qr (lane (pump qr b) qr)"
    and "queue_bodies (q_at (pump qr b) qr) = queue_bodies (q_at b qr)"
    and "length (b_microtasks (pump qr b)) + length (bq_pending (q_at (pump qr b) qr)) =
      length (b_microtasks b) + length (bq_pending (q_at b qr))"
proof -
  have q: "bq_consumers (q_at b qr) = [qr]" "\<not> bq_partitionByGroup (q_at b qr)" "\<not> bq_singleActiveConsumer (q_at b qr)"
    "\<forall>m \<in> set (bq_pending (q_at b qr)). prio m = 0" "bq_inflight (q_at b qr) = []" "snd (lane b qr) = []"
    "bq_kind (q_at b qr) = Topic" "bq_routingKey (q_at b qr) = Some pat"
    using assms(2) by (auto simp: lane_free_def lane_def)
  have "lane_ok True pat qr (lane (pump qr b) qr) \<and> queue_bodies (q_at (pump qr b) qr) = queue_bodies (q_at b qr) \<and>
    length (b_microtasks (pump qr b)) + length (bq_pending (q_at (pump qr b) qr)) =
      length (b_microtasks b) + length (bq_pending (q_at b qr))"
  proof (cases "bq_pending (q_at b qr)")
    case Nil
    then have "pump_queue (q_at b qr) = (q_at b qr, [])" by (simp add: pump_queue.simps [of "q_at b qr"])
    with Nil q assms(1) show ?thesis
      by (simp add: lane_pump lane_ok_def pump_at pump_microtasks)
  next
    case (Cons m ms)
    from pump_queue_free [OF q(1-5) Cons] obtain n where
      "pump_queue (q_at b qr) = ((q_at b qr)\<lparr>bq_pending := ms, bq_inflight := [(count_delivery m, qr)], bq_rr := n\<rparr>,
        [(count_delivery m, qr)])" by blast
    with Cons q assms(1) show ?thesis
      by (auto simp: lane_pump lane_ok_def pump_at pump_microtasks queue_bodies_def count_delivery_def)
  qed
  then show "lane_ok True pat qr (lane (pump qr b) qr)"
    and "queue_bodies (q_at (pump qr b) qr) = queue_bodies (q_at b qr)"
    and "length (b_microtasks (pump qr b)) + length (bq_pending (q_at (pump qr b) qr)) =
      length (b_microtasks b) + length (bq_pending (q_at b qr))"
    by blast+
qed

text \<open>A pump on a lane that is closed, or whose consumer is busy, changes nothing that matters.\<close>

lemma pump_ok_lane:
  assumes "qr < length (b_objs b)" and "lane_ok opn pat qr (lane b qr)"
  shows "\<exists>n. lane (pump qr b) qr = ((q_at b qr)\<lparr>bq_rr := n\<rparr>, snd (lane b qr)) \<and> b_microtasks (pump qr b) = b_microtasks b"
proof -
  have "\<exists>n. pump_queue (q_at b qr) = ((q_at b qr)\<lparr>bq_rr := n\<rparr>, [])"
  proof (cases "opn \<and> bq_inflight (q_at b qr) \<noteq> []")
    case True
    with assms(2) obtain x where "bq_inflight (q_at b qr) = [x]" "snd x = qr" "bq_consumers (q_at b qr) = [qr]"
      by (auto simp: lane_ok_def lane_def neq_Nil_conv)
    with assms(2) True show ?thesis
      by (intro pump_queue_busy [of _ qr]) (auto simp: lane_ok_def lane_def bq_busy_def)
  next
    case False
    with assms(2) have "bq_pending (q_at b qr) = [] \<or> bq_consumers (q_at b qr) = []"
      by (auto simp: lane_ok_def lane_def split: if_splits)
    then have "pump_queue (q_at b qr) = ((q_at b qr)\<lparr>bq_rr := bq_rr (q_at b qr)\<rparr>, [])"
      by (auto simp: pump_queue.simps [of "q_at b qr"])
    then show ?thesis by blast
  qed
  with assms(1) show ?thesis by (auto simp: lane_pump pump_microtasks)
qed

lemma lane_ok_rr [simp]: "lane_ok opn pat qr (q\<lparr>bq_rr := n\<rparr>, ds) = lane_ok opn pat qr (q, ds)"
  by (cases "bq_inflight q") (simp_all add: lane_ok_def)

lemma queue_bodies_rr [simp]: "queue_bodies (q\<lparr>bq_rr := n\<rparr>) = queue_bodies q"
  by (simp add: queue_bodies_def)

section \<open>A post\<close>

lemma lane_fst [simp]: "fst (lane b qr) = q_at b qr"
  by (simp add: lane_def)

lemma enqueue_lane_other:
  assumes "qr < length (b_objs b)" and "qr' \<noteq> qr"
  shows "lane (enqueue topic body key None qr b) qr' = lane b qr'"
  using assms by (simp add: enqueue_def lane_pump lane_set_queue push_pending_def arm_ttl_def opt_field_def Let_def)

lemma enqueue_sel [simp]:
  "length (b_objs (enqueue topic body key None qr b)) = length (b_objs b)"
  "b_byTopic (enqueue topic body key None qr b) = b_byTopic b"
  "b_queues (enqueue topic body key None qr b) = b_queues b"
  by (simp_all add: enqueue_def push_pending_def arm_ttl_def opt_field_def Let_def set_queue_def)

lemma lane_ok_matches:
  "lane_ok opn pat qr (lane b qr) \<Longrightarrow> pat \<noteq> [] \<Longrightarrow> matches (q_at b qr) key \<longleftrightarrow> topicMatch pat key"
  by (simp add: lane_ok_def lane_def matches_def)

text \<open>A lane together with the bodies in it, as an operation leaves them.\<close>

definition lane_has :: "bool \<Rightarrow> string \<Rightarrow> string list \<Rightarrow> nat \<Rightarrow> Bus \<Rightarrow> bool" where
  "lane_has opn pat bodies qr b \<longleftrightarrow> lane_ok opn pat qr (lane b qr) \<and> (opn \<longrightarrow> queue_bodies (q_at b qr) = bodies)"

lemma lane_has_cong: "lane b' qr = lane b qr \<Longrightarrow> lane_has opn pat bodies qr b' = lane_has opn pat bodies qr b"
  by (simp add: lane_has_def flip: lane_fst)

lemma enqueue_lane_has:
  assumes qr: "qr < length (b_objs b)" and pat: "pat \<noteq> []" and "lane_has opn pat bodies qr b"
  shows "lane_has opn pat (bodies @ (if topicMatch pat key then [body] else [])) qr (enqueue topic body key None qr b)"
proof (cases "topicMatch pat key")
  case False
  with assms(3) have "\<not> matches (q_at b qr) key" using lane_ok_matches [OF _ pat] by (auto simp: lane_has_def)
  with False assms(3) show ?thesis by (simp add: enqueue_def)
next
  case True
  let ?m = "mk_message (b_nextRef b) (''mem-bus-'' @ show_nat (Suc (b_seq b))) topic body key None"
  let ?b1 = "push_pending qr ?m (b\<lparr>b_seq := Suc (b_seq b), b_nextRef := Suc (b_nextRef b)\<rparr>)"
  let ?q = "(q_at b qr)\<lparr>bq_pending := bq_pending (q_at b qr) @ [?m]\<rparr>"
  have ok: "lane_ok opn pat qr (lane b qr)" and bodies: "opn \<Longrightarrow> queue_bodies (q_at b qr) = bodies"
    using assms(3) by (simp_all add: lane_has_def)
  have e: "enqueue topic body key None qr b = pump qr ?b1"
    using True lane_ok_matches [OF ok pat] by (simp add: enqueue_def arm_ttl_def opt_field_def Let_def)
  have m: "prio ?m = 0" "bm_body ?m = body" by (simp_all add: mk_message_def prio_def opt_field_def)
  have lane1: "lane ?b1 qr = (?q, snd (lane b qr))" using qr by (simp add: push_pending_def lane_set_queue q_at_def)
  have qr1: "qr < length (b_objs ?b1)" using qr by (simp add: push_pending_def)
  have bodies1: "queue_bodies ?q = queue_bodies (q_at b qr) @ [body]" using m by (simp add: queue_bodies_def)
  show ?thesis
  proof (cases "opn \<and> bq_inflight (q_at b qr) = []")
    case idle: True
    then have "lane_free pat qr (lane ?b1 qr)"
      using ok m(1) unfolding lane1 by (simp add: lane_free_def lane_ok_def lane_def)
    from pump_free_lane [OF qr1 this] idle True bodies bodies1 lane1 show ?thesis
      by (simp add: lane_has_def e flip: lane_fst)
  next
    case False
    then have "lane_ok opn pat qr (lane ?b1 qr)"
      using ok m(1) unfolding lane1 lane_def [of b] by (auto simp: lane_ok_def split: list.splits)
    from this pump_ok_lane [OF qr1 this] True bodies bodies1 lane1 show ?thesis
      by (auto simp: lane_has_def e simp flip: lane_fst)
  qed
qed

lemma fold_enqueue_sel [simp]:
  "length (b_objs (fold (enqueue topic body key None) qrs b)) = length (b_objs b)"
  "b_byTopic (fold (enqueue topic body key None) qrs b) = b_byTopic b"
  "b_queues (fold (enqueue topic body key None) qrs b) = b_queues b"
  by (induction qrs arbitrary: b) simp_all

lemma fold_enqueue_lane_other:
  "qr \<notin> set qrs \<Longrightarrow> \<forall>i \<in> set qrs. i < length (b_objs b) \<Longrightarrow>
   lane (fold (enqueue topic body key None) qrs b) qr = lane b qr"
  by (induction qrs arbitrary: b) (simp_all add: enqueue_lane_other)

lemma fold_enqueue_lane_has:
  assumes "distinct qrs" and "qr \<in> set qrs" and "\<forall>i \<in> set qrs. i < length (b_objs b)"
    and "pat \<noteq> []" and "lane_has opn pat bodies qr b"
  shows "lane_has opn pat (bodies @ (if topicMatch pat key then [body] else [])) qr (fold (enqueue topic body key None) qrs b)"
proof -
  let ?add = "enqueue topic body key None"
  obtain pre post where qrs: "qrs = pre @ qr # post" using assms(2) by (auto simp: in_set_conv_decomp)
  let ?b1 = "fold ?add pre b" and ?b2 = "?add qr (fold ?add pre b)"
  have "lane ?b1 qr = lane b qr" using assms(1,3) qrs by (intro fold_enqueue_lane_other) auto
  then have "lane_has opn pat bodies qr ?b1" using assms(5) lane_has_cong by blast
  moreover have "qr < length (b_objs ?b1)" using assms(3) qrs by simp
  ultimately have has: "lane_has opn pat (bodies @ (if topicMatch pat key then [body] else [])) qr ?b2"
    using enqueue_lane_has assms(4) by blast
  have "lane (fold ?add post ?b2) qr = lane ?b2 qr" using assms(1,3) qrs by (intro fold_enqueue_lane_other) auto
  with has have "lane_has opn pat (bodies @ (if topicMatch pat key then [body] else [])) qr (fold ?add post ?b2)"
    using lane_has_cong by blast
  with qrs show ?thesis by simp
qed

lemma append_log_frame [simp]:
  "lane (append_log topic body key options b) qr = lane b qr"
  "length (b_objs (append_log topic body key options b)) = length (b_objs b)"
  "b_byTopic (append_log topic body key options b) = b_byTopic b"
  "b_queues (append_log topic body key options b) = b_queues b"
  by (simp_all add: append_log_def lane_def q_at_def Let_def)

text \<open>The topics and ids of a bus, and that a schedule of deliveries stays among its queues.\<close>

definition same_frame :: "Bus \<Rightarrow> Bus \<Rightarrow> bool" where
  "same_frame b b' \<longleftrightarrow> length (b_objs b') = length (b_objs b) \<and> b_byTopic b' = b_byTopic b \<and> b_queues b' = b_queues b"

lemma publish_key_eq:
  "publish topic body (Some key) None b =
     fold (enqueue topic body key None) (coalesce (b_byTopic b topic) []) (append_log topic body key None b)"
  by (simp add: publish_def opt_field_def Let_def)

lemma publish_frame: "same_frame b (publish topic body (Some key) None b)"
  by (simp add: same_frame_def publish_key_eq)

lemma publish_lane_has:
  assumes "coalesce (b_byTopic b topic) [] = [0 ..< n]" and "n \<le> length (b_objs b)" and "qr < n"
    and "pat \<noteq> []" and "lane_has opn pat bodies qr b"
  shows "lane_has opn pat (bodies @ (if topicMatch pat key then [body] else [])) qr (publish topic body (Some key) None b)"
  unfolding publish_key_eq assms(1)
proof (rule fold_enqueue_lane_has)
  show "lane_has opn pat bodies qr (append_log topic body key None b)"
    using assms(5) lane_has_cong [of "append_log topic body key None b"] by simp
qed (use assms in auto)

section \<open>A delivery\<close>

text \<open>The state after the head of the schedule has been called and has acknowledged.\<close>

definition acked :: "Bus \<Rightarrow> Bus" where
  "acked b = ack (length (b_delivered b)) (run_microtask b)"

lemma acked_eq:
  assumes "b_microtasks b = d # ds"
  defines "b1 \<equiv> b\<lparr>b_microtasks := ds, b_delivered := b_delivered b @ [d]\<rparr>"
  shows "acked b = (settle Ack (dl_queue d) (bm_ref (dl_message d)) (dl_consumer d) b1)
    \<lparr>b_settled := insert (length (b_delivered b))
      (b_settled (settle Ack (dl_queue d) (bm_ref (dl_message d)) (dl_consumer d) b1))\<rparr>"
  using assms by (simp add: acked_def ack_def settle_delivery_def run_microtask_def Let_def)

lemma lane_settled [simp]: "lane (b\<lparr>b_settled := X\<rparr>) qr = lane b qr" "q_at (b\<lparr>b_settled := X\<rparr>) qr = q_at b qr"
  by (simp_all add: lane_def q_at_def)

lemma settle_ack_cases:
  obtains (stale) "settle Ack qr ref c b = b"
  | (hit) m where "inflight_get ref (bq_inflight (q_at b qr)) = Some (m, c)"
      "settle Ack qr ref c b = pump qr (take_inflight qr ref b)"
proof (cases "inflight_get ref (bq_inflight (q_at b qr))")
  case None
  then show thesis by (intro stale) (simp add: settle_def)
next
  case (Some x)
  then show thesis using stale hit by (cases x; cases "snd x = c") (auto simp: settle_def Let_def)
qed

lemma take_inflight_frame [simp]:
  "length (b_objs (take_inflight qr ref b)) = length (b_objs b)"
  "b_byTopic (take_inflight qr ref b) = b_byTopic b" "b_queues (take_inflight qr ref b) = b_queues b"
  "b_microtasks (take_inflight qr ref b) = b_microtasks b"
  by (simp_all add: take_inflight_def)

lemma settle_ack_frame: "same_frame b (settle Ack qr ref c b)"
  by (rule settle_ack_cases [of qr ref c b]) (simp_all add: same_frame_def)

lemma settle_ack_other:
  assumes "qr < length (b_objs b)" and "qr' \<noteq> qr"
  shows "lane (settle Ack qr ref c b) qr' = lane b qr'"
proof (cases rule: settle_ack_cases [of qr ref c b])
  case (hit m)
  with assms show ?thesis by (simp add: lane_pump take_inflight_def lane_set_queue)
qed simp

lemma acked_frame: "b_microtasks b = d # ds \<Longrightarrow> same_frame b (acked b)"
  using settle_ack_frame by (auto simp: acked_eq same_frame_def)

lemma acked_other:
  assumes "b_microtasks b = d # ds" and "dl_queue d < length (b_objs b)" and "qr \<noteq> dl_queue d"
  shows "lane (acked b) qr = lane b qr"
proof -
  let ?b1 = "b\<lparr>b_microtasks := ds, b_delivered := b_delivered b @ [d]\<rparr>"
  have "lane ?b1 qr = lane b qr" using assms(1,3) by (simp add: lane_def q_at_def)
  moreover have "lane (settle Ack (dl_queue d) (bm_ref (dl_message d)) (dl_consumer d) ?b1) qr = lane ?b1 qr"
    using assms(2,3) by (intro settle_ack_other) simp_all
  ultimately show ?thesis by (simp add: acked_eq [OF assms(1)])
qed

lemma acked_open:
  assumes d: "b_microtasks b = d # ds" and qr: "dl_queue d < length (b_objs b)"
    and has: "lane_has True pat bodies (dl_queue d) b"
  shows "bodies = bm_body (dl_message d) # tl bodies" and "lane_has True pat (tl bodies) (dl_queue d) (acked b)"
    and "Suc (length (b_microtasks (acked b)) + length (bq_pending (q_at (acked b) (dl_queue d)))) =
      length (b_microtasks b) + length (bq_pending (q_at b (dl_queue d)))"
proof -
  let ?qr = "dl_queue d"
  let ?b1 = "b\<lparr>b_microtasks := ds, b_delivered := b_delivered b @ [d]\<rparr>"
  let ?m = "dl_message d"
  let ?b2 = "take_inflight ?qr (bm_ref ?m) ?b1"
  have ok: "lane_ok True pat ?qr (lane b ?qr)" using has by (simp add: lane_has_def)
  then obtain m where m: "bq_inflight (q_at b ?qr) = [(m, ?qr)]" "d = \<lparr>dl_queue = ?qr, dl_message = m, dl_consumer = ?qr\<rparr>"
    and rest: "filter (\<lambda>d'. dl_queue d' = ?qr) ds = []"
    using d by (auto simp: lane_ok_def lane_def split: list.splits)
  from m(2) have "m = ?m" and c: "dl_consumer d = ?qr" by (metis Delivery.select_convs(2,3))+
  with m(1) have inflight: "bq_inflight (q_at b ?qr) = [(?m, ?qr)]" by simp
  from inflight has show bodies: "bodies = bm_body ?m # tl bodies" by (auto simp: lane_has_def queue_bodies_def)
  have get: "inflight_get (bm_ref ?m) (bq_inflight (q_at ?b1 ?qr)) = Some (?m, dl_consumer d)"
    using inflight c by (simp add: q_at_def inflight_get_def)
  have q2: "q_at ?b2 ?qr = (q_at b ?qr)\<lparr>bq_inflight := []\<rparr>"
    using inflight qr by (simp add: take_inflight_def q_at_set_queue inflight_delete_def)
  have "snd (lane ?b2 ?qr) = []" using rest by (simp add: lane_def)
  then have lane2: "lane ?b2 ?qr = ((q_at b ?qr)\<lparr>bq_inflight := []\<rparr>, [])"
    using q2 by (metis lane_fst prod.collapse)
  have settle: "settle Ack ?qr (bm_ref ?m) (dl_consumer d) ?b1 = pump ?qr ?b2"
    using get by (simp add: settle_def Let_def)
  have "lane_free pat ?qr (lane ?b2 ?qr)"
    using ok unfolding lane2 by (auto simp: lane_free_def lane_ok_def lane_def)
  moreover have "?qr < length (b_objs ?b2)" using qr by simp
  ultimately have pumped: "lane_ok True pat ?qr (lane (pump ?qr ?b2) ?qr)"
    "queue_bodies (q_at (pump ?qr ?b2) ?qr) = queue_bodies (q_at ?b2 ?qr)"
    "length (b_microtasks (pump ?qr ?b2)) + length (bq_pending (q_at (pump ?qr ?b2) ?qr)) =
       length (b_microtasks ?b2) + length (bq_pending (q_at ?b2 ?qr))"
    using pump_free_lane by blast+
  have "queue_bodies (q_at ?b2 ?qr) = tl bodies"
    using has inflight unfolding q2 by (auto simp: lane_has_def queue_bodies_def)
  with pumped show "lane_has True pat (tl bodies) ?qr (acked b)"
    by (simp add: acked_eq [OF d] settle lane_has_def)
  show "Suc (length (b_microtasks (acked b)) + length (bq_pending (q_at (acked b) ?qr))) =
      length (b_microtasks b) + length (bq_pending (q_at b ?qr))"
    using pumped(3) q2 by (simp add: acked_eq [OF d] settle) (simp add: d)
qed

lemma acked_closed:
  assumes d: "b_microtasks b = d # ds" and has: "lane_has False pat bodies (dl_queue d) b"
  shows "lane_has False pat bodies' (dl_queue d) (acked b)" and "b_microtasks (acked b) = ds"
    and "q_at (acked b) qr = q_at b qr"
proof -
  let ?b1 = "b\<lparr>b_microtasks := ds, b_delivered := b_delivered b @ [d]\<rparr>"
  have "bq_inflight (q_at ?b1 (dl_queue d)) = []" using has by (simp add: lane_has_def lane_ok_def lane_def q_at_def)
  then have settle: "settle Ack (dl_queue d) (bm_ref (dl_message d)) (dl_consumer d) ?b1 = ?b1"
    by (simp add: settle_def inflight_get_def)
  have acked: "acked b = ?b1\<lparr>b_settled := insert (length (b_delivered b)) (b_settled b)\<rparr>"
    by (simp add: acked_eq [OF d] settle)
  show "b_microtasks (acked b) = ds" and "q_at (acked b) qr = q_at b qr"
    unfolding acked by (simp_all add: q_at_def)
  show "lane_has False pat bodies' (dl_queue d) (acked b)"
    using has d unfolding acked by (auto simp: lane_has_def lane_ok_def lane_def q_at_def)
qed

section \<open>Leaving and arriving\<close>

lemma unsubscribe_closes:
  assumes "qr < length (b_objs b)" and "lane_ok True pat qr (lane b qr)"
  shows "lane_ok False pat qr (lane (unsubscribe qr qr b) qr)"
    and "qr' \<noteq> qr \<Longrightarrow> lane (unsubscribe qr qr b) qr' = lane b qr'"
    and "b_microtasks (unsubscribe qr qr b) = b_microtasks b" and "same_frame b (unsubscribe qr qr b)"
proof -
  let ?q = "(q_at b qr)\<lparr>bq_consumers := remove1 qr (bq_consumers (q_at b qr))\<rparr>"
  define r where "r = release qr ?q"
  have cons: "bq_consumers (q_at b qr) = [qr]" and inflight: "\<forall>x \<in> set (bq_inflight (q_at b qr)). snd x = qr"
    and one: "length (bq_inflight (q_at b qr)) \<le> 1"
    using assms(2) by (auto simp: lane_ok_def lane_def split: list.splits)
  from one have "distinct (map (bm_ref \<circ> fst) (bq_inflight ?q))" by (cases "bq_inflight (q_at b qr)") auto
  from release_eq [OF this, of qr] inflight
  obtain ps where r: "r = ?q\<lparr>bq_inflight := [], bq_pending := ps\<rparr>"
    by (auto simp: r_def filter_empty_conv case_prod_beta)
  then have "bq_consumers r = []" using cons by simp
  then have "pump_queue r = (r, [])" by (simp add: pump_queue.simps [of r])
  moreover have u: "unsubscribe qr qr b = pump qr (set_queue qr r b)" by (simp add: unsubscribe_def r_def Let_def)
  ultimately have lane: "lane (unsubscribe qr qr b) i = (if i = qr then (r, snd (lane b qr)) else lane b i)"
    and micro: "b_microtasks (unsubscribe qr qr b) = b_microtasks b" for i
    using assms(1) by (simp_all add: lane_pump lane_set_queue q_at_set_queue pump_microtasks u)
  show "lane_ok False pat qr (lane (unsubscribe qr qr b) qr)"
    using assms(2) cons unfolding lane by (auto simp: r lane_ok_def lane_def)
  show "qr' \<noteq> qr \<Longrightarrow> lane (unsubscribe qr qr b) qr' = lane b qr'" by (simp add: lane)
  show "b_microtasks (unsubscribe qr qr b) = b_microtasks b" by (rule micro)
  show "same_frame b (unsubscribe qr qr b)" by (simp add: u same_frame_def)
qed

lemma bindScope_lane:
  assumes fresh: "ids_unused c" and inst: "CHR ''.'' \<notin> set inst"
    and n: "n = length (b_objs (bus_of c))" "sink_handler k scope = n"
    and tops: "coalesce (b_byTopic (bus_of c) SSE_CHANNEL) [] = [0 ..< n]"
    and targets: "\<forall>d \<in> set (b_microtasks (bus_of c)). dl_queue d < n"
  shows "\<exists>c'. bindScope (BusMessagePort memory_adapter inst now) scope uid k c = (Inr (n, n), c') \<and> ids_unused c' \<and>
    length (b_objs (bus_of c')) = Suc n \<and> coalesce (b_byTopic (bus_of c') SSE_CHANNEL) [] = [0 ..< Suc n] \<and>
    b_microtasks (bus_of c') = b_microtasks (bus_of c) \<and> (\<forall>qr < n. lane (bus_of c') qr = lane (bus_of c) qr) \<and>
    lane_has True (routingKeyFor (target scope uid)) [] n (bus_of c')"
proof -
  let ?key = "routingKeyFor (target scope uid)"
  let ?sid = "subscriber_id inst ?key (now (cl_bus c)) (cl_seq c inst)"
  let ?s = "subscribe SSE_CHANNEL n (transient_options ?key ?sid) (bus_of c)"
  obtain b' sub where s: "?s = (b', sub)" by (cases ?s)
  have free: "b_queues (bus_of c) (bus_key SSE_CHANNEL ?sid) = None" using fresh inst by (simp add: ids_unused_def)
  have opts: "so_subscriberId (transient_options ?key ?sid) = Some ?sid" "so_streamReplay (transient_options ?key ?sid) = None"
    by (simp_all add: transient_options_def no_subscribe_options_def)
  note f = subscribe_fresh [OF free opts, where h = n, unfolded s, simplified, folded n(1)]
  obtain c' where c': "bindScope (BusMessagePort memory_adapter inst now) scope uid k c = (Inr (n, n), c')" "ids_unused c'"
    using bindScope_memory [OF fresh inst, of now scope uid k] n by metis
  moreover have b': "bus_of c' = b'"
    using bmp_subscribe_memory [of n ?key inst now c b' sub, OF s] c'(1) n(2) by (auto simp: bindScope_def)
  have "lane b' qr = lane (bus_of c) qr" if "qr < n" for qr
    using f(3,9) that by (simp add: lane_def)
  moreover have "filter (\<lambda>d. dl_queue d = n) (b_microtasks (bus_of c)) = []"
    using targets by (auto simp: filter_empty_conv)
  then have "lane b' n = (q_at b' n, [])" using f(9) by (simp add: lane_def)
  then have "lane_has True ?key [] n b'"
    by (simp add: lane_has_def f(10) lane_ok_def mk_queue_def queue_bodies_def transient_options_def no_subscribe_options_def)
  ultimately show ?thesis using f(2,8,9) tops by (intro exI [of _ c']) (auto simp: b')
qed

end
