(* ===== verification/Sse_Simulation.thy ===== *)
theory Sse_Simulation
  imports Sse_Lanes
begin

text \<open>
  The SSE cluster on the in-process broker and its specification: the simulation relation \<open>represents\<close>, and that every
  event of the cluster is a step of the specification.
\<close>

section \<open>Simulation\<close>

text \<open>How a stream of the specification stands for one of the cluster, and the specification for the cluster.\<close>

definition stream_key :: "Stream \<Rightarrow> Scope \<Rightarrow> string" where
  "stream_key st s = routingKeyFor (target s (pick (sm_user st) (sm_org st) s))"

definition stream_rep :: "Bus \<Rightarrow> nat \<Rightarrow> Stream \<Rightarrow> Inbox \<Rightarrow> bool" where
  "stream_rep b k st ib \<longleftrightarrow>
     sm_subs st = ((2 * k, 2 * k), (Suc (2 * k), Suc (2 * k))) \<and>
     ib_inst ib = sm_inst st \<and> ib_id ib = pick (sm_user st) (sm_org st) \<and> ib_open ib = sm_open st \<and> ib_out ib = sm_out st \<and>
     (\<forall>s. lane_has (sm_open st) (stream_key st s) (ib_waiting ib s) (sink_handler k s) b) \<and>
     (\<not> sm_open st \<longrightarrow> ib_waiting ib = (\<lambda>_. []))"

lemma stream_rep_lane:
  "stream_rep b k st ib \<Longrightarrow> lane_has (sm_open st) (stream_key st s) (ib_waiting ib s) (sink_handler k s) b"
  unfolding stream_rep_def by blast

definition frame_ok :: "nat \<Rightarrow> Bus \<Rightarrow> bool" where
  "frame_ok n b \<longleftrightarrow> length (b_objs b) = 2 * n \<and> coalesce (b_byTopic b SSE_CHANNEL) [] = [0 ..< 2 * n] \<and>
     (\<forall>d \<in> set (b_microtasks b). dl_queue d < 2 * n)"

definition represents :: "System \<Rightarrow> Inbox list \<Rightarrow> bool" where
  "represents S ibs \<longleftrightarrow> ids_unused (sy_cluster S) \<and> frame_ok (length (sy_streams S)) (sy_bus S) \<and>
     list_all2 (\<lambda>(k, st) ib. stream_rep (sy_bus S) k st ib) (enumerate 0 (sy_streams S)) ibs"

lemma represents_iff:
  "represents S ibs \<longleftrightarrow> ids_unused (sy_cluster S) \<and> frame_ok (length (sy_streams S)) (sy_bus S) \<and>
     length ibs = length (sy_streams S) \<and>
     (\<forall>k < length (sy_streams S). stream_rep (sy_bus S) k (sy_streams S ! k) (ibs ! k))"
  by (auto simp: represents_def list_all2_conv_all_nth nth_enumerate_eq)

lemma sink_handler_less: "k < n \<Longrightarrow> sink_handler k s < 2 * n"
  by (cases s) (simp_all add: sink_handler_def)

lemma sink_handler_inject: "sink_handler k s = sink_handler k' s' \<longleftrightarrow> k = k' \<and> s = s'"
  by (cases s; cases s') (simp_all add: sink_handler_def, presburger+)

lemma sink_handler_simps: "sink_handler k ScopeUser = 2 * k" "sink_handler k ScopeOrg = Suc (2 * k)"
  by (simp_all add: sink_handler_def)

lemma sink_handler_inverse: "sink_handler (h div 2) (scope_of h) = h"
  by (auto simp: sink_handler_def scope_of_def)

lemma handler_parts [simp]: "sink_handler k s div 2 = k" "scope_of (sink_handler k s) = s"
  by (cases s; simp add: sink_handler_def scope_of_def)+

lemma stream_key_nonempty [simp]: "stream_key st s \<noteq> []"
  by (simp add: stream_key_def routingKeyFor_def)

text \<open>An operation that leaves the two lanes of a stream alone leaves its representation.\<close>

lemma stream_rep_frame:
  assumes "stream_rep b k st ib" and "\<And>s. lane b' (sink_handler k s) = lane b (sink_handler k s)"
  shows "stream_rep b' k st ib"
  using assms(1) lane_has_cong [OF assms(2)] by (simp add: stream_rep_def)

lemma ids_unused_frame:
  assumes "ids_unused (sy_cluster S)" and "cl_seq (sy_cluster S') = cl_seq (sy_cluster S)"
    and "same_frame (sy_bus S) (sy_bus S')"
  shows "ids_unused (sy_cluster S')"
  using assms by (simp add: ids_unused_def same_frame_def sy_bus_def)

subsection \<open>Posts\<close>

lemma sys_post_bus:
  "sys_post inst at raw S = (case accepted inst at raw of
       None \<Rightarrow> S
     | Some (key, body) \<Rightarrow> on_broker (publish SSE_CHANNEL body (Some key) None) S)"
  by (auto simp: sys_post_def handlePublish_def accepted_def hub_publish_memory on_broker_def sy_bus_def Let_def
      split: sum.splits option.splits)

lemma on_broker_sel [simp]:
  "sy_bus (on_broker f S) = f (sy_bus S)" "sy_streams (on_broker f S) = sy_streams S"
  "cl_seq (sy_cluster (on_broker f S)) = cl_seq (sy_cluster S)"
  "bus_of (sy_cluster (on_broker f S)) = f (sy_bus S)"
  by (simp_all add: on_broker_def sy_bus_def)

lemma publish_micro_frame:
  "\<forall>d \<in> set (b_microtasks b). dl_queue d < n \<Longrightarrow> coalesce (b_byTopic b SSE_CHANNEL) [] = [0 ..< n] \<Longrightarrow>
   \<forall>d \<in> set (b_microtasks (publish SSE_CHANNEL body (Some key) None b)). dl_queue d < n"
proof -
  have step: "set (map dl_queue (b_microtasks (fold (enqueue topic body key None) qrs b))) \<subseteq> set (map dl_queue (b_microtasks b)) \<union> set qrs"
    for topic qrs b
  proof (induction qrs arbitrary: b)
    case (Cons qr qrs)
    have "set (map dl_queue (b_microtasks (enqueue topic body key None qr b))) \<subseteq> insert qr (set (map dl_queue (b_microtasks b)))"
      by (auto simp: enqueue_def pump_microtasks push_pending_def arm_ttl_def opt_field_def Let_def)
    with Cons [of "enqueue topic body key None qr b"] show ?case by auto
  qed simp
  assume a: "\<forall>d \<in> set (b_microtasks b). dl_queue d < n" and b: "coalesce (b_byTopic b SSE_CHANNEL) [] = [0 ..< n]"
  have "b_microtasks (append_log SSE_CHANNEL body key None b) = b_microtasks b" by (simp add: append_log_def Let_def)
  with step [of SSE_CHANNEL "[0 ..< n]" "append_log SSE_CHANNEL body key None b"] a
  show ?thesis unfolding publish_key_eq b by force
qed

lemma represents_post:
  assumes "represents S ibs"
  shows "represents (on_broker (publish SSE_CHANNEL body (Some key) None) S) (map (arrive key body) ibs)"
  unfolding represents_iff
proof (intro conjI allI impI)
  let ?S = "on_broker (publish SSE_CHANNEL body (Some key) None) S" and ?n = "length (sy_streams S)"
  note r = assms [unfolded represents_iff]
  have same: "same_frame (sy_bus S) (sy_bus ?S)" by (simp add: publish_frame)
  show "ids_unused (sy_cluster ?S)"
    by (rule ids_unused_frame [OF conjunct1 [OF r] _ same]) simp
  have frame: "frame_ok ?n (sy_bus S)" using r by simp
  then show "frame_ok (length (sy_streams ?S)) (sy_bus ?S)"
    using same publish_micro_frame [of "sy_bus S" "2 * ?n"] by (simp add: frame_ok_def same_frame_def)
  show "length (map (arrive key body) ibs) = length (sy_streams ?S)" using r by simp
  fix k assume k: "k < length (sy_streams ?S)"
  let ?st = "sy_streams S ! k" and ?ib = "ibs ! k"
  have rep: "stream_rep (sy_bus S) k ?st ?ib" using r k by simp
  have "lane_has (sm_open ?st) (stream_key ?st s)
      (ib_waiting ?ib s @ (if topicMatch (stream_key ?st s) key then [body] else [])) (sink_handler k s) (sy_bus ?S)" for s
    unfolding on_broker_sel
  proof (rule publish_lane_has)
    show "coalesce (b_byTopic (sy_bus S) SSE_CHANNEL) [] = [0 ..< 2 * ?n]" "2 * ?n \<le> length (b_objs (sy_bus S))"
      using frame by (simp_all add: frame_ok_def)
    show "sink_handler k s < 2 * ?n" using k by (simp add: sink_handler_less)
    show "lane_has (sm_open ?st) (stream_key ?st s) (ib_waiting ?ib s) (sink_handler k s) (sy_bus S)"
      using rep by (simp add: stream_rep_def)
  qed simp
  moreover have "takes_key ?ib s key \<longleftrightarrow> topicMatch (stream_key ?st s) key" for s
    using rep by (simp add: stream_rep_def takes_key_def stream_key_def)
  ultimately have "stream_rep (sy_bus ?S) k ?st (arrive key body ?ib)"
    using rep by (auto simp: stream_rep_def arrive_def lane_has_def)
  then show "stream_rep (sy_bus ?S) k (sy_streams ?S ! k) (map (arrive key body) ibs ! k)"
    using r k by simp
qed

subsection \<open>Deliveries\<close>

lemma acked_micro_frame:
  assumes "b_microtasks b = d # ds" and "\<forall>d \<in> set (b_microtasks b). dl_queue d < n"
  shows "\<forall>d \<in> set (b_microtasks (acked b)). dl_queue d < n"
proof -
  let ?b1 = "b\<lparr>b_microtasks := ds, b_delivered := b_delivered b @ [d]\<rparr>"
  have "\<forall>d' \<in> set (b_microtasks (settle Ack (dl_queue d) (bm_ref (dl_message d)) (dl_consumer d) ?b1)). dl_queue d' < n"
    using assms by (cases rule: settle_ack_cases [of "dl_queue d" "bm_ref (dl_message d)" "dl_consumer d" ?b1])
      (auto simp: pump_microtasks)
  then show ?thesis by (simp add: acked_eq [OF assms(1)])
qed

text \<open>The head of the schedule belongs to a stream.\<close>

lemma represents_head:
  assumes "represents S ibs" and "b_microtasks (sy_bus S) = d # ds"
  obtains k s where "k < length (sy_streams S)" "dl_queue d = sink_handler k s" "dl_consumer d = sink_handler k s"
    "stream_rep (sy_bus S) k (sy_streams S ! k) (ibs ! k)" "dl_queue d < length (b_objs (sy_bus S))"
proof -
  let ?k = "dl_queue d div 2" and ?s = "scope_of (dl_queue d)"
  note r = assms(1) [unfolded represents_iff frame_ok_def]
  have q: "dl_queue d < 2 * length (sy_streams S)" using r assms(2) by simp
  then have k: "?k < length (sy_streams S)" by simp
  with r have rep: "stream_rep (sy_bus S) ?k (sy_streams S ! ?k) (ibs ! ?k)" by blast
  then have "lane_ok (sm_open (sy_streams S ! ?k)) (stream_key (sy_streams S ! ?k) ?s) (dl_queue d) (lane (sy_bus S) (dl_queue d))"
    unfolding stream_rep_def lane_has_def by (metis sink_handler_inverse)
  then have "dl_consumer d = dl_queue d" using assms(2) by (auto simp: lane_ok_def lane_def)
  then show thesis using that [of ?k ?s] k rep q r by (simp add: sink_handler_inverse)
qed

lemma acked_stream:
  assumes d: "b_microtasks b = d # ds" "dl_queue d < length (b_objs b)"
    and qr: "dl_queue d = sink_handler k s" "dl_consumer d = sink_handler k s"
    and rep: "stream_rep b k st ib"
  shows "stream_rep (acked b) k
    (if sm_open st then st\<lparr>sm_out := sm_out st @ [deliver_frame s (sm_inst st) (wrap (dl_message d))]\<rparr> else st) (hand_over s ib)"
proof (cases "sm_open st")
  case True
  have open_lanes: "lane_has True (stream_key st s') (ib_waiting ib s') (sink_handler k s') b" for s'
    using rep True by (simp add: stream_rep_def)
  have has: "lane_has True (stream_key st s) (ib_waiting ib s) (dl_queue d) b"
    using open_lanes [of s] qr(1) by simp
  note a = acked_open [OF d has]
  then obtain rest where w: "ib_waiting ib s = bm_body (dl_message d) # rest" by (cases "ib_waiting ib s") auto
  have "lane_has True (stream_key st s') (if s' = s then rest else ib_waiting ib s') (sink_handler k s') (acked b)" for s'
  proof (cases "s' = s")
    case True
    with a(2) w qr(1) show ?thesis by simp
  next
    case False
    then have "lane (acked b) (sink_handler k s') = lane b (sink_handler k s')"
      using qr(1) by (intro acked_other [OF d]) (simp add: sink_handler_inject)
    then have "lane_has True (stream_key st s') (ib_waiting ib s') (sink_handler k s') (acked b)"
      using open_lanes [of s'] by (subst lane_has_cong) simp_all
    with False show ?thesis by simp
  qed
  with True rep w show ?thesis
    by (auto simp: stream_rep_def hand_over_def frame_call_def deliver_frame_def wrap_def stream_key_def)
next
  case False
  have closed_lanes: "lane_has False (stream_key st s') [] (sink_handler k s') b" for s'
    using rep False unfolding stream_rep_def by metis
  have has: "lane_has False (stream_key st s) [] (dl_queue d) b"
    using closed_lanes [of s] qr(1) by simp
  have "lane_has False (stream_key st s') [] (sink_handler k s') (acked b)" for s'
  proof (cases "s' = s")
    case True
    with acked_closed(1) [OF d(1) has] qr(1) show ?thesis by simp
  next
    case False
    then have "lane (acked b) (sink_handler k s') = lane b (sink_handler k s')"
      using qr(1) by (intro acked_other [OF d]) (simp add: sink_handler_inject)
    then show ?thesis using closed_lanes [of s'] by (subst lane_has_cong) simp_all
  qed
  with False rep show ?thesis by (simp add: stream_rep_def hand_over_def)
qed

lemma sys_deliver_eq:
  "b_microtasks (sy_bus S) = d # ds \<Longrightarrow> sys_deliver S =
     (on_broker acked S)\<lparr>sy_streams := write_frame (dl_consumer d) (wrap (dl_message d)) (sy_streams S)\<rparr>"
  by (simp add: sys_deliver_def acked_def [abs_def])

lemma on_broker_streams [simp]:
  "sy_bus (S\<lparr>sy_streams := sts\<rparr>) = sy_bus S"
  by (simp add: sy_bus_def)

lemma represents_deliver:
  assumes "represents S ibs"
  shows "represents (sys_deliver S) (fold spec_step (spec_of S Deliver) ibs)"
proof (cases "b_microtasks (sy_bus S)")
  case Nil
  with assms show ?thesis by (simp add: sys_deliver_def)
next
  case (Cons d ds)
  let ?b = "sy_bus S" and ?n = "length (sy_streams S)"
  note r = assms [unfolded represents_iff]
  obtain k s where k: "k < ?n" and qr: "dl_queue d = sink_handler k s" "dl_consumer d = sink_handler k s"
    and rep: "stream_rep ?b k (sy_streams S ! k) (ibs ! k)" and q: "dl_queue d < length (b_objs ?b)"
    by (rule represents_head [OF assms Cons])
  let ?st = "sy_streams S ! k"
  let ?st' = "if sm_open ?st then ?st\<lparr>sm_out := sm_out ?st @ [deliver_frame s (sm_inst ?st) (wrap (dl_message d))]\<rparr> else ?st"
  have sts: "write_frame (dl_consumer d) (wrap (dl_message d)) (sy_streams S) = (sy_streams S)[k := ?st']"
    using k by (simp add: write_frame_def qr(2) Let_def)
  have spec: "fold spec_step (spec_of S Deliver) ibs = ibs[k := hand_over s (ibs ! k)]"
    using k r by (simp add: Cons qr(2) at_index_def)
  have same: "same_frame ?b (acked ?b)" by (rule acked_frame [OF Cons])
  show ?thesis
    unfolding spec sys_deliver_eq [OF Cons] sts represents_iff
  proof (intro conjI allI impI)
    show "ids_unused (sy_cluster ((on_broker acked S)\<lparr>sy_streams := (sy_streams S)[k := ?st']\<rparr>))"
      by (rule ids_unused_frame [OF conjunct1 [OF r]]) (simp_all add: same)
    show "frame_ok (length (sy_streams ((on_broker acked S)\<lparr>sy_streams := (sy_streams S)[k := ?st']\<rparr>)))
        (sy_bus ((on_broker acked S)\<lparr>sy_streams := (sy_streams S)[k := ?st']\<rparr>))"
      using r same acked_micro_frame [OF Cons, of "2 * ?n"] by (simp add: frame_ok_def same_frame_def)
    fix i assume i: "i < length (sy_streams ((on_broker acked S)\<lparr>sy_streams := (sy_streams S)[k := ?st']\<rparr>))"
    show "stream_rep (sy_bus ((on_broker acked S)\<lparr>sy_streams := (sy_streams S)[k := ?st']\<rparr>)) i
        (sy_streams ((on_broker acked S)\<lparr>sy_streams := (sy_streams S)[k := ?st']\<rparr>) ! i) (ibs[k := hand_over s (ibs ! k)] ! i)"
    proof (cases "i = k")
      case True
      with acked_stream [OF Cons q qr rep] k r show ?thesis by simp
    next
      case False
      have "lane (acked ?b) (sink_handler i s') = lane ?b (sink_handler i s')" for s'
        using False qr(1) by (intro acked_other [OF Cons q]) (simp add: sink_handler_inject)
      with False i r show ?thesis by (auto intro: stream_rep_frame)
    qed
  qed (use r in simp)
qed

subsection \<open>Streams come and go\<close>

lemma lane_ok_closed_has: "lane_ok False pat qr (lane b qr) \<Longrightarrow> lane_has False pat bodies qr b"
  by (simp add: lane_has_def)

definition leave :: "nat \<Rightarrow> Bus \<Rightarrow> Bus" where
  "leave k b = unsubscribe (Suc (2 * k)) (Suc (2 * k)) (unsubscribe (2 * k) (2 * k) b)"

lemma same_frame_trans: "same_frame b b1 \<Longrightarrow> same_frame b1 b2 \<Longrightarrow> same_frame b b2"
  by (simp add: same_frame_def)

lemma leave_lanes:
  assumes len: "Suc (2 * k) < length (b_objs b)"
    and lanes: "\<And>s. lane_ok True (stream_key st s) (sink_handler k s) (lane b (sink_handler k s))"
  shows "lane_ok False (stream_key st s) (sink_handler k s) (lane (leave k b) (sink_handler k s))"
    and "k' \<noteq> k \<Longrightarrow> lane (leave k b) (sink_handler k' s) = lane b (sink_handler k' s)"
    and "b_microtasks (leave k b) = b_microtasks b" and "same_frame b (leave k b)"
proof -
  let ?b1 = "unsubscribe (2 * k) (2 * k) b"
  have u: "lane_ok True (stream_key st ScopeUser) (2 * k) (lane b (2 * k))"
    and v: "lane_ok True (stream_key st ScopeOrg) (Suc (2 * k)) (lane b (Suc (2 * k)))"
    using lanes [of ScopeUser] lanes [of ScopeOrg] by (simp_all add: sink_handler_def)
  have "2 * k < length (b_objs b)" using len by simp
  note first = unsubscribe_closes [OF this u]
  have len1: "Suc (2 * k) < length (b_objs ?b1)" using first(4) len by (simp add: same_frame_def)
  have "lane_ok True (stream_key st ScopeOrg) (Suc (2 * k)) (lane ?b1 (Suc (2 * k)))" using v first(2) by simp
  note second = unsubscribe_closes [OF len1 this]
  show "lane_ok False (stream_key st s) (sink_handler k s) (lane (leave k b) (sink_handler k s))"
    using first(1) second(1,2) by (cases s) (simp_all add: leave_def sink_handler_def)
  show "lane (leave k b) (sink_handler k' s) = lane b (sink_handler k' s)" if "k' \<noteq> k"
    using that first(2) second(2) sink_handler_inject [of k' s k ScopeUser] sink_handler_inject [of k' s k ScopeOrg]
    by (simp add: leave_def sink_handler_simps)
  show "b_microtasks (leave k b) = b_microtasks b" using first(3) second(3) by (simp add: leave_def)
  show "same_frame b (leave k b)" unfolding leave_def by (rule same_frame_trans [OF first(4) second(4)])
qed

lemma sys_close_eq:
  assumes "k < length (sy_streams S)" and "sm_open (sy_streams S ! k)"
    and "sm_subs (sy_streams S ! k) = ((2 * k, 2 * k), (Suc (2 * k), Suc (2 * k)))"
  shows "sys_close k S = (on_broker (leave k) S)\<lparr>sy_streams := (sy_streams S)[k := (sy_streams S ! k)\<lparr>sm_open := False\<rparr>]\<rparr>"
  using assms by (simp add: sys_close_def hub_teardown_def stop_memory_def on_broker_def leave_def sy_bus_def Let_def)

lemma represents_close:
  assumes "represents S ibs"
  shows "represents (sys_close k S) (at_index k shut ibs)"
proof (cases "k < length (sy_streams S) \<and> sm_open (sy_streams S ! k)")
  case False
  note r = assms [unfolded represents_iff]
  have "shut (ibs ! k) = ibs ! k" if "k < length ibs"
    using that r False by (auto simp: shut_def stream_rep_def)
  then have "at_index k shut ibs = ibs" by (simp add: at_index_def)
  moreover have "sys_close k S = S" using False by (auto simp: sys_close_def Let_def)
  ultimately show ?thesis using assms by simp
next
  case True
  note r = assms [unfolded represents_iff]
  let ?b = "sy_bus S" and ?n = "length (sy_streams S)" and ?st = "sy_streams S ! k"
  let ?S = "(on_broker (leave k) S)\<lparr>sy_streams := (sy_streams S)[k := ?st\<lparr>sm_open := False\<rparr>]\<rparr>"
  have k: "k < ?n" and rep: "stream_rep ?b k ?st (ibs ! k)" using r True by blast+
  have len: "Suc (2 * k) < length (b_objs ?b)" using k r by (simp add: frame_ok_def)
  have "lane_ok True (stream_key ?st s) (sink_handler k s) (lane ?b (sink_handler k s))" for s
    using rep True by (simp add: stream_rep_def lane_has_def)
  note l = leave_lanes [OF len this]
  have eq: "sys_close k S = ?S"
    using True rep by (intro sys_close_eq) (simp_all add: stream_rep_def)
  have spec: "at_index k shut ibs = ibs[k := shut (ibs ! k)]" using k r by (simp add: at_index_def)
  show ?thesis
    unfolding eq spec represents_iff
  proof (intro conjI allI impI)
    show "ids_unused (sy_cluster ?S)"
      by (rule ids_unused_frame [OF conjunct1 [OF r]]) (simp_all add: l(4))
    show "frame_ok (length (sy_streams ?S)) (sy_bus ?S)"
      using r l(3,4) by (simp add: frame_ok_def same_frame_def)
    fix i assume i: "i < length (sy_streams ?S)"
    show "stream_rep (sy_bus ?S) i (sy_streams ?S ! i) (ibs[k := shut (ibs ! k)] ! i)"
    proof (cases "i = k")
      case True
      have "lane_has False (stream_key ?st s) [] (sink_handler k s) (leave k ?b)" for s
        by (rule lane_ok_closed_has [OF l(1)])
      with True rep k r \<open>k < ?n \<and> sm_open ?st\<close> show ?thesis
        by (simp add: stream_rep_def shut_def stream_key_def)
    next
      case False
      with l(2) i r show ?thesis by (auto intro: stream_rep_frame)
    qed
  qed (use r in simp)
qed

lemma represents_open:
  assumes "represents S ibs" and inst: "CHR ''.'' \<notin> set inst"
  shows "represents (sys_open inst userId orgId S) (spec_step (SOpen inst userId orgId) ibs)"
proof -
  note r = assms(1) [unfolded represents_iff frame_ok_def]
  let ?n = "length (sy_streams S)"
  let ?c = "sy_cluster S"
  have b: "bus_of ?c = sy_bus S" by (simp add: sy_bus_def)
  have tops: "coalesce (b_byTopic (bus_of ?c) SSE_CHANNEL) [] = [0 ..< 2 * ?n]"
    and targets: "\<forall>d \<in> set (b_microtasks (bus_of ?c)). dl_queue d < 2 * ?n"
    and len: "2 * ?n = length (b_objs (bus_of ?c))" and ids: "ids_unused ?c"
    using r unfolding b by simp_all
  obtain c1 where c1: "bindScope (BusMessagePort memory_adapter inst is_now) ScopeUser userId ?n ?c = (Inr (2 * ?n, 2 * ?n), c1)"
    "ids_unused c1" "length (b_objs (bus_of c1)) = Suc (2 * ?n)"
    "coalesce (b_byTopic (bus_of c1) SSE_CHANNEL) [] = [0 ..< Suc (2 * ?n)]"
    "b_microtasks (bus_of c1) = b_microtasks (bus_of ?c)" "\<forall>qr < 2 * ?n. lane (bus_of c1) qr = lane (bus_of ?c) qr"
    "lane_has True (routingKeyFor (target ScopeUser userId)) [] (2 * ?n) (bus_of c1)"
    using bindScope_lane [OF ids inst len sink_handler_simps(1) tops targets, of is_now userId] by blast
  have targets1: "\<forall>d \<in> set (b_microtasks (bus_of c1)). dl_queue d < Suc (2 * ?n)"
    using c1(5) targets by auto
  obtain c2 where c2: "bindScope (BusMessagePort memory_adapter inst is_now) ScopeOrg orgId ?n c1 = (Inr (Suc (2 * ?n), Suc (2 * ?n)), c2)"
    "ids_unused c2" "length (b_objs (bus_of c2)) = Suc (Suc (2 * ?n))"
    "coalesce (b_byTopic (bus_of c2) SSE_CHANNEL) [] = [0 ..< Suc (Suc (2 * ?n))]"
    "b_microtasks (bus_of c2) = b_microtasks (bus_of c1)" "\<forall>qr < Suc (2 * ?n). lane (bus_of c2) qr = lane (bus_of c1) qr"
    "lane_has True (routingKeyFor (target ScopeOrg orgId)) [] (Suc (2 * ?n)) (bus_of c2)"
    using bindScope_lane [OF c1(2) inst c1(3) [symmetric] sink_handler_simps(2) c1(4) targets1, of is_now orgId] by blast
  let ?st = "\<lparr>sm_inst = inst, sm_user = userId, sm_org = orgId,
    sm_subs = ((2 * ?n, 2 * ?n), (Suc (2 * ?n), Suc (2 * ?n))), sm_open = True, sm_out = setCors @ openSseSink inst userId orgId\<rparr>"
  let ?S = "S\<lparr>sy_cluster := c2, sy_streams := sy_streams S @ [?st]\<rparr>"
  have eq: "sys_open inst userId orgId S = ?S"
    using c1(1) c2(1) by (simp add: sys_open_def hub_connect_def)
  have old_lanes: "lane (bus_of c2) qr = lane (sy_bus S) qr" if "qr < 2 * ?n" for qr
    using that c1(6) c2(6) b by simp
  have user: "lane_has True (routingKeyFor (target ScopeUser userId)) [] (2 * ?n) (bus_of c2)"
    using c1(7) c2(6) by (subst lane_has_cong [of _ _ "bus_of c1"]) simp_all
  have new_stream: "stream_rep (bus_of c2) ?n ?st \<lparr>ib_inst = inst, ib_id = pick userId orgId, ib_open = True,
      ib_waiting = (\<lambda>_. []), ib_out = setCors @ openSseSink inst userId orgId\<rparr>"
    unfolding stream_rep_def
  proof (intro conjI allI)
    fix s
    show "lane_has (sm_open ?st) (stream_key ?st s) (ib_waiting \<lparr>ib_inst = inst, ib_id = pick userId orgId, ib_open = True,
      ib_waiting = (\<lambda>_. []), ib_out = setCors @ openSseSink inst userId orgId\<rparr> s) (sink_handler ?n s) (bus_of c2)"
      using user c2(7) by (cases s) (simp_all add: stream_key_def pick_def sink_handler_simps)
  qed simp_all
  show ?thesis
    unfolding eq represents_iff
  proof (intro conjI allI impI)
    show "ids_unused (sy_cluster ?S)" using c2(2) by simp
    show "frame_ok (length (sy_streams ?S)) (sy_bus ?S)"
      using c2(3-5) targets1 by (auto simp: frame_ok_def sy_bus_def less_Suc_eq)
    show "length (spec_step (SOpen inst userId orgId) ibs) = length (sy_streams ?S)" using r by simp
    fix i assume "i < length (sy_streams ?S)"
    then consider (old) "i < ?n" | (new) "i = ?n" by fastforce
    then show "stream_rep (sy_bus ?S) i (sy_streams ?S ! i) (spec_step (SOpen inst userId orgId) ibs ! i)"
    proof cases
      case old
      have "lane (bus_of c2) (sink_handler i s) = lane (sy_bus S) (sink_handler i s)" for s
        using sink_handler_less [OF old, of s] by (rule old_lanes)
      with old r show ?thesis by (auto simp: nth_append sy_bus_def intro: stream_rep_frame)
    next
      case new
      with new_stream r show ?thesis by (simp add: sy_bus_def nth_append)
    qed
  qed
qed

section \<open>The cluster implements the specification\<close>

text \<open>The names of the instances have no dots.\<close>

fun event_ok :: "sys_event \<Rightarrow> bool" where
  "event_ok (Open inst userId orgId) = (CHR ''.'' \<notin> set inst)"
| "event_ok _ = True"

lemma represents_step:
  assumes "represents S ibs" and "event_ok e"
  shows "represents (sys_step e S) (fold spec_step (spec_of S e) ibs)"
proof (cases e)
  case (Open inst userId orgId)
  with represents_open [OF assms(1)] assms(2) show ?thesis by simp
next
  case (Post inst at raw)
  with assms(1) represents_post [OF assms(1)] show ?thesis by (simp add: sys_post_bus split: option.split)
next
  case Deliver
  with represents_deliver [OF assms(1)] show ?thesis by simp
next
  case (Close k)
  with represents_close [OF assms(1)] show ?thesis by simp
qed

lemma represents_init: "represents sys_init []"
proof -
  have "ids_unused empty_cluster" by (rule ids_unused_empty)
  then show ?thesis
    by (simp add: represents_def sys_init_def empty_cluster_def frame_ok_def sy_bus_def is_init_def empty_bus_def)
qed

fun spec_trace :: "sys_event list \<Rightarrow> System \<Rightarrow> spec_event list" where
  "spec_trace [] S = []"
| "spec_trace (e # es) S = spec_of S e @ spec_trace es (sys_step e S)"

lemma sys_run_simps [simp]:
  "sys_run [] S = S" "sys_run (e # es) S = sys_run es (sys_step e S)" "sys_run (es @ es') S = sys_run es' (sys_run es S)"
  by (simp_all add: sys_run_def)

lemma spec_trace_append: "spec_trace (es @ es') S = spec_trace es S @ spec_trace es' (sys_run es S)"
  by (induction es arbitrary: S) simp_all

lemma represents_run:
  "represents S ibs \<Longrightarrow> list_all event_ok es \<Longrightarrow> represents (sys_run es S) (fold spec_step (spec_trace es S) ibs)"
  by (induction es arbitrary: S ibs) (simp_all add: represents_step)

end
