(* ===== verification/Sse_Delivery.thy ===== *)
theory Sse_Delivery
  imports Sse_Simulation
begin

text \<open>
  The SSE cluster on the in-process broker implements its specification: what the streams receive, and that
  everything they are sent arrives.
\<close>

section \<open>What a stream receives\<close>

text \<open>The frames of a scope among what is written.\<close>

definition scope_prefix :: "Scope \<Rightarrow> string" where
  "scope_prefix s = ''data: {'' @ dquote @ ''scope'' @ dquote @ '':'' @ dquote @ scope_text s @ dquote"

definition of_scope :: "Scope \<Rightarrow> res_call \<Rightarrow> bool" where
  "of_scope s call = (case call of WriteChunk t \<Rightarrow> take (length (scope_prefix s)) t = scope_prefix s | _ \<Rightarrow> False)"

lemma frame_text: "\<exists>t. frame_call s inst body = WriteChunk (scope_prefix s @ t)"
  by (cases s) (simp_all add: frame_call_def http_sink_def frame_of_def SseFrame_def scope_prefix_def dquote_def
      json_quote_def escape_char_def QUOTE_def BACKSLASH_def)

lemma scope_prefix_differ: "s \<noteq> s' \<Longrightarrow> take (length (scope_prefix s)) (scope_prefix s' @ t) \<noteq> scope_prefix s"
  by (cases s; cases s') (simp_all add: scope_prefix_def dquote_def)

lemma of_scope_frame [simp]: "of_scope s (frame_call s' inst body) \<longleftrightarrow> s = s'"
proof -
  obtain t where "frame_call s' inst body = WriteChunk (scope_prefix s' @ t)" using frame_text by blast
  then show ?thesis using scope_prefix_differ [of s s' t] by (cases "s = s'") (simp_all add: of_scope_def)
qed

lemma of_scope_opening [simp]: "filter (of_scope s) (setCors @ openSseSink inst userId orgId) = []"
  by (cases s) (simp_all add: setCors_def openSseSink_def of_scope_def hello_def scope_prefix_def)

text \<open>One stream of the specification, while it is open.\<close>

definition stream_log :: "Scope \<Rightarrow> Inbox \<Rightarrow> res_call list" where
  "stream_log s ib = filter (of_scope s) (ib_out ib) @ map (frame_call s (ib_inst ib)) (ib_waiting ib s)"

fun posted_by :: "string \<Rightarrow> spec_event \<Rightarrow> string list" where
  "posted_by pat (SPost key body) = (if topicMatch pat key then [body] else [])"
| "posted_by pat _ = []"

definition same_stream :: "Inbox \<Rightarrow> Inbox \<Rightarrow> bool" where
  "same_stream ib ib' \<longleftrightarrow> ib_open ib' = ib_open ib \<and> ib_inst ib' = ib_inst ib \<and> ib_id ib' = ib_id ib"

lemma spec_step_stream:
  assumes "k < length ibs" and "ib_open (ibs ! k)" and "e \<noteq> SClose k"
  defines "ib \<equiv> ibs ! k" and "ib' \<equiv> spec_step e ibs ! k"
  shows "k < length (spec_step e ibs) \<and> same_stream ib ib' \<and>
    stream_log s ib' = stream_log s ib @ map (frame_call s (ib_inst ib)) (posted_by (routingKeyFor (target s (ib_id ib s))) e)"
proof (cases e)
  case (SOpen inst userId orgId)
  then show ?thesis using assms(1) by (simp add: ib_def ib'_def nth_append same_stream_def)
next
  case (SPost key body)
  then show ?thesis using assms(1,2)
    by (simp add: ib_def ib'_def arrive_def same_stream_def stream_log_def takes_key_def)
next
  case (SDeliver k' s')
  show ?thesis
  proof (cases "k' = k \<and> k < length ibs")
    case True
    with SDeliver show ?thesis
      by (simp add: ib_def ib'_def at_index_def hand_over_def same_stream_def stream_log_def split: list.split)
  next
    case False
    with SDeliver assms(1) show ?thesis by (auto simp: ib_def ib'_def at_index_def same_stream_def)
  qed
next
  case (SClose k')
  with assms(1,3) show ?thesis by (auto simp: ib_def ib'_def at_index_def same_stream_def)
qed

lemma spec_run_stream:
  assumes "k < length ibs" and "ib_open (ibs ! k)" and "SClose k \<notin> set ls"
  shows "k < length (fold spec_step ls ibs) \<and> same_stream (ibs ! k) (fold spec_step ls ibs ! k) \<and>
    stream_log s (fold spec_step ls ibs ! k) = stream_log s (ibs ! k) @
      map (frame_call s (ib_inst (ibs ! k))) (concat (map (posted_by (routingKeyFor (target s (ib_id (ibs ! k) s)))) ls))"
  using assms
proof (induction ls arbitrary: ibs)
  case Nil
  then show ?case by (simp add: same_stream_def)
next
  case (Cons e ls)
  have step: "k < length (spec_step e ibs) \<and> same_stream (ibs ! k) (spec_step e ibs ! k) \<and>
    stream_log s (spec_step e ibs ! k) = stream_log s (ibs ! k) @
      map (frame_call s (ib_inst (ibs ! k))) (posted_by (routingKeyFor (target s (ib_id (ibs ! k) s))) e)"
    using Cons.prems by (intro spec_step_stream) auto
  with Cons.IH [of "spec_step e ibs"] Cons.prems show ?case by (simp add: same_stream_def)
qed

text \<open>The bodies of the accepted posts of a run whose key a pattern takes, in their order.\<close>

fun posts_to :: "string \<Rightarrow> sys_event list \<Rightarrow> string list" where
  "posts_to pat [] = []"
| "posts_to pat (Post inst at raw # es) =
     (case accepted inst at raw of
        None \<Rightarrow> posts_to pat es
      | Some (key, body) \<Rightarrow> (if topicMatch pat key then [body] else []) @ posts_to pat es)"
| "posts_to pat (e # es) = posts_to pat es"

lemma posts_to_trace: "concat (map (posted_by pat) (spec_trace es S)) = posts_to pat es"
proof (induction es arbitrary: S)
  case (Cons e es)
  show ?case by (cases e; cases "b_microtasks (sy_bus S)") (simp_all add: Cons split: option.split)
qed simp

lemma close_in_trace: "SClose k \<in> set (spec_trace es S) \<longleftrightarrow> Close k \<in> set es"
proof (induction es arbitrary: S)
  case (Cons e es)
  show ?case by (cases e) (auto simp: Cons split: option.splits list.splits)
qed simp

text \<open>What an open stream has been written and what still waits for it.\<close>

definition received :: "System \<Rightarrow> nat \<Rightarrow> Scope \<Rightarrow> res_call list" where
  "received S k s = filter (of_scope s) (sm_out (sy_streams S ! k))"

definition waiting :: "System \<Rightarrow> nat \<Rightarrow> Scope \<Rightarrow> string list" where
  "waiting S k s = queue_bodies (q_at (sy_bus S) (sink_handler k s))"

lemma stream_log_represents:
  assumes "represents S ibs" and "k < length (sy_streams S)" and "sm_open (sy_streams S ! k)"
  shows "stream_log s (ibs ! k) = received S k s @ map (frame_call s (sm_inst (sy_streams S ! k))) (waiting S k s)"
  using assms by (auto simp: represents_iff stream_rep_def lane_has_def stream_log_def received_def waiting_def)

lemma stream_run:
  assumes ok: "list_all event_ok (es @ Open inst userId orgId # es')"
    and "Close (length (sy_streams (sys_run es sys_init))) \<notin> set es'"
  defines "k \<equiv> length (sy_streams (sys_run es sys_init))" and "S \<equiv> sys_run (es @ Open inst userId orgId # es') sys_init"
  shows "k < length (sy_streams S)" and "sm_open (sy_streams S ! k)" and "sm_inst (sy_streams S ! k) = inst"
    and "received S k s @ map (frame_call s inst) (waiting S k s) =
      map (frame_call s inst) (posts_to (routingKeyFor (target s (pick userId orgId s))) es')"
proof -
  let ?S0 = "sys_run es sys_init" and ?S1 = "sys_run (es @ [Open inst userId orgId]) sys_init"
  let ?ibs0 = "fold spec_step (spec_trace es sys_init) []"
  let ?ibs1 = "spec_step (SOpen inst userId orgId) ?ibs0"
  let ?ls = "spec_trace es' ?S1"
  have rep0: "represents ?S0 ?ibs0" using represents_run [OF represents_init, of es] ok by simp
  then have k: "length ?ibs0 = k" by (simp add: represents_iff k_def)
  have "represents ?S1 ?ibs1" using represents_step [OF rep0, of "Open inst userId orgId"] ok by simp
  from represents_run [OF this, of es'] ok have rep: "represents S (fold spec_step ?ls ?ibs1)" by (simp add: S_def)
  have "SClose k \<notin> set ?ls" using assms(2) by (simp add: close_in_trace k_def)
  moreover have "k < length ?ibs1" "ib_open (?ibs1 ! k)" using k by (simp_all add: nth_append)
  ultimately have log: "k < length (fold spec_step ?ls ?ibs1) \<and> same_stream (?ibs1 ! k) (fold spec_step ?ls ?ibs1 ! k) \<and>
    stream_log s (fold spec_step ?ls ?ibs1 ! k) = stream_log s (?ibs1 ! k) @
      map (frame_call s (ib_inst (?ibs1 ! k))) (concat (map (posted_by (routingKeyFor (target s (ib_id (?ibs1 ! k) s)))) ?ls))" for s
    by (rule spec_run_stream [rotated 2])
  with rep show len: "k < length (sy_streams S)" by (simp add: represents_iff)
  then have st: "stream_rep (sy_bus S) k (sy_streams S ! k) (fold spec_step ?ls ?ibs1 ! k)"
    using rep by (simp add: represents_iff)
  with log k show opn: "sm_open (sy_streams S ! k)" and inst: "sm_inst (sy_streams S ! k) = inst"
    by (auto simp: stream_rep_def same_stream_def nth_append)
  have "stream_log s (?ibs1 ! k) = []" using k of_scope_opening [of s inst userId orgId] by (simp add: nth_append stream_log_def)
  with log [of s] stream_log_represents [OF rep len opn, of s] inst k
  show "received S k s @ map (frame_call s inst) (waiting S k s) =
      map (frame_call s inst) (posts_to (routingKeyFor (target s (pick userId orgId s))) es')"
    by (simp add: posts_to_trace nth_append)
qed

section \<open>Everything is delivered\<close>

text \<open>The deliveries that are left: those scheduled, and one for each message waiting behind them.\<close>

definition lane_load :: "System \<Rightarrow> nat \<Rightarrow> nat" where
  "lane_load S k =
     (if sm_open (sy_streams S ! k)
      then length (bq_pending (q_at (sy_bus S) (sink_handler k ScopeUser))) +
        length (bq_pending (q_at (sy_bus S) (sink_handler k ScopeOrg)))
      else 0)"

definition backlog :: "System \<Rightarrow> nat" where
  "backlog S = length (b_microtasks (sy_bus S)) + (\<Sum>k < length (sy_streams S). lane_load S k)"

lemma acked_load:
  assumes d: "b_microtasks b = d # ds" "dl_queue d < length (b_objs b)"
    and qr: "dl_queue d = sink_handler k s" and has: "lane_has True pat bodies (dl_queue d) b"
  shows "Suc (length (b_microtasks (acked b)) + (length (bq_pending (q_at (acked b) (sink_handler k ScopeUser))) +
      length (bq_pending (q_at (acked b) (sink_handler k ScopeOrg))))) =
    length (b_microtasks b) + (length (bq_pending (q_at b (sink_handler k ScopeUser))) +
      length (bq_pending (q_at b (sink_handler k ScopeOrg))))"
proof -
  have other: "q_at (acked b) (sink_handler k s') = q_at b (sink_handler k s')" if "s' \<noteq> s" for s'
    using acked_other [OF d, of "sink_handler k s'"] that qr by (metis lane_fst sink_handler_inject)
  show ?thesis
    using acked_open(3) [OF d has] qr other [of ScopeUser] other [of ScopeOrg] by (cases s) simp_all
qed

lemma backlog_deliver:
  assumes rep: "represents S ibs" and Cons: "b_microtasks (sy_bus S) = d # ds"
  shows "Suc (backlog (sys_deliver S)) = backlog S"
proof -
  let ?b = "sy_bus S" and ?n = "length (sy_streams S)" and ?S = "sys_deliver S"
  obtain k s where k: "k < ?n" and qr: "dl_queue d = sink_handler k s" "dl_consumer d = sink_handler k s"
    and st: "stream_rep ?b k (sy_streams S ! k) (ibs ! k)" and q: "dl_queue d < length (b_objs ?b)"
    by (rule represents_head [OF rep Cons])
  have bus: "sy_bus ?S = acked ?b" by (simp add: sys_deliver_eq [OF Cons])
  have sts: "length (sy_streams ?S) = ?n" "sm_open (sy_streams ?S ! i) = sm_open (sy_streams S ! i)" for i
    by (auto simp: sys_deliver_eq [OF Cons] write_frame_def Let_def nth_list_update)
  have others: "lane_load ?S i = lane_load S i" if "i \<noteq> k" for i
  proof -
    have "q_at (acked ?b) (sink_handler i s') = q_at ?b (sink_handler i s')" for s'
      using acked_other [OF Cons q, of "sink_handler i s'"] that qr(1) by (metis lane_fst sink_handler_inject)
    then show ?thesis by (simp add: lane_load_def sts bus)
  qed
  have this_one: "Suc (length (b_microtasks (acked ?b)) + lane_load ?S k) = length (b_microtasks ?b) + lane_load S k"
  proof (cases "sm_open (sy_streams S ! k)")
    case True
    then have "lane_has True (stream_key (sy_streams S ! k) s) (ib_waiting (ibs ! k) s) (dl_queue d) ?b"
      using st qr(1) by (simp add: stream_rep_def)
    from acked_load [OF Cons q qr(1) this] True show ?thesis by (simp add: lane_load_def sts bus)
  next
    case False
    then have "lane_has False (stream_key (sy_streams S ! k) s) (ib_waiting (ibs ! k) s) (dl_queue d) ?b"
      using stream_rep_lane [OF st, of s] qr(1) by simp
    from acked_closed(2) [OF Cons this] False show ?thesis by (simp add: lane_load_def sts Cons)
  qed
  have split: "(\<Sum>i < ?n. f i) = f k + (\<Sum>i \<in> {..< ?n} - {k}. f i)" for f :: "nat \<Rightarrow> nat"
    using k by (simp add: sum.remove)
  have "(\<Sum>i \<in> {..< ?n} - {k}. lane_load ?S i) = (\<Sum>i \<in> {..< ?n} - {k}. lane_load S i)"
    by (rule sum.cong) (simp_all add: others)
  then show ?thesis
    using this_one split [of "lane_load S"] split [of "lane_load ?S"] by (simp add: backlog_def sts bus)
qed

lemma represents_deliveries:
  assumes "represents S ibs"
  shows "\<exists>ibs'. represents (sys_run (replicate n Deliver) S) ibs'"
proof -
  have "list_all event_ok (replicate n Deliver)" by (simp add: list_all_iff)
  from represents_run [OF assms this] show ?thesis by blast
qed

lemma drained:
  "represents S ibs \<Longrightarrow> backlog S \<le> n \<Longrightarrow> b_microtasks (sy_bus (sys_run (replicate n Deliver) S)) = []"
proof (induction n arbitrary: S ibs)
  case 0
  then show ?case by (simp add: backlog_def)
next
  case (Suc n)
  show ?case
  proof (cases "b_microtasks (sy_bus S)")
    case Nil
    then have "sys_deliver S = S" by (simp add: sys_deliver_def)
    then have "sys_run (replicate (Suc n) Deliver) S = S" for n by (induction n) simp_all
    with Nil show ?thesis by simp
  next
    case (Cons d ds)
    with backlog_deliver [OF Suc.prems(1) Cons] Suc.prems(2) have "backlog (sys_deliver S) \<le> n" by simp
    with Suc.IH [OF represents_deliver [OF Suc.prems(1)]] show ?thesis by simp
  qed
qed

lemma nothing_waits:
  assumes "represents S ibs" and "k < length (sy_streams S)" and "sm_open (sy_streams S ! k)"
    and "b_microtasks (sy_bus S) = []"
  shows "waiting S k s = []"
proof -
  have "lane_ok True (stream_key (sy_streams S ! k) s) (sink_handler k s) (lane (sy_bus S) (sink_handler k s))"
    using assms(1,2,3) by (auto simp: represents_iff stream_rep_def lane_has_def)
  then show ?thesis
    using assms(4) by (auto simp: lane_ok_def lane_def waiting_def queue_bodies_def split: list.splits)
qed

section \<open>Properties\<close>

text \<open>C5. The cluster implements its specification: whatever streams are opened and closed, whatever is posted to
whichever instance and in whatever order the broker delivers, the cluster on the in-process broker represents the state
the broker-less specification is in after the corresponding events.\<close>

theorem sse_refines_spec:
  assumes "list_all event_ok es"
  shows "represents (sys_run es sys_init) (fold spec_step (spec_trace es sys_init) [])"
  by (rule represents_run [OF represents_init assms])

text \<open>C4. Exactly once and in order: while a stream is open, the frames it has been written of a scope, followed by the
frames of what waits for it, are the frames of the accepted posts since it was opened whose key its scope takes, each
once and in the order of the posts, whatever else happens on whichever instance.\<close>

theorem sse_exactly_once_in_order:
  assumes "list_all event_ok (es @ Open inst userId orgId # es')"
    and "Close (length (sy_streams (sys_run es sys_init))) \<notin> set es'"
  defines "k \<equiv> length (sy_streams (sys_run es sys_init))" and "S \<equiv> sys_run (es @ Open inst userId orgId # es') sys_init"
  shows "received S k s @ map (frame_call s inst) (waiting S k s) =
    map (frame_call s inst) (posts_to (routingKeyFor (target s (pick userId orgId s))) es')"
  unfolding k_def S_def by (rule stream_run(4) [OF assms(1,2)])

text \<open>A run: two streams on two instances, and two posts to a user of the second from the first.\<close>

definition demo_post :: "string \<Rightarrow> js_error + string" where
  "demo_post text = Inr (json_stringify (publish_body (target ScopeUser ''alice'') (JStr ''bob'') (JStr text)))"

definition demo_opening :: "sys_event list" where
  "demo_opening = [Open ''inst-7001'' ''bob'' ''acme'']"

definition demo_events :: "sys_event list" where
  "demo_events = [Post ''inst-7001'' ''t1'' (demo_post ''hi''), Post ''inst-7001'' ''t2'' (demo_post ''there''), Deliver]"

lemma demo_facts:
  "list_all event_ok (demo_opening @ Open ''inst-7002'' ''alice'' ''acme'' # demo_events)"
  "length (sy_streams (sys_run demo_opening sys_init)) = 1" "Close 1 \<notin> set demo_events"
  "length (posts_to (routingKeyFor (target ScopeUser ''alice'')) demo_events) = 2"
  by code_simp+

theorem sse_refines_spec_witness:
  "represents (sys_run (demo_opening @ Open ''inst-7002'' ''alice'' ''acme'' # demo_events) sys_init)
    (fold spec_step (spec_trace (demo_opening @ Open ''inst-7002'' ''alice'' ''acme'' # demo_events) sys_init) [])"
  by (rule sse_refines_spec [OF demo_facts(1)])

theorem sse_exactly_once_in_order_witness:
  "length (received (sys_run (demo_opening @ Open ''inst-7002'' ''alice'' ''acme'' # demo_events) sys_init) 1 ScopeUser @
     map (frame_call ScopeUser ''inst-7002'')
       (waiting (sys_run (demo_opening @ Open ''inst-7002'' ''alice'' ''acme'' # demo_events) sys_init) 1 ScopeUser)) = 2"
  using sse_exactly_once_in_order [OF demo_facts(1), unfolded demo_facts(2), OF demo_facts(3), of ScopeUser] demo_facts(4)
  by (simp only: pick_def Scope.case length_map)

text \<open>C6. Nothing is lost: however a run went on after a stream was opened, if nothing more happens than as many
deliveries as there are messages left, the stream has been written exactly the frames of all posts addressed to it.\<close>

theorem sse_all_received:
  assumes "list_all event_ok (es @ Open inst userId orgId # es')"
    and "Close (length (sy_streams (sys_run es sys_init))) \<notin> set es'"
    and "backlog (sys_run (es @ Open inst userId orgId # es') sys_init) \<le> n"
  defines "k \<equiv> length (sy_streams (sys_run es sys_init))"
    and "S \<equiv> sys_run (es @ Open inst userId orgId # es' @ replicate n Deliver) sys_init"
  shows "received S k s = map (frame_call s inst) (posts_to (routingKeyFor (target s (pick userId orgId s))) es')"
proof -
  let ?es = "es' @ replicate n Deliver" and ?S0 = "sys_run (es @ Open inst userId orgId # es') sys_init"
  have ok: "list_all event_ok (es @ Open inst userId orgId # ?es)"
    using assms(1) by (auto simp: list_all_iff)
  have no_close: "Close (length (sy_streams (sys_run es sys_init))) \<notin> set ?es"
    using assms(2) by (auto simp: set_replicate_conv_if)
  note run = stream_run [OF ok no_close, folded k_def S_def]
  note rep = represents_run [OF represents_init assms(1)] and rep' = represents_run [OF represents_init ok, folded S_def]
  have "S = sys_run (replicate n Deliver) ?S0" by (simp add: S_def)
  with drained [OF rep assms(3)] have "b_microtasks (sy_bus S) = []" by simp
  with nothing_waits [OF rep' run(1,2)] have "waiting S k s = []" by blast
  moreover have "posts_to pat (es' @ replicate n Deliver) = posts_to pat es'" for pat
  proof -
    have "posts_to pat (replicate n Deliver) = []" by (induction n) simp_all
    moreover have "posts_to pat (xs @ ys) = posts_to pat xs @ posts_to pat ys" for xs ys
      by (induction pat xs rule: posts_to.induct) (simp_all split: option.split)
    ultimately show ?thesis by simp
  qed
  ultimately show ?thesis using run(4) [of s] by simp
qed

theorem sse_all_received_witness:
  "length (received (sys_run (demo_opening @ Open ''inst-7002'' ''alice'' ''acme'' # demo_events @
     replicate (backlog (sys_run (demo_opening @ Open ''inst-7002'' ''alice'' ''acme'' # demo_events) sys_init)) Deliver)
     sys_init) 1 ScopeUser) = 2"
  using sse_all_received [OF demo_facts(1), unfolded demo_facts(2), OF demo_facts(3) order_refl, of ScopeUser] demo_facts(4)
  by (simp only: pick_def Scope.case length_map)

end
