(* ===== verification/Sse_Broker.thy ===== *)
theory Sse_Broker
  imports Sse_Delivery
begin

text \<open>
  The broker of a running SSE cluster is a bus in a reachable state, so that the invariants of the bus hold of it; and
  what becomes of the queue of a stream that was closed.
\<close>

section \<open>The broker behind the cluster\<close>

lemma sys_close_eq_or_id:
  assumes "represents S ibs"
  shows "sys_close k S = S \<or> (k < length (sy_streams S) \<and> sy_bus (sys_close k S) = leave k (sy_bus S))"
proof (cases "k < length (sy_streams S) \<and> sm_open (sy_streams S ! k)")
  case True
  with assms have "stream_rep (sy_bus S) k (sy_streams S ! k) (ibs ! k)" by (simp add: represents_iff)
  with True show ?thesis by (subst sys_close_eq) (simp_all add: stream_rep_def sy_bus_def on_broker_def)
next
  case False
  then show ?thesis by (auto simp: sys_close_def Let_def)
qed

lemma unsubscribe_length: "length (b_objs (unsubscribe qr h b)) = length (b_objs b)"
  by (simp add: unsubscribe_def Let_def)

lemma leave_reachable: "reachable b \<Longrightarrow> Suc (2 * k) < length (b_objs b) \<Longrightarrow> reachable (leave k b)"
  unfolding leave_def by (intro reachable.step [OF _ bus_step.unsubscribe]) (simp_all add: unsubscribe_length)

lemma acked_reachable:
  assumes "reachable b" and "b_microtasks b = d # ds"
  shows "reachable (acked b)"
proof -
  have "reachable (run_microtask b)" by (rule reachable.step [OF assms(1) bus_step.microtask]) (simp add: assms(2))
  moreover have "length (b_delivered b) < length (b_delivered (run_microtask b))"
    by (simp add: run_microtask_def assms(2))
  ultimately show ?thesis unfolding acked_def by (rule reachable.step [OF _ bus_step.ack])
qed

text \<open>The broker of a running cluster is a bus in a reachable state, so what holds of every such bus holds of it.\<close>

lemma sys_step_reachable:
  assumes "represents S ibs" and "reachable (sy_bus S)"
  shows "reachable (sy_bus (sys_step e S))"
proof (cases e)
  case (Open inst userId orgId)
  have "reachable (bus_of (snd (hub_connect (BusMessagePort memory_adapter inst is_now) userId orgId (length (sy_streams S)) (sy_cluster S))))"
    by (rule hub_connect_reachable) (use assms(2) in \<open>simp add: sy_bus_def\<close>)
  with Open show ?thesis by (auto simp: sys_open_def sy_bus_def split: prod.splits sum.splits)
next
  case (Post inst at raw)
  with assms(2) show ?thesis
    by (auto simp: sys_post_bus split: option.split intro: reachable.step bus_step.publish)
next
  case Deliver
  show ?thesis
  proof (cases "b_microtasks (sy_bus S)")
    case (Cons d ds)
    from acked_reachable [OF assms(2) Cons] Cons Deliver show ?thesis
      by (simp add: sys_deliver_def acked_def)
  qed (use assms(2) Deliver in \<open>simp add: sys_deliver_def\<close>)
next
  case (Close k)
  have "Suc (2 * k) < length (b_objs (sy_bus S))" if "k < length (sy_streams S)"
    using assms(1) that by (simp add: represents_iff frame_ok_def)
  with sys_close_eq_or_id [OF assms(1), of k] leave_reachable [OF assms(2)] assms(2) Close show ?thesis by fastforce
qed

lemma sys_run_reachable: "list_all event_ok es \<Longrightarrow> reachable (sy_bus (sys_run es sys_init))"
proof -
  have "represents S ibs \<Longrightarrow> reachable (sy_bus S) \<Longrightarrow> list_all event_ok es \<Longrightarrow> reachable (sy_bus (sys_run es S))" for S ibs
  proof (induction es arbitrary: S ibs)
    case (Cons e es)
    from Cons.prems(3) have "event_ok e" "list_all event_ok es" by simp_all
    from Cons.IH [OF represents_step [OF Cons.prems(1) this(1)] sys_step_reachable [OF Cons.prems(1,2)] this(2)]
    show ?case by simp
  qed simp
  moreover have "reachable (sy_bus sys_init)" by (simp add: sys_init_def sy_bus_def is_init_def reachable.start)
  ultimately show "list_all event_ok es \<Longrightarrow> ?thesis" using represents_init by blast
qed

text \<open>The queue of a stream that was closed goes on collecting the posts its key takes, with nobody to read them.\<close>

theorem closed_streams_collect:
  assumes "list_all event_ok es"
  defines "S \<equiv> sys_run es sys_init"
  assumes "k < length (sy_streams S)" and "accepted inst at raw = Some (key, body)"
    and "topicMatch (stream_key (sy_streams S ! k) s) key"
  shows "size (held (q_at (sy_bus (sys_step (Post inst at raw) S)) (sink_handler k s))) =
    Suc (size (held (q_at (sy_bus S) (sink_handler k s))))"
proof -
  let ?qr = "sink_handler k s"
  have rep: "represents S (fold spec_step (spec_trace es sys_init) [])"
    unfolding S_def by (rule represents_run [OF represents_init assms(1)])
  from rep assms(3) have frame: "frame_ok (length (sy_streams S)) (sy_bus S)"
    and lane: "lane_has (sm_open (sy_streams S ! k)) (stream_key (sy_streams S ! k) s)
      (ib_waiting (fold spec_step (spec_trace es sys_init) [] ! k) s) ?qr (sy_bus S)"
    by (auto simp: represents_iff stream_rep_lane)
  have "bus_ok (sy_bus S)" unfolding S_def by (rule reachable_bus_ok [OF sys_run_reachable [OF assms(1)]])
  note held = publish_held [OF this, of None ?qr SSE_CHANNEL "Some key" body]
  have "?qr \<in> set (coalesce (b_byTopic (sy_bus S) SSE_CHANNEL) [])"
    using frame sink_handler_less [OF assms(3), of s] by (simp add: frame_ok_def)
  moreover have "matches (q_at (sy_bus S) ?qr) key"
    using lane assms(5) by (simp add: lane_has_def lane_ok_def lane_def matches_def)
  moreover have "\<not> is_duplicate None (sy_bus S)" by (simp add: is_duplicate_def opt_field_def)
  ultimately show ?thesis
    using held assms(4) by (auto simp: sys_post_bus)
qed

end
