(* ===== verification/Sse_Port.thy ===== *)
theory Sse_Port
  imports Sse_Properties
begin

text \<open>
  The in-process broker keeps the contract of the hub's broker port (\<open>MessageBusPort\<close>), for every instance whose name
  has no dot: a subscription that was granted stays bound, whatever other instances subscribe and publish.
\<close>

section \<open>Publications\<close>

text \<open>A publication leaves the consumers of every queue.\<close>

lemma pump_queue_consumers: "pump_queue q = (q', ds) \<Longrightarrow> bq_consumers q' = bq_consumers q"
proof (induction rule: pump_queue_induct)
  case (refused q q')
  then show ?case using any.frame [OF TrueI refused] by simp
next
  case (delivered q q' m c q'' ds)
  then show ?case using any.frame [OF TrueI delivered(1)] by simp
qed simp

lemma enqueue_consumers:
  "qr < length (b_objs b) \<Longrightarrow> bq_consumers (q_at (enqueue topic body key opts qr b) i) = bq_consumers (q_at b i)"
proof (cases rule: enqueue_cases [of b qr key topic body opts])
  case (push msg)
  assume qr: "qr < length (b_objs b)"
  have pump: "bq_consumers (q_at (pump qr b') i) = bq_consumers (q_at b' i)" if "qr < length (b_objs b')" for b'
    using that pump_queue_consumers [of "q_at b' qr"] by (simp add: pump_at) (metis prod.collapse)
  from push qr show ?thesis
    by (simp add: pump arm_ttl_def set_timeout_def push_pending_def bus_simps split: option.splits)
qed simp

lemma publish_consumers:
  assumes "bus_ok b"
  shows "bq_consumers (q_at (publish topic body rk opts b) i) = bq_consumers (q_at b i)"
proof -
  have fold: "bq_consumers (q_at (fold (enqueue topic body key opts) qrs b) i) = bq_consumers (q_at b i)"
    if "\<forall>qr \<in> set qrs. qr < length (b_objs b)" for key qrs b
    using that
  proof (induction qrs arbitrary: b)
    case (Cons qr qrs)
    then have "bq_consumers (q_at (fold (enqueue topic body key opts) qrs (enqueue topic body key opts qr b)) i) =
        bq_consumers (q_at (enqueue topic body key opts qr b) i)"
      by (intro Cons.IH) (simp add: same_topology_len [OF enqueue_topology])
    with Cons.prems show ?case by (simp add: enqueue_consumers)
  qed simp
  show ?thesis
    using fold [of "coalesce (b_byTopic b topic) []" "append_log topic body (coalesce rk topic) opts (mark_seen opts b)"]
      idx_ok_topic_bound [OF bus_okD(2) [OF assms]]
    by (simp add: publish_eq q_at_def)
qed

lemma bmp_publish_memory:
  "bmp_publish memory_adapter key body c =
     (Inr (), c\<lparr>cl_bus := (cl_bus c)\<lparr>is_bus := publish SSE_CHANNEL body (Some key) None (bus_of c)\<rparr>\<rparr>)"
  by (simp add: bmp_publish_def memory_adapter_def returns_def is_publish_def)

section \<open>The contract\<close>

definition memory_good :: "string \<Rightarrow> InMemoryScheduler Cluster \<Rightarrow> bool" where
  "memory_good inst c \<longleftrightarrow> CHR ''.'' \<notin> set inst \<and> ids_unused c \<and> reachable (bus_of c)"

lemma memory_subscribe:
  assumes "memory_good inst c"
  obtains c' where "bmp_subscribe memory_adapter inst now key h c = (Inr (length (b_objs (bus_of c)), h), c')"
    and "memory_good inst c'" and "key_bound c' (length (b_objs (bus_of c)), h) key h"
    and "\<And>sub key' h'. key_bound c sub key' h' \<Longrightarrow> key_bound c' sub key' h'"
proof -
  from assms have "ids_unused c" "CHR ''.'' \<notin> set inst" by (simp_all add: memory_good_def)
  from bmp_subscribe_fresh [OF this, of now key h] obtain c' where
    c': "bmp_subscribe memory_adapter inst now key h c = (Inr (length (b_objs (bus_of c)), h), c')"
      "ids_unused c'" "length (b_objs (bus_of c')) = Suc (length (b_objs (bus_of c)))"
      "\<forall>qr < length (b_objs (bus_of c)). q_at (bus_of c') qr = q_at (bus_of c) qr"
      "set (coalesce (b_byTopic (bus_of c) SSE_CHANNEL) []) \<subseteq> set (coalesce (b_byTopic (bus_of c') SSE_CHANNEL) [])"
      "key_bound c' (length (b_objs (bus_of c)), h) key h"
    by auto
  show thesis
  proof (rule that [OF c'(1) _ c'(6)])
    show "memory_good inst c'"
      using assms c'(1,2) bmp_subscribe_reachable [of c inst now key h] by (simp add: memory_good_def)
    show "key_bound c' sub key' h'" if "key_bound c sub key' h'" for sub key' h'
      using that c'(3,4,5) by (auto simp: key_bound_def Let_def)
  qed
qed

lemma memory_publish:
  assumes "memory_good inst c"
  shows "memory_good inst (snd (bmp_publish memory_adapter key body c))"
    and "key_bound c sub key' h \<Longrightarrow> key_bound (snd (bmp_publish memory_adapter key body c)) sub key' h"
proof -
  let ?b = "publish SSE_CHANNEL body (Some key) None (bus_of c)"
  have r: "reachable (bus_of c)" using assms by (simp add: memory_good_def)
  note ok = reachable_bus_ok [OF r]
  note top = publish_topology [OF ok, of SSE_CHANNEL body "Some key" None]
  have "reachable ?b" by (rule reachable.step [OF r bus_step.publish])
  then show "memory_good inst (snd (bmp_publish memory_adapter key body c))"
    using assms top by (simp add: bmp_publish_memory memory_good_def ids_unused_def same_topology_def)
  show "key_bound (snd (bmp_publish memory_adapter key body c)) sub key' h" if "key_bound c sub key' h"
  proof -
    have cfg: "config (q_at ?b (fst sub)) = config (q_at (bus_of c) (fst sub))"
      using that same_topology_config [OF top] by (simp add: key_bound_def Let_def)
    show ?thesis
      using that config_fields [OF cfg] publish_consumers [OF ok] same_topology_len [OF top] same_topology_byTopic [OF top]
      by (simp add: bmp_publish_memory key_bound_def Let_def)
  qed
qed

interpretation memory_port: message_bus_port "BusMessagePort memory_adapter inst now" "memory_good inst" key_bound for inst now
proof
  fix c :: "InMemoryScheduler Cluster" and key body h sub key' h' c'
  assume good: "memory_good inst c"
  obtain c1 where c1: "bmp_subscribe memory_adapter inst now key h c = (Inr (length (b_objs (bus_of c)), h), c1)"
    "memory_good inst c1" "key_bound c1 (length (b_objs (bus_of c)), h) key h"
    "\<And>sub key' h'. key_bound c sub key' h' \<Longrightarrow> key_bound c1 sub key' h'"
    by (rule memory_subscribe [OF good]) blast
  show "memory_good inst (snd (port_subscribe (BusMessagePort memory_adapter inst now) key h c))"
    using c1(1,2) by simp
  show "key_bound c' sub key h" if "port_subscribe (BusMessagePort memory_adapter inst now) key h c = (Inr sub, c')"
    using that c1(1,3) by simp
  show "key_bound (snd (port_subscribe (BusMessagePort memory_adapter inst now) key h c)) sub key' h'"
    if "key_bound c sub key' h'"
    using c1(1) c1(4) [OF that] by simp
  show "memory_good inst (snd (port_publish (BusMessagePort memory_adapter inst now) key body c))"
    using memory_publish(1) [OF good] by simp
  show "key_bound (snd (port_publish (BusMessagePort memory_adapter inst now) key body c)) sub key' h"
    if "key_bound c sub key' h"
    using memory_publish(2) [OF good that] by simp
qed

section \<open>Streams stay bound\<close>

lemma memory_connect:
  assumes "memory_good inst c"
  obtains subs c' where "hub_connect (BusMessagePort memory_adapter inst now) userId orgId k c = (Inr subs, c')"
    and "memory_good inst c'" and "connected key_bound c' subs userId orgId k"
proof -
  let ?port = "BusMessagePort memory_adapter inst now"
  obtain u c1 where 1: "bindScope ?port ScopeUser userId k c = (Inr u, c1)" "memory_good inst c1"
    using memory_subscribe [OF assms, of now "routingKeyFor (target ScopeUser userId)" "sink_handler k ScopeUser"]
    by (metis BusMessagePort_simps(1) bindScope_def)
  obtain v c2 where 2: "bindScope ?port ScopeOrg orgId k c1 = (Inr v, c2)"
    using memory_subscribe [OF 1(2), of now "routingKeyFor (target ScopeOrg orgId)" "sink_handler k ScopeOrg"]
    by (metis BusMessagePort_simps(1) bindScope_def)
  from 1(1) 2 have c: "hub_connect ?port userId orgId k c = (Inr (u, v), c2)" by (simp add: hub_connect_def)
  from memory_port.connect_binds [OF assms c] show thesis by (intro that [OF c]) simp_all
qed

text \<open>Whatever another instance does on the shared broker, a stream keeps its two subscriptions.\<close>

lemma stream_survives_connect:
  assumes "memory_good inst' c" and "connected key_bound c subs userId orgId k"
  shows "connected key_bound (snd (hub_connect (BusMessagePort memory_adapter inst' now) userId' orgId' k' c)) subs userId orgId k"
  using memory_port.connect_keeps [OF assms] by (metis prod.collapse)

lemma stream_survives_publish:
  assumes "memory_good inst' c" and "connected key_bound c subs userId orgId k"
  shows "connected key_bound (snd (hub_publish (BusMessagePort memory_adapter inst' now) inst' at intent c)) subs userId orgId k"
  using memory_port.publish_answers [OF assms] by (metis prod.collapse)

end
