(* ===== verification/Sse_Server.thy ===== *)
theory Sse_Server
  imports Sse_Http
begin

text \<open>
  A process of the SSE cluster (\<open>sse/server.ts\<close>, and \<open>startHttpServer\<close> of \<open>sse/adapters/http-server.ts\<close>): its
  configuration, how it is put together, and its shutdown. The platform's \<open>server.close\<close> stops accepting
  connections and calls back when every connection has ended; an event stream ends when its client leaves.
\<close>

section \<open>Configuration and wiring\<close>

record SseConfig =
  sse_port :: js_value
  sse_instanceId :: string
  sse_broker :: string

text \<open>\<open>None\<close> is the exit with code 2. \<open>Number\<close> on a text is the parameter \<open>number\<close>.\<close>

definition sse_config :: "(string \<Rightarrow> js_value) \<Rightarrow> (string \<rightharpoonup> string) \<Rightarrow> SseConfig option" where
  "sse_config number env =
     (let port = (case env ''PORT'' of None \<Rightarrow> JNum 7001 | Some t \<Rightarrow> number t);
          instanceId = coalesce (env ''INSTANCE_ID'') (''inst-'' @ js_String port);
          broker = coalesce (env ''BROKER'') ''artemis''
      in if broker \<notin> set KNOWN_BROKERS then None
         else Some \<lparr>sse_port = port, sse_instanceId = instanceId, sse_broker = broker\<rparr>)"

text \<open>The chunks of a request's body, or the error its stream ends with.\<close>

definition readBody :: "string list \<Rightarrow> js_error option \<Rightarrow> js_error + string" where
  "readBody chunks failure = (case failure of None \<Rightarrow> Inr (concat chunks) | Some e \<Rightarrow> Inl e)"

text \<open>A server instance over a bus: its port, its hub and the HTTP adapter. The stream opened by the request is the \<open>k\<close>-th.\<close>

definition startSseServer :: "('w, 'sub) Adapter \<Rightarrow> string \<Rightarrow> ('w \<Rightarrow> millis) \<Rightarrow> js_error + string \<Rightarrow> string \<Rightarrow> nat \<Rightarrow>
    Request \<Rightarrow> 'w Cluster \<Rightarrow> res_call list \<times> 'w Cluster" where
  "startSseServer bus instanceId now index_html at k =
     (let messageBus = BusMessagePort bus instanceId now
      in serve instanceId index_html (\<lambda>userId orgId. hub_connect messageBus userId orgId k)
           (hub_publish messageBus instanceId at))"

section \<open>Shutdown\<close>

record Instance =
  in_listening :: bool
  in_open :: "nat list"
  in_stopping :: bool
  in_disposed :: bool
  in_exited :: bool

definition started :: Instance where
  "started = \<lparr>in_listening = True, in_open = [], in_stopping = False, in_disposed = False, in_exited = False\<rparr>"

datatype instance_event = Accepts nat | Ends nat | Signal

text \<open>\<open>stop\<close>: the adapter is disposed and the process exits once \<open>srv.close()\<close> has resolved.\<close>

definition finish_stop :: "Instance \<Rightarrow> Instance" where
  "finish_stop i = (if in_stopping i \<and> in_open i = [] then i\<lparr>in_disposed := True, in_exited := True\<rparr> else i)"

fun instance_step :: "instance_event \<Rightarrow> Instance \<Rightarrow> Instance" where
  "instance_step (Accepts k) i = (if in_listening i then i\<lparr>in_open := in_open i @ [k]\<rparr> else i)"
| "instance_step (Ends k) i = finish_stop (i\<lparr>in_open := removeAll k (in_open i)\<rparr>)"
| "instance_step Signal i = finish_stop (i\<lparr>in_listening := False, in_stopping := True\<rparr>)"

definition instance_run :: "instance_event list \<Rightarrow> Instance \<Rightarrow> Instance" where
  "instance_run es i = fold instance_step es i"

section \<open>Properties\<close>

lemma instance_run_simps [simp]:
  "instance_run [] i = i" "instance_run (e # es) i = instance_run es (instance_step e i)"
  "instance_run (es @ es') i = instance_run es' (instance_run es i)"
  by (simp_all add: instance_run_def)

definition instance_ok :: "Instance \<Rightarrow> bool" where
  "instance_ok i \<longleftrightarrow> in_listening i = (\<not> in_stopping i) \<and> in_exited i = (in_stopping i \<and> in_open i = []) \<and>
     in_disposed i = in_exited i"

lemma instance_step_ok: "instance_ok i \<Longrightarrow> instance_ok (instance_step e i)"
  by (cases e) (auto simp: instance_ok_def finish_stop_def)

lemma instance_run_ok: "instance_ok i \<Longrightarrow> instance_ok (instance_run es i)"
  by (induction es arbitrary: i) (simp_all add: instance_step_ok)

lemma started_ok: "instance_ok started"
  by (simp add: instance_ok_def started_def)

lemma instance_run_stopped:
  "in_stopping i \<Longrightarrow> instance_ok i \<Longrightarrow>
   in_stopping (instance_run es i) \<and> in_open (instance_run es i) = filter (\<lambda>k. Ends k \<notin> set es) (in_open i)"
proof (induction es arbitrary: i)
  case (Cons e es)
  have "in_stopping (instance_step e i)"
    using Cons.prems(1) by (cases e) (simp_all add: finish_stop_def)
  moreover have "in_open (instance_step e i) = filter (\<lambda>k. e \<noteq> Ends k) (in_open i)"
    using Cons.prems by (cases e) (auto simp: finish_stop_def instance_ok_def removeAll_filter_not_eq)
  ultimately show ?case
    using Cons.IH [of "instance_step e i"] instance_step_ok [OF Cons.prems(2)]
    by (simp add: conj_commute) (metis (mono_tags, lifting) filter_cong)
qed simp


end
