(* ===== verification/Sse_Launcher.thy ===== *)
theory Sse_Launcher
  imports Sse_Server
begin

text \<open>
  The launcher of a cluster (\<open>sse/cluster.ts\<close>): it spawns two instances with environments of their own over one
  broker, and takes both down on a signal or when one of them ends. A child is its server process (\<open>Instance\<close>); the
  platform delivers SIGTERM to it, and reports its end to the launcher.
\<close>

section \<open>Children\<close>

definition instances :: "(nat \<times> string) list" where
  "instances = [(7001, ''inst-7001''), (7002, ''inst-7002'')]"

definition launch_broker :: "(string \<rightharpoonup> string) \<Rightarrow> string" where
  "launch_broker env = coalesce (env ''BROKER'') ''artemis''"

definition child_env :: "(string \<rightharpoonup> string) \<Rightarrow> nat \<times> string \<Rightarrow> (string \<rightharpoonup> string)" where
  "child_env env inst = env(''PORT'' \<mapsto> show_nat (fst inst), ''INSTANCE_ID'' \<mapsto> snd inst, ''BROKER'' \<mapsto> launch_broker env)"

definition npxCmd :: "string \<Rightarrow> string" where
  "npxCmd platform = (if platform = ''win32'' then ''npx.cmd'' else ''npx'')"

text \<open>The calls of \<open>spawn\<close>: the command, its arguments and its environment. \<open>server\<close> is the path of \<open>server.ts\<close>.\<close>

definition spawn_calls :: "string \<Rightarrow> string \<Rightarrow> (string \<rightharpoonup> string) \<Rightarrow> (string \<times> string list \<times> (string \<rightharpoonup> string)) list" where
  "spawn_calls platform server env = map (\<lambda>inst. (npxCmd platform, [''tsx'', server], child_env env inst)) instances"

text \<open>Each child is configured with its own port and name, and all with the same broker; with an unknown broker none starts.\<close>

lemma children_configured:
  "map (\<lambda>(cmd, args, e). sse_config number e) (spawn_calls platform server env) =
     (if launch_broker env \<in> set KNOWN_BROKERS
      then map (\<lambda>(port, uid). Some \<lparr>sse_port = number (show_nat port), sse_instanceId = uid, sse_broker = launch_broker env\<rparr>) instances
      else [None, None])"
  by (simp add: spawn_calls_def instances_def child_env_def sse_config_def Let_def)

section \<open>The launcher\<close>

datatype Child = Running Instance | Gone

record Launcher =
  la_children :: "Child list"
  la_timers :: "nat list"
  la_clock :: nat
  la_exited :: bool

definition launched :: Launcher where
  "launched = \<lparr>la_children = map (\<lambda>_. Running started) instances, la_timers = [], la_clock = 0, la_exited = False\<rparr>"

fun child_step :: "instance_event \<Rightarrow> Child \<Rightarrow> Child" where
  "child_step e (Running i) = Running (instance_step e i)"
| "child_step e Gone = Gone"

definition stop_delay :: nat where "stop_delay = 500"

text \<open>\<open>stop\<close>: SIGTERM to every child, and the exit is scheduled. A launcher that has exited does nothing any more.\<close>

definition launcher_stop :: "Launcher \<Rightarrow> Launcher" where
  "launcher_stop l =
     (if la_exited l then l
      else l\<lparr>la_children := map (child_step Signal) (la_children l), la_timers := la_timers l @ [la_clock l + stop_delay]\<rparr>)"

datatype launcher_event =
    LSignal
  | LChild nat instance_event
  | LGone nat
  | LTick nat

fun launcher_step :: "launcher_event \<Rightarrow> Launcher \<Rightarrow> Launcher" where
  "launcher_step LSignal l = launcher_stop l"
| "launcher_step (LChild k e) l =
     (if k < length (la_children l) then l\<lparr>la_children := (la_children l)[k := child_step e (la_children l ! k)]\<rparr> else l)"
| "launcher_step (LGone k) l =
     (if k < length (la_children l) \<and> la_children l ! k \<noteq> Gone
      then launcher_stop (l\<lparr>la_children := (la_children l)[k := Gone]\<rparr>) else l)"
| "launcher_step (LTick ms) l =
     (let clock = la_clock l + ms
      in l\<lparr>la_clock := clock, la_exited := la_exited l \<or> list_ex (\<lambda>t. t \<le> clock) (la_timers l)\<rparr>)"

definition launcher_run :: "launcher_event list \<Rightarrow> Launcher \<Rightarrow> Launcher" where
  "launcher_run es l = fold launcher_step es l"

lemma launcher_run_simps [simp]:
  "launcher_run [] l = l" "launcher_run (e # es) l = launcher_run es (launcher_step e l)"
  "launcher_run (es @ es') l = launcher_run es' (launcher_run es l)"
  by (simp_all add: launcher_run_def)

section \<open>The exit of the launcher\<close>

fun elapsed :: "launcher_event list \<Rightarrow> nat" where
  "elapsed [] = 0"
| "elapsed (LTick ms # es) = ms + elapsed es"
| "elapsed (_ # es) = elapsed es"

text \<open>The time of the first event that stops the launcher, as its clock shows it.\<close>

definition stops :: "launcher_event \<Rightarrow> Launcher \<Rightarrow> bool" where
  "stops e l \<longleftrightarrow> (case e of
     LSignal \<Rightarrow> True
   | LGone k \<Rightarrow> k < length (la_children l) \<and> la_children l ! k \<noteq> Gone
   | _ \<Rightarrow> False)"

fun first_stop :: "launcher_event list \<Rightarrow> Launcher \<Rightarrow> nat option" where
  "first_stop [] l = None"
| "first_stop (e # es) l = (if stops e l then Some (la_clock l) else first_stop es (launcher_step e l))"

lemma launcher_clock: "la_clock (launcher_run es l) = la_clock l + elapsed es"
proof (induction es arbitrary: l)
  case (Cons e es)
  then show ?case by (cases e) (simp_all add: launcher_stop_def Let_def)
qed simp

lemma elapsed_append: "elapsed (es @ es') = elapsed es + elapsed es'"
  by (induction es rule: elapsed.induct) simp_all

lemma first_stop_before:
  "la_clock l = t0 \<Longrightarrow> \<exists>t. first_stop (es @ LSignal # es') l = Some t \<and> t \<le> t0 + elapsed es"
proof (induction es arbitrary: l t0)
  case (Cons e es)
  have "la_clock (launcher_step e l) = t0 + elapsed [e]"
    using launcher_clock [of "[e]" l] Cons.prems by simp
  from Cons.IH [OF this] show ?case
    using Cons.prems elapsed_append [of "[e]" es] by (auto simp: add.assoc)
qed (simp add: stops_def)

text \<open>While a launcher is stopping, the first of its timers is the one that ends it.\<close>

definition stopping_since :: "nat \<Rightarrow> Launcher \<Rightarrow> bool" where
  "stopping_since t l \<longleftrightarrow> (\<exists>ts. la_timers l = (t + stop_delay) # ts \<and> (\<forall>s \<in> set ts. t + stop_delay \<le> s)) \<and> t \<le> la_clock l \<and>
     la_exited l = (t + stop_delay \<le> la_clock l)"

lemma stopping_step: "stopping_since t l \<Longrightarrow> stopping_since t (launcher_step e l)"
  by (cases e) (auto simp: stopping_since_def launcher_stop_def Let_def list_ex_iff, meson le_trans)

lemma stopping_run: "stopping_since t l \<Longrightarrow> stopping_since t (launcher_run es l)"
  by (induction es arbitrary: l) (simp_all add: stopping_step)

definition idle :: "Launcher \<Rightarrow> bool" where
  "idle l \<longleftrightarrow> la_timers l = [] \<and> \<not> la_exited l"

lemma idle_step:
  assumes "idle l"
  shows "if stops e l then stopping_since (la_clock l) (launcher_step e l) else idle (launcher_step e l)"
  using assms by (cases e) (auto simp: idle_def stops_def stopping_since_def launcher_stop_def stop_delay_def Let_def)

lemma idle_run:
  "idle l \<Longrightarrow> (case first_stop es l of
     None \<Rightarrow> idle (launcher_run es l)
   | Some t \<Rightarrow> stopping_since t (launcher_run es l))"
proof (induction es arbitrary: l)
  case (Cons e es)
  show ?case
  proof (cases "stops e l")
    case True
    with idle_step [OF Cons.prems] have "stopping_since (la_clock l) (launcher_step e l)" by (simp del: launcher_step.simps)
    from stopping_run [OF this] True show ?thesis by simp
  next
    case False
    with idle_step [OF Cons.prems] have "idle (launcher_step e l)" by (simp del: launcher_step.simps)
    from Cons.IH [OF this] False show ?thesis by (simp split: option.splits)
  qed
qed simp

text \<open>The launcher exits half a second after it was first stopped, by a signal or by the end of a child, and not before.\<close>

theorem launcher_exits_on_time:
  "la_exited (launcher_run es launched) \<longleftrightarrow>
     (case first_stop es launched of None \<Rightarrow> False | Some t \<Rightarrow> t + stop_delay \<le> elapsed es)"
proof -
  have "idle launched" by (simp add: idle_def launched_def)
  moreover have "la_clock launched = 0" by (simp add: launched_def)
  ultimately show ?thesis
    using idle_run [of launched es] launcher_clock [of es launched]
    by (simp add: idle_def stopping_since_def split: option.splits)
qed

section \<open>The children it leaves\<close>

text \<open>What happens to a child whose process is not reported gone: its own events, and the signals of the launcher.\<close>

definition child_at :: "nat \<Rightarrow> Launcher \<Rightarrow> Instance option" where
  "child_at k l = (if k < length (la_children l) then (case la_children l ! k of Running i \<Rightarrow> Some i | Gone \<Rightarrow> None) else None)"

lemma launcher_child_step:
  assumes "child_at k l = Some i" and "e \<noteq> LGone k"
  shows "\<exists>es'. child_at k (launcher_step e l) = Some (instance_run es' i) \<and> set es' \<subseteq> {Signal} \<union> {e'. e = LChild k e'}"
proof (cases e)
  case LSignal
  with assms(1) show ?thesis
    by (cases "la_exited l") (auto simp: child_at_def launcher_stop_def split: if_splits Child.splits
        intro: exI [of _ "[Signal]"] exI [of _ "[]"])
next
  case (LChild j e')
  with assms(1) show ?thesis
    by (cases "j = k") (auto simp: child_at_def nth_list_update split: if_splits Child.splits
        intro: exI [of _ "[e']"] exI [of _ "[]"])
next
  case (LGone j)
  with assms show ?thesis
    by (cases "la_exited l") (auto simp: child_at_def launcher_stop_def nth_list_update split: if_splits Child.splits
        intro: exI [of _ "[Signal]"] exI [of _ "[]"])
next
  case (LTick ms)
  with assms(1) show ?thesis by (auto simp: child_at_def Let_def split: if_splits Child.splits intro: exI [of _ "[]"])
qed

lemma launcher_child_run:
  "child_at k l = Some i \<Longrightarrow> LGone k \<notin> set es \<Longrightarrow>
   \<exists>es'. child_at k (launcher_run es l) = Some (instance_run es' i) \<and> set es' \<subseteq> {Signal} \<union> {e'. LChild k e' \<in> set es}"
proof (induction es arbitrary: l i)
  case (Cons e es)
  then obtain es1 where 1: "child_at k (launcher_step e l) = Some (instance_run es1 i)"
    "set es1 \<subseteq> {Signal} \<union> {e'. e = LChild k e'}"
    using launcher_child_step [OF Cons.prems(1), of e] by auto
  from Cons.IH [OF 1(1)] Cons.prems(2) obtain es2 where 2:
    "child_at k (launcher_run es (launcher_step e l)) = Some (instance_run es2 (instance_run es1 i))"
    "set es2 \<subseteq> {Signal} \<union> {e'. LChild k e' \<in> set es}" by auto
  show ?case by (rule exI [of _ "es1 @ es2"]) (use 1(2) 2 in \<open>auto simp del: launcher_step.simps\<close>)
qed (auto intro: exI [of _ "[]"])

fun child_ok :: "Child \<Rightarrow> bool" where
  "child_ok (Running i) = instance_ok i"
| "child_ok Gone = True"

lemma child_step_ok: "child_ok c \<Longrightarrow> child_ok (child_step e c)"
  by (cases c) (simp_all add: instance_step_ok)

lemma update_ok: "list_all P xs \<Longrightarrow> P x \<Longrightarrow> list_all P (xs[k := x])"
  by (auto simp: list_all_iff dest: subsetD [OF set_update_subset_insert])

lemma launcher_stop_children_ok: "list_all child_ok (la_children l) \<Longrightarrow> list_all child_ok (la_children (launcher_stop l))"
  by (auto simp: launcher_stop_def list_all_iff child_step_ok)

lemma launcher_step_children_ok:
  assumes "list_all child_ok (la_children l)"
  shows "list_all child_ok (la_children (launcher_step e l))"
proof (cases e)
  case (LChild k e')
  have "child_ok (la_children l ! k)" if "k < length (la_children l)"
    using assms that by (simp add: list_all_length)
  with assms LChild show ?thesis by (simp add: update_ok child_step_ok)
next
  case (LGone k)
  with assms show ?thesis by (simp add: launcher_stop_children_ok update_ok)
qed (use assms in \<open>simp_all add: launcher_stop_children_ok Let_def\<close>)

lemma launcher_children_ok: "list_all child_ok (la_children (launcher_run es launched))"
proof -
  have run: "list_all child_ok (la_children l) \<Longrightarrow> list_all child_ok (la_children (launcher_run es l))" for l
    by (induction es arbitrary: l) (simp_all add: launcher_step_children_ok del: launcher_step.simps)
  show ?thesis by (rule run) (simp add: launched_def started_ok list_all_iff)
qed

lemma launcher_child_ok: "child_at k (launcher_run es launched) = Some i \<Longrightarrow> instance_ok i"
  using launcher_children_ok [of es]
  by (auto simp: child_at_def list_all_length split: if_splits Child.splits)

text \<open>
  A child that has a connection open when the launcher is stopped outlives it, unless the connection ends or the process
  is ended otherwise: the signal reached it, so it accepts nothing any more, but it waits for the connection, while the
  launcher is gone after half a second.
\<close>

theorem launcher_leaves_children:
  fixes before after :: "launcher_event list" and k n :: nat and i :: Instance
  defines "l \<equiv> launcher_run (before @ LSignal # after) launched"
  assumes "child_at k (launcher_run before launched) = Some i" and "n \<in> set (in_open i)"
    and "\<not> la_exited (launcher_run before launched)"
    and "LGone k \<notin> set after" and "LChild k (Ends n) \<notin> set after" and "stop_delay \<le> elapsed after"
  shows "la_exited l \<and> (\<exists>i'. child_at k l = Some i' \<and> n \<in> set (in_open i') \<and> in_stopping i' \<and> \<not> in_exited i')"
proof
  let ?l = "launcher_run before launched"
  let ?l1 = "launcher_step LSignal ?l"
  have l: "l = launcher_run after ?l1" by (simp add: l_def)
  have i1: "child_at k ?l1 = Some (instance_step Signal i)"
    using assms(2,4) by (auto simp: child_at_def launcher_stop_def split: if_splits Child.splits)
  obtain es' where es': "child_at k l = Some (instance_run es' (instance_step Signal i))"
    "set es' \<subseteq> {Signal} \<union> {e'. LChild k e' \<in> set after}"
    using launcher_child_run [OF i1 assms(5)] unfolding l by blast
  have ok: "instance_ok (instance_step Signal i)" by (rule instance_step_ok [OF launcher_child_ok [OF assms(2)]])
  have st: "in_stopping (instance_step Signal i)" "in_open (instance_step Signal i) = in_open i"
    by (simp_all add: finish_stop_def)
  have "Ends n \<notin> set es'" using es'(2) assms(6) by blast
  with instance_run_stopped [OF st(1) ok, of es'] st(2) assms(3)
  have "in_stopping (instance_run es' (instance_step Signal i))" "n \<in> set (in_open (instance_run es' (instance_step Signal i)))"
    by (simp_all del: instance_step.simps)
  with instance_run_ok [OF ok, of es'] es'(1)
  show "\<exists>i'. child_at k l = Some i' \<and> n \<in> set (in_open i') \<and> in_stopping i' \<and> \<not> in_exited i'"
    by (auto simp: instance_ok_def)
  have "\<exists>t. first_stop (before @ LSignal # after) launched = Some t \<and> t \<le> elapsed before"
    using first_stop_before [of launched 0 before after] by (simp add: launched_def)
  then show "la_exited l"
    using assms(7) unfolding l_def launcher_exits_on_time by (auto simp: elapsed_append)
qed

end
