(* ===== verification/Sse_Docs.thy ===== *)
theory Sse_Docs
  imports Sse_Hub
begin

text \<open>
  The self-describing contract (\<open>SSE_CONTRACT\<close> of \<open>sse/domain/contract.ts\<close>) and the generator that renders it
  (\<open>sse/docs/generate.ts\<close>) as Markdown and as an AsyncAPI document, with the files its command writes.
\<close>

section \<open>The contract as data\<close>

record FieldDoc =
  fd_name :: string
  fd_type :: string
  fd_description :: string

datatype OperationDirection = DirPublish | DirSubscribe

record OperationDoc =
  od_id :: string
  od_summary :: string
  od_direction :: OperationDirection
  od_routingKeyPattern :: string
  od_when :: string

record AddressSchemeDoc =
  as_scope :: Scope
  as_pattern :: string
  as_description :: string

record SseContract =
  sc_channel :: string
  sc_channelDescription :: string
  sc_addressSchemes :: "AddressSchemeDoc list"
  sc_operations :: "OperationDoc list"
  sc_envelopeFields :: "FieldDoc list"
  sc_frameFields :: "FieldDoc list"

definition tick :: string where "tick = [CHR 0x60]"
definition em_dash :: string where "em_dash = [CHR 0xE2, CHR 0x80, CHR 0x94]"

definition dquoted :: "string \<Rightarrow> string" where "dquoted s = dquote @ s @ dquote"
definition ticked :: "string \<Rightarrow> string" where "ticked s = tick @ s @ tick"

definition field :: "string \<Rightarrow> string \<Rightarrow> string \<Rightarrow> FieldDoc" where
  "field name type description = \<lparr>fd_name = name, fd_type = type, fd_description = description\<rparr>"

definition stream_when :: string where
  "stream_when = ''When a client opens '' @ ticked ''GET /events?userId&orgId'' @
     ''; bound as a transient subscription for the connection lifetime.''"

definition SSE_CONTRACT :: SseContract where
  "SSE_CONTRACT = \<lparr>
     sc_channel = SSE_CHANNEL,
     sc_channelDescription =
       ''Single broker topic backing the cross-instance SSE cluster. Every browser '' @
       ''connection opens two transient (exclusive + auto-delete) subscriptions on '' @
       ''this topic '' @ em_dash @ '' one user-direct, one org-broadcast '' @ em_dash @ '' so the broker fans '' @
       ''messages across server instances with no presence registry.'',
     sc_addressSchemes =
       [\<lparr>as_scope = ScopeUser, as_pattern = ''user.{userId}'',
          as_description = ''User-direct routing key. A message published here reaches only the '' @
            ''connection(s) for that single user.''\<rparr>,
        \<lparr>as_scope = ScopeOrg, as_pattern = ''org.{orgId}'',
          as_description = ''Org-broadcast routing key. A message published here fans out to every '' @
            ''connection in that org, across all server instances.''\<rparr>],
     sc_operations =
       [\<lparr>od_id = ''publish-to-user'', od_summary = ''Publish a message directly to one user.'',
          od_direction = DirPublish, od_routingKeyPattern = ''user.{userId}'',
          od_when = ''On '' @ ticked ''POST /publish'' @ '' with '' @
            ticked (''{ to: { type: '' @ dquoted ''user'' @ '', id } }'') @ ''.''\<rparr>,
        \<lparr>od_id = ''publish-to-org'', od_summary = ''Broadcast a message to every member of an org.'',
          od_direction = DirPublish, od_routingKeyPattern = ''org.{orgId}'',
          od_when = ''On '' @ ticked ''POST /publish'' @ '' with '' @
            ticked (''{ to: { type: '' @ dquoted ''org'' @ '', id } }'') @ ''.''\<rparr>,
        \<lparr>od_id = ''subscribe-user-stream'', od_summary = ''Receive user-direct messages on an SSE connection.'',
          od_direction = DirSubscribe, od_routingKeyPattern = ''user.{userId}'', od_when = stream_when\<rparr>,
        \<lparr>od_id = ''subscribe-org-stream'', od_summary = ''Receive org-broadcast messages on an SSE connection.'',
          od_direction = DirSubscribe, od_routingKeyPattern = ''org.{orgId}'', od_when = stream_when\<rparr>],
     sc_envelopeFields =
       [field ''from'' ''string'' (''Display name of the sender (defaults to '' @ ticked ''anon'' @ '').''),
        field ''text'' ''string'' ''Free-text body of the message.'',
        field ''to'' ''object'' (''The publish target: '' @
          ticked (''{ type: '' @ dquoted ''user'' @ '' | '' @ dquoted ''org'' @ '', id }'') @ ''.''),
        field ''via'' ''string'' ''Id of the instance that accepted and published the message.'',
        field ''at'' ''string (ISO-8601)'' ''Timestamp set when the message was published.''],
     sc_frameFields =
       [field ''scope'' (dquoted ''user'' @ '' | '' @ dquoted ''org'')
          ''Which subscription matched: user-direct or org-broadcast.'',
        field ''instanceId'' ''string'' ''Id of the instance whose SSE stream delivered this frame.'',
        field ''message'' ''SseEnvelope'' ''The published message envelope.'']\<rparr>"

section \<open>Markdown\<close>

fun join_lines :: "string list \<Rightarrow> string" where
  "join_lines [] = []"
| "join_lines [x] = x"
| "join_lines (x # xs) = x @ CHR 0x0A # join_lines xs"

fun direction_text :: "OperationDirection \<Rightarrow> string" where
  "direction_text DirPublish = ''publish''"
| "direction_text DirSubscribe = ''subscribe''"

definition fieldTable :: "FieldDoc list \<Rightarrow> string" where
  "fieldTable fs = join_lines
     ((''| Field | Type | Description |'' @ CHR 0x0A # ''| --- | --- | --- |'') #
      map (\<lambda>f. ''| '' @ ticked (fd_name f) @ '' | '' @ ticked (fd_type f) @ '' | '' @ fd_description f @ '' |'') fs)"

definition renderMarkdown :: "SseContract \<Rightarrow> string" where
  "renderMarkdown c = join_lines (
     [''# SSE event catalog'', [],
      ''> Generated from '' @ ticked ''typescript/src/sse/domain/contract.ts'' @ '' via '' @
        ticked ''npm run sse:docs'' @ ''. Do not edit by hand.'', [],
      ''## Channel '' @ ticked (sc_channel c), [], sc_channelDescription c, [],
      ''## Address schemes'', [], ''| Scope | Routing key | Description |'', ''| --- | --- | --- |''] @
     map (\<lambda>a. ''| '' @ ticked (scope_text (as_scope a)) @ '' | '' @ ticked (as_pattern a) @ '' | '' @
       as_description a @ '' |'') (sc_addressSchemes c) @
     [[], ''## Operations'', []] @
     concat (map (\<lambda>op.
       [''### '' @ ticked (od_id op) @ '' ('' @ direction_text (od_direction op) @ '')'', [], od_summary op, [],
        ''- **Direction:** '' @ direction_text (od_direction op),
        ''- **Routing key:** '' @ ticked (od_routingKeyPattern op), ''- **When:** '' @ od_when op, []]) (sc_operations c)) @
     [''## Message envelope'', [],
      ''The payload published to the channel and re-emitted as the '' @ ticked ''message'' @ '' of an SSE frame.'', [],
      fieldTable (sc_envelopeFields c), [], ''## SSE frame'', [],
      ''The '' @ ticked ''data:'' @ '' frame delivered to a connected client.'', [],
      fieldTable (sc_frameFields c), []])"

section \<open>AsyncAPI\<close>

definition bare_char :: "char \<Rightarrow> bool" where
  "bare_char ch \<longleftrightarrow> (let n = (of_char ch :: nat)
     in 65 \<le> n \<and> n \<le> 90 \<or> 97 \<le> n \<and> n \<le> 122 \<or> 48 \<le> n \<and> n \<le> 57 \<or> ch \<in> {CHR ''_'', CHR ''.'', CHR ''-''})"

text \<open>The two \<open>replace\<close> calls, backslashes first.\<close>

definition replace_char :: "char \<Rightarrow> string \<Rightarrow> string \<Rightarrow> string" where
  "replace_char ch rep s = concat (map (\<lambda>x. if x = ch then rep else [x]) s)"

definition yamlScalar :: "string \<Rightarrow> string" where
  "yamlScalar value =
     (if value \<noteq> [] \<and> list_all bare_char value then value
      else dquoted (replace_char CHR 0x22 [CHR 0x5C, CHR 0x22] (replace_char CHR 0x5C [CHR 0x5C, CHR 0x5C] value)))"

definition byPattern :: "OperationDoc list \<Rightarrow> (string \<times> OperationDoc list) list" where
  "byPattern = group_into od_routingKeyPattern id"

definition starts_with_text :: "string \<Rightarrow> string \<Rightarrow> bool" where
  "starts_with_text p s \<longleftrightarrow> take (length p) s = p"

definition asyncApiType :: "string \<Rightarrow> string" where
  "asyncApiType type = (if starts_with_text ''object'' type \<or> type = ''SseEnvelope'' then ''object'' else ''string'')"

definition operation_lines :: "OperationDoc \<Rightarrow> string list" where
  "operation_lines op =
     (let verb = direction_text (od_direction op)
      in [''    '' @ verb @ '':'', ''      operationId: '' @ yamlScalar (od_id op),
          ''      summary: '' @ yamlScalar (od_summary op), ''      description: '' @ yamlScalar (od_when op),
          ''      message:'',
          ''        $ref: '' @ [CHR 0x27] @ ''#/components/messages/'' @
            (if od_direction op = DirSubscribe then ''SseFrame'' else ''SseEnvelope'') @ [CHR 0x27]])"

definition parameter_lines :: "SseContract \<Rightarrow> string \<Rightarrow> string list" where
  "parameter_lines c pattern =
     (case find (\<lambda>a. starts_with_text (scope_text (as_scope a) @ ''.'') pattern) (sc_addressSchemes c) of
        None \<Rightarrow> []
      | Some a \<Rightarrow>
          [''      '' @ scope_text (as_scope a) @ ''Id:'', ''        description: '' @ yamlScalar (as_description a),
           ''        schema:'', ''          type: string''])"

definition channel_lines :: "SseContract \<Rightarrow> string \<times> OperationDoc list \<Rightarrow> string list" where
  "channel_lines c = (\<lambda>(pattern, ops).
     [''  '' @ yamlScalar pattern @ '':'',
      ''    description: '' @ yamlScalar (''Channel '' @ sc_channel c @ '', routing key '' @ pattern @ ''.''),
      ''    parameters:''] @ parameter_lines c pattern @ concat (map operation_lines ops))"

definition message_lines :: "string \<Rightarrow> string \<Rightarrow> string list" where
  "message_lines name title =
     [''    '' @ name @ '':'', ''      name: '' @ name, ''      title: '' @ title,
      ''      contentType: application/json'', ''      payload:'',
      ''        $ref: '' @ [CHR 0x27] @ ''#/components/schemas/'' @ name @ [CHR 0x27]]"

definition property_lines :: "FieldDoc \<Rightarrow> string list" where
  "property_lines f =
     [''          type: '' @ asyncApiType (fd_type f), ''          description: '' @ yamlScalar (fd_description f)]"

definition renderAsyncApi :: "SseContract \<Rightarrow> string" where
  "renderAsyncApi c = join_lines (
     [''asyncapi: 2.6.0'', ''info:'', ''  title: SSE cross-instance cluster'', ''  version: 1.0.0'',
      ''  description: '' @ yamlScalar (sc_channelDescription c), ''defaultContentType: application/json'', ''channels:''] @
     concat (map (channel_lines c) (byPattern (sc_operations c))) @
     [''components:'', ''  messages:''] @
     message_lines ''SseEnvelope'' ''Published message envelope'' @
     message_lines ''SseFrame'' ''SSE data frame delivered to a client'' @
     [''  schemas:'', ''    SseEnvelope:'', ''      type: object'', ''      properties:''] @
     concat (map (\<lambda>f. (''        '' @ fd_name f @ '':'') # property_lines f) (sc_envelopeFields c)) @
     [''    SseFrame:'', ''      type: object'', ''      properties:''] @
     concat (map (\<lambda>f. (''        '' @ fd_name f @ '':'') #
       (if fd_name f = ''message'' then [''          $ref: '' @ [CHR 0x27] @ ''#/components/schemas/SseEnvelope'' @ [CHR 0x27]]
        else property_lines f)) (sc_frameFields c))) @ [CHR 0x0A]"

section \<open>The command\<close>

text \<open>\<open>main\<close>: the files written into the directory \<open>docs\<close>, in this order, and the lines on the console.\<close>

definition docs_main :: "string \<Rightarrow> (string \<times> string) list \<times> string list" where
  "docs_main docs =
     (let mdPath = docs @ ''/sse-events.md''; yamlPath = docs @ ''/sse-asyncapi.yaml''
      in ([(mdPath, renderMarkdown SSE_CONTRACT), (yamlPath, renderAsyncApi SSE_CONTRACT)],
          [''wrote '' @ mdPath, ''wrote '' @ yamlPath]))"

section \<open>What the generator guarantees\<close>

text \<open>Reading a scalar back: a quoted one is unescaped.\<close>

fun unescape :: "string \<Rightarrow> string" where
  "unescape [] = []"
| "unescape [ch] = [ch]"
| "unescape (ch # ch' # s) = (if ch = CHR 0x5C then ch' # unescape s else ch # unescape (ch' # s))"

definition read_scalar :: "string \<Rightarrow> string" where
  "read_scalar s = (if s \<noteq> [] \<and> hd s = CHR 0x22 then unescape (butlast (tl s)) else s)"

lemma replace_char_simps [simp]:
  "replace_char ch rep [] = []"
  "replace_char ch rep (x # s) = (if x = ch then rep else [x]) @ replace_char ch rep s"
  "replace_char ch rep (s @ t) = replace_char ch rep s @ replace_char ch rep t"
  by (simp_all add: replace_char_def)

lemma unescape_plain: "x \<noteq> CHR 0x5C \<Longrightarrow> unescape (x # s) = x # unescape s"
  by (cases s) simp_all

lemma unescape_escaped:
  "unescape (replace_char CHR 0x22 [CHR 0x5C, CHR 0x22] (replace_char CHR 0x5C [CHR 0x5C, CHR 0x5C] v)) = v"
  by (induction v) (simp_all add: unescape_plain)

text \<open>A scalar of the generated document reads back as the v it was made from: bare when it has only safe
characters, quoted and escaped otherwise.\<close>

theorem yamlScalar_roundtrip: "read_scalar (yamlScalar v) = v"
proof (cases "v \<noteq> [] \<and> list_all bare_char v")
  case True
  then have "bare_char (hd v)" by (cases v) auto
  then have "hd v \<noteq> CHR 0x22" by (auto simp: bare_char_def)
  with True show ?thesis by (simp add: read_scalar_def yamlScalar_def)
next
  case False
  then have "yamlScalar v = dquoted (replace_char CHR 0x22 [CHR 0x5C, CHR 0x22] (replace_char CHR 0x5C [CHR 0x5C, CHR 0x5C] v))"
    by (auto simp: yamlScalar_def)
  then show ?thesis by (simp add: read_scalar_def dquoted_def dquote_def unescape_escaped)
qed

text \<open>Every operation of a contract is rendered exactly once: the channels of the AsyncAPI document have distinct
keys, a channel lists the operations of its routing key in the contract's order, and no operation is left out.\<close>

theorem asyncapi_channels_partition:
  "distinct (map fst (byPattern ops)) \<and>
   (\<forall>pattern listed. (pattern, listed) \<in> set (byPattern ops) \<longleftrightarrow>
      listed = filter (\<lambda>op. od_routingKeyPattern op = pattern) ops \<and> listed \<noteq> []) \<and>
   set ops = \<Union> (set ` snd ` set (byPattern ops))"
proof (intro conjI allI)
  show "distinct (map fst (byPattern ops))" by (simp add: byPattern_def group_into_distinct)
  show listed: "(pattern, listed) \<in> set (byPattern ops) \<longleftrightarrow>
      listed = filter (\<lambda>op. od_routingKeyPattern op = pattern) ops \<and> listed \<noteq> []" for pattern listed
    by (simp add: byPattern_def in_group_into)
  show "set ops = \<Union> (set ` snd ` set (byPattern ops))"
  proof (intro equalityI subsetI)
    fix op assume op: "op \<in> set ops"
    let ?listed = "filter (\<lambda>op'. od_routingKeyPattern op' = od_routingKeyPattern op) ops"
    from op have "op \<in> set ?listed" by simp
    moreover from this have "(od_routingKeyPattern op, ?listed) \<in> set (byPattern ops)"
      by (auto simp: listed filter_empty_conv)
    ultimately show "op \<in> \<Union> (set ` snd ` set (byPattern ops))" by force
  next
    fix op assume "op \<in> \<Union> (set ` snd ` set (byPattern ops))"
    then obtain pattern l where "(pattern, l) \<in> set (byPattern ops)" "op \<in> set l" by auto
    then show "op \<in> set ops" by (auto simp: listed)
  qed
qed

end
