(* ===== verification/Fault_Demo.thy ===== *)
theory Fault_Demo
  imports Runner
begin

text \<open>
  The fault-tolerance demonstration (\<open>fault.ts\<close>, \<open>fault/fault-narrator.ts\<close>) as programs over an adapter. The resilient publisher of the second demo keeps the
  state of the retry and circuit-breaker pipeline and the fault counter (\<open>Publisher\<close>); the events the pipeline has
  raised so far are read off its state by the parameter \<open>events\<close>, and the demo's listener prints those of a call
  when the call ends (nothing else is printed meanwhile).
\<close>

section \<open>The narrator\<close>

definition glyph_line :: "string \<Rightarrow> string \<Rightarrow> string \<Rightarrow> string" where
  "glyph_line color glyph text = ''  '' @ color @ glyph @ c_reset @ '' '' @ text"

definition n_header :: "string \<Rightarrow> ('w, unit) prog" where
  "n_header title = and_then (say []) (\<lambda>_.
     and_then (say (c_bold @ c_cyan @ title @ c_reset @ ''  '' @ [CHR 0xE2, CHR 0x80, CHR 0x94] @ ''  fault-tolerance demo''))
       (\<lambda>_. say HR))"

definition n_step :: "string \<Rightarrow> ('w, unit) prog" where
  "n_step text = say (glyph_line c_dim [CHR 0xE2, CHR 0x96, CHR 0xB8] text)"

definition n_ok :: "string \<Rightarrow> ('w, unit) prog" where
  "n_ok text = say (glyph_line c_green [CHR 0xE2, CHR 0x9C, CHR 0x93] text)"

definition n_recover :: "string \<Rightarrow> ('w, unit) prog" where
  "n_recover text = say (glyph_line c_cyan [CHR 0xE2, CHR 0x9F, CHR 0xB3] text)"

definition retry_text :: "string \<Rightarrow> string" where
  "retry_text text = glyph_line c_yellow [CHR 0xE2, CHR 0x9A, CHR 0xA0] text"

definition breaker_text :: "string \<Rightarrow> string" where
  "breaker_text text = glyph_line c_magenta [CHR 0xE2, CHR 0x97, CHR 0x8D] text"

definition n_dead :: "string \<Rightarrow> ('w, unit) prog" where
  "n_dead text = say (glyph_line c_red [CHR 0xE2, CHR 0x98, CHR 0xA0] text)"

definition n_footer :: "int \<Rightarrow> int \<Rightarrow> ('w, unit) prog" where
  "n_footer demonstrated failed = and_then (say HR) (\<lambda>_.
     say (''  '' @ c_green @ show_int demonstrated @ '' demonstrated'' @ c_reset @ '', '' @
       (if failed \<noteq> 0 then c_red else c_dim) @ show_int failed @ '' failed'' @ c_reset))"

section \<open>Demo 1: a crashed consumer\<close>

definition consumerCrashDemo :: "('w, 'sub) Env \<Rightarrow> ('w, bool) prog" where
  "consumerCrashDemo e =
     and_then (nonce e) (\<lambda>n. let topic = ''mbc.fault.crash.'' @ n in
     and_then (nonce e) (\<lambda>n1. let opts = no_subscribe_options\<lparr>so_subscriberId := Some (''worker-'' @ n1)\<rparr> in
     and_then (AckCollector_start e 300 topic opts) (\<lambda>crashed.
     and_then (do_publish e topic ''job-A'' None None) (\<lambda>_.
     and_then (waitUntil e (\<lambda>l. 1 \<le> received_count 300 l) 4000) (\<lambda>got.
     if \<not> got then
       and_then (n_step ''consumer never received the message'') (\<lambda>_.
       and_then (stop_subscribe e crashed) (\<lambda>_. gives False))
     else
       and_then (n_ok ''message delivered to consumer'') (\<lambda>_.
       and_then (n_step ''consumer crashes (drops the link with the message un-acked)'') (\<lambda>_.
       and_then (stop_subscribe e crashed) (\<lambda>_.
       and_then (AckCollector_start e 301 topic opts) (\<lambda>fresh.
       and_then (clock e) (\<lambda>t0.
       and_then (waitUntil e (\<lambda>l. 1 \<le> received_count 301 l) 6000) (\<lambda>redelivered.
       and_then (stop_subscribe e fresh) (\<lambda>_.
       and_then (clock e) (\<lambda>t.
       if redelivered then
         and_then (n_recover (''broker redelivered the message to a fresh consumer  ('' @ show_int (t - t0) @ ''ms)''))
           (\<lambda>_. gives True)
       else
         and_then (n_step (''redelivery did NOT happen '' @ [CHR 0xE2, CHR 0x80, CHR 0x94] @ '' message lost''))
           (\<lambda>_. gives False))))))))))))))"

section \<open>Demo 2: an outage\<close>

record 'p Publisher =
  pb_pipeline :: 'p
  pb_faults :: int

definition demo_resilience :: ResilienceOptions where
  "demo_resilience = \<lparr>maxRetryAttempts = 3, initialDelayMs = 60, maxDelayMs = 200, consecutiveFailures = 3,
     halfOpenAfterMs = 800\<rparr>"

text \<open>The listener \<open>onEvent\<close>; the flag \<open>breakerOpen\<close> is set once and for all.\<close>

fun event_line :: "ResilienceEvent \<Rightarrow> string" where
  "event_line (RetryEvent k reason) = retry_text (''retry #'' @ show_nat k @ '' after transient fault'')"
| "event_line BreakerOpen =
     breaker_text (''circuit OPENED '' @ [CHR 0xE2, CHR 0x80, CHR 0x94] @ '' failing fast to protect the broker'')"
| "event_line BreakerHalfOpen =
     breaker_text (''circuit HALF-OPEN '' @ [CHR 0xE2, CHR 0x80, CHR 0x94] @ '' probing for recovery'')"
| "event_line BreakerClose =
     breaker_text (''circuit CLOSED '' @ [CHR 0xE2, CHR 0x80, CHR 0x94] @ '' fully recovered'')"

definition on_events :: "ResilienceEvent list \<Rightarrow> Locals \<Rightarrow> Locals" where
  "on_events evs = fold (\<lambda>ev. push_var ''console'' (JStr (event_line ev))) evs"

definition breakerOpened :: "('p \<Rightarrow> ResilienceEvent list) \<Rightarrow> 'p Publisher \<Rightarrow> bool" where
  "breakerOpened events pb \<longleftrightarrow> BreakerOpen \<in> set (events (pb_pipeline pb))"

text \<open>\<open>await resilient.publish(...)\<close>: its outcome and the new state of the publisher.\<close>

definition resilient_publish :: "('p, 'w faulty, 'sub) pipeline \<Rightarrow> ('p \<Rightarrow> ResilienceEvent list) \<Rightarrow> ('w, 'sub) Env \<Rightarrow> destination \<Rightarrow> string \<Rightarrow>
    'p Publisher \<Rightarrow> ('w, bool \<times> 'p Publisher) prog" where
  "resilient_publish execute events e topic payload pb = (\<lambda>(w, l).
     case ad_publish (ResilientScheduler execute demo_resilience (FaultInjectingBus (en_port e))) topic payload None None
       (pb_pipeline pb, pb_faults pb, w) of
       (r, p, k, w') \<Rightarrow> (Inr (\<not> isl r, \<lparr>pb_pipeline = p, pb_faults = k\<rparr>),
         en_elapse e 0 (w', on_events (drop (length (events (pb_pipeline pb))) (events p)) l)))"

text \<open>The loop of the outage: at most \<open>n\<close> publishes until the breaker is open.\<close>

fun outage :: "('p, 'w faulty, 'sub) pipeline \<Rightarrow> ('p \<Rightarrow> ResilienceEvent list) \<Rightarrow> ('w, 'sub) Env \<Rightarrow> destination \<Rightarrow> nat \<Rightarrow>
    'p Publisher \<Rightarrow> ('w, 'p Publisher) prog" where
  "outage execute events e topic 0 pb = gives pb"
| "outage execute events e topic (Suc n) pb =
     (if breakerOpened events pb then gives pb
      else and_then (resilient_publish execute events e topic ''during-outage'' pb)
        (\<lambda>(_, pb'). outage execute events e topic n pb'))"

text \<open>The loop of the recovery: at most \<open>n\<close> publishes until one succeeds.\<close>

fun recovery :: "('p, 'w faulty, 'sub) pipeline \<Rightarrow> ('p \<Rightarrow> ResilienceEvent list) \<Rightarrow> ('w, 'sub) Env \<Rightarrow> destination \<Rightarrow> nat \<Rightarrow> 'p Publisher \<Rightarrow>
    ('w, bool \<times> 'p Publisher) prog" where
  "recovery execute events e topic 0 pb = gives (False, pb)"
| "recovery execute events e topic (Suc n) pb =
     and_then (resilient_publish execute events e topic ''recovered'' pb) (\<lambda>(ok, pb').
       if ok then gives (True, pb')
       else and_then (delay e 300) (\<lambda>_. recovery execute events e topic n pb'))"

definition show_bool :: "bool \<Rightarrow> string" where
  "show_bool b = (if b then ''true'' else ''false'')"

definition disconnectDemo :: "('p, 'w faulty, 'sub) pipeline \<Rightarrow> ('p \<Rightarrow> ResilienceEvent list) \<Rightarrow> 'p \<Rightarrow> ('w, 'sub) Env \<Rightarrow> ('w, bool) prog" where
  "disconnectDemo execute events p0 e =
     and_then (nonce e) (\<lambda>n. let topic = ''mbc.fault.net.'' @ n in
     and_then (nonce e) (\<lambda>n1.
     and_then (AckCollector_start e 302 topic (no_subscribe_options\<lparr>so_subscriberId := Some (''obs-'' @ n1)\<rparr>)) (\<lambda>collector.
     and_then (n_step ''publish during a brief blip (2 transient faults)'') (\<lambda>_.
     and_then (resilient_publish execute events e topic ''blip'' \<lparr>pb_pipeline = p0, pb_faults = 2\<rparr>) (\<lambda>(blip, pb1).
     and_then (if blip then n_ok ''publish succeeded despite the blip (retries absorbed it)''
               else n_step ''publish failed unexpectedly during the blip'') (\<lambda>_.
     and_then (n_step ''broker connection severed (sustained outage)'') (\<lambda>_.
     and_then (outage execute events e topic 8 (pb1\<lparr>pb_faults := 100\<rparr>)) (\<lambda>pb2.
     and_then (delay e 1000) (\<lambda>_.
     and_then (recovery execute events e topic 5 (pb2\<lparr>pb_faults := 0\<rparr>)) (\<lambda>(recovered, pb3).
     and_then (waitUntil e (\<lambda>l. ''recovered'' \<in> set (bodies 302 l)) 4000) (\<lambda>delivered.
     and_then (stop_subscribe e collector) (\<lambda>_.
     let breakerOpen = breakerOpened events pb3 in
     if breakerOpen \<and> recovered \<and> delivered then
       and_then (n_ok ''post-recovery message delivered end-to-end'') (\<lambda>_. gives True)
     else
       and_then (n_step (''incomplete (breakerOpen='' @ show_bool breakerOpen @ '', recovered='' @ show_bool recovered @
           '', delivered='' @ show_bool delivered @ '')'')) (\<lambda>_. gives breakerOpen)))))))))))))"

section \<open>Demo 3: a poison message\<close>

definition poison_handler :: closure where
  "poison_handler m now l =
     [Update (add_var ''fault.attempts'' 1),
      Update (push_var ''console'' (JStr (retry_text (''delivery attempt #'' @
        (case im_deliveryCount m of Some k \<Rightarrow> show_nat k | None \<Rightarrow> show_int (num_var ''fault.attempts'' l + 1)) @
        '' failed '' @ arrow @ '' nack'')))),
      Settle (CallNack True)]"

definition poisonDemo :: "('w, 'sub) Env \<Rightarrow> ('w, bool) prog" where
  "poisonDemo e =
     (if \<not> supportsDeadLetter (ad_busCapabilities (en_port e)) then
        and_then (n_step (''broker has no dead-letter support '' @ [CHR 0xE2, CHR 0x80, CHR 0x94] @ '' skipping poison demo''))
          (\<lambda>_. gives False)
      else
        and_then (nonce e) (\<lambda>n. let topic = ''mbc.fault.poison.'' @ n in
        and_then (modify (set_var ''fault.attempts'' (JNum 0))) (\<lambda>_.
        and_then (nonce e) (\<lambda>n1.
        and_then (AckCollector_start e 303 topic (no_subscribe_options\<lparr>so_subscriberId := Some (''poison-'' @ n1),
            so_deadLetter := Some True, so_maxDeliveries := Some 3\<rparr>)) (\<lambda>main.
        and_then (nonce e) (\<lambda>n2.
        and_then (AckCollector_start e 304 (deadLetterAddress topic) (no_subscribe_options\<lparr>so_kind := Some Fanout,
            so_subscriberId := Some (''dlq-'' @ n2)\<rparr>)) (\<lambda>dlq.
        and_then (n_step ''publish a poison message (handler always fails)'') (\<lambda>_.
        and_then (do_publish e topic ''poison'' None None) (\<lambda>_.
        and_then (waitUntil e (\<lambda>l. 1 \<le> received_count 304 l) 8000) (\<lambda>landed.
        and_then (stop_subscribe e main) (\<lambda>_.
        and_then (stop_subscribe e dlq) (\<lambda>_.
        and_then (reads (num_var ''fault.attempts'')) (\<lambda>attempts.
        if landed then
          and_then (n_dead (''dead-lettered after '' @ show_int attempts @ '' attempts '' @ arrow @ '' '' @ deadLetterAddress topic))
            (\<lambda>_. gives True)
        else
          and_then (n_step (''poison message was not dead-lettered (attempts='' @ show_int attempts @ '')''))
            (\<lambda>_. gives False))))))))))))))"

section \<open>The run\<close>

text \<open>\<open>demonstrated += (await demo) ? 1 : (failed++, 0)\<close>.\<close>

definition counted :: "('w, bool) prog \<Rightarrow> ('w, unit) prog" where
  "counted demo = and_then demo (\<lambda>ok. modify (add_var (if ok then ''demonstrated'' else ''failed'') 1))"

definition runFaultDemos :: "('p, 'w faulty, 'sub) pipeline \<Rightarrow> ('p \<Rightarrow> ResilienceEvent list) \<Rightarrow> 'p \<Rightarrow> ('w, 'sub) Env \<Rightarrow> ('w, int) prog" where
  "runFaultDemos execute events p0 e s =
     (case and_then (port_call e unit_of (ad_connect (en_port e))) (\<lambda>_. do_connectBus e) s of
        (Inl err, s1) \<Rightarrow> (Inr 0, s1)
      | (Inr _, s1) \<Rightarrow>
          and_then (n_header (ad_name (en_port e))) (\<lambda>_.
          and_then (modify (set_vars [(''demonstrated'', JNum 0), (''failed'', JNum 0)])) (\<lambda>_.
          finally_do
            (and_then (counted (consumerCrashDemo e)) (\<lambda>_.
             and_then (counted (disconnectDemo execute events p0 e)) (\<lambda>_.
             and_then (counted (poisonDemo e)) (\<lambda>_. reads (num_var ''failed'')))))
            (and_then (reads (\<lambda>l. (num_var ''demonstrated'' l, num_var ''failed'' l))) (\<lambda>(demonstrated, failed).
             and_then (n_footer demonstrated failed) (\<lambda>_. port_call e unit_of (ad_dispose (en_port e))))))) s1)"

definition fault_brokers :: "string \<Rightarrow> string list option" where
  "fault_brokers arg =
     (if arg \<noteq> ''all'' \<and> arg \<notin> set KNOWN_BROKERS then None
      else Some (if arg = ''all'' then KNOWN_BROKERS else [arg]))"

definition fault_exit :: "(string \<Rightarrow> int) \<Rightarrow> string \<Rightarrow> int" where
  "fault_exit failures_of arg =
     (case fault_brokers arg of
        None \<Rightarrow> 2
      | Some brokers \<Rightarrow> if sum_list (map failures_of brokers) > 0 then 1 else 0)"

definition fault_closures :: "handler \<Rightarrow> closure" where
  "fault_closures h =
     (if h = 300 then AckCollector_handler h (Some s7_crash_handler) False
      else if h \<in> {301, 302, 304} then AckCollector_handler h None True
      else if h = 303 then AckCollector_handler h (Some poison_handler) False
      else (\<lambda>m now l. []))"

end
