(* ===== verification/Fault_Properties.thy ===== *)
theory Fault_Properties
  imports Fault_Demo
begin

text \<open>
  The bookkeeping of the fault-tolerance demonstration: every demo is counted once. The proofs go through the
  structure of the demos with the rules \<open>keeps_intros\<close>, for programs that leave the two counters alone.
\<close>

named_theorems keeps_intros \<open>programs that leave the counters alone\<close>

definition counters :: "Locals \<Rightarrow> int \<times> int" where
  "counters l = (num_var ''demonstrated'' l, num_var ''failed'' l)"

definition keeps :: "('w, 'a) prog \<Rightarrow> bool" where
  "keeps p \<longleftrightarrow> (\<forall>s. counters (snd (snd (p s))) = counters (snd s))"

lemma keepsD: "keeps p \<Longrightarrow> counters (snd (snd (p s))) = counters (snd s)"
  unfolding keeps_def by blast

text \<open>An environment whose event loop leaves the counters alone, as no handler of the demos touches them.\<close>

definition quiet :: "('w, 'sub) Env \<Rightarrow> bool" where
  "quiet e \<longleftrightarrow> (\<forall>ms s. counters (snd (en_elapse e ms s)) = counters (snd s))"

lemma quietD: "quiet e \<Longrightarrow> counters (snd (en_elapse e ms s)) = counters (snd s)"
  unfolding quiet_def by blast

lemma keeps_and_then [keeps_intros]:
  assumes "keeps m" and "\<And>x. keeps (f x)"
  shows "keeps (and_then m f)"
  unfolding keeps_def
proof
  fix s
  obtain r t where m: "m s = (r, t)" by (meson surj_pair)
  with keepsD [OF assms(1), of s] show "counters (snd (snd (and_then m f s))) = counters (snd s)"
    using keepsD [OF assms(2)] by (cases r) (simp_all add: and_then_def)
qed

lemma keeps_simple [keeps_intros]:
  "keeps (gives x)" "keeps (clock e)" "keeps (reads g)"
  by (auto simp: keeps_def gives_def clock_def reads_def split: prod.splits)

lemma keeps_modify: "(\<And>l. counters (f l) = counters l) \<Longrightarrow> keeps (modify f)"
  by (auto simp: keeps_def modify_def split: prod.splits)

lemma counters_set_var: "v \<noteq> ''demonstrated'' \<Longrightarrow> v \<noteq> ''failed'' \<Longrightarrow> counters (set_var v x l) = counters l"
  by (simp add: counters_def num_var_def get_var_def set_var_def)

lemma counters_fields [simp]:
  "counters (l\<lparr>lo_received := r\<rparr>) = counters l" "counters (l\<lparr>lo_counter := c, lo_draws := d\<rparr>) = counters l"
  by (simp_all add: counters_def num_var_def get_var_def)

lemma keeps_say [keeps_intros]: "keeps (say line)"
  unfolding say_def by (rule keeps_modify) (simp add: push_var_def counters_set_var)

lemma keeps_narrator [keeps_intros]:
  "keeps (n_step text)" "keeps (n_ok text)" "keeps (n_recover text)" "keeps (n_dead text)"
  by (simp_all add: n_step_def n_ok_def n_recover_def n_dead_def keeps_say)

lemma keeps_nonce [keeps_intros]: "keeps (nonce e)"
  by (auto simp: keeps_def nonce_def Let_def split: prod.splits)

lemma keeps_await: "quiet e \<Longrightarrow> keeps (await_op e op)"
  by (auto simp: keeps_def await_op_def quietD split: prod.splits)

lemma keeps_call: "quiet e \<Longrightarrow> keeps (port_call e view op)"
  unfolding port_call_def by (intro keeps_and_then keeps_await) (simp_all add: keeps_def)

lemma keeps_ports [keeps_intros]:
  assumes "quiet e"
  shows "keeps (do_publish e t p rk o')" "keeps (do_subscribe e t h so)" "keeps (stop_subscribe e sub)"
  using assms by (simp_all add: do_publish_def do_subscribe_def stop_subscribe_def keeps_call keeps_await)

lemma keeps_start [keeps_intros]: "quiet e \<Longrightarrow> keeps (AckCollector_start e h t so)"
  unfolding AckCollector_start_def by (intro keeps_and_then keeps_modify keeps_ports) simp_all

lemma keeps_delay [keeps_intros]: "quiet e \<Longrightarrow> keeps (delay e ms)"
  by (simp add: keeps_def delay_def quietD)

lemma poll_counters: "quiet e \<Longrightarrow> counters (snd (snd (poll e p d n s))) = counters (snd s)"
proof (induction n arbitrary: s)
  case (Suc n)
  then show ?case by (simp add: poll.simps [of e p d "Suc n"] quietD)
qed (simp add: poll.simps [of e p d 0])

lemma keeps_waitUntil [keeps_intros]: "quiet e \<Longrightarrow> keeps (waitUntil e p t)"
  unfolding keeps_def waitUntil_def using poll_counters by (auto simp: split_def)

lemma keeps_if [keeps_intros]: "keeps p \<Longrightarrow> keeps q \<Longrightarrow> keeps (if b then p else q)"
  by simp

lemma keeps_prod [keeps_intros]: "(\<And>x y. keeps (f x y)) \<Longrightarrow> keeps (case z of (x, y) \<Rightarrow> f x y)"
  by (cases z) simp

lemma on_events_counters [simp]: "counters (on_events evs l) = counters l"
  by (induction evs arbitrary: l) (simp_all add: on_events_def push_var_def counters_set_var)

lemma keeps_resilient [keeps_intros]: "quiet e \<Longrightarrow> keeps (resilient_publish execute events e t payload pb)"
  by (auto simp: keeps_def resilient_publish_def quietD split: prod.splits)

lemma keeps_outage [keeps_intros]: "quiet e \<Longrightarrow> keeps (outage execute events e t n pb)"
  by (induction n arbitrary: pb) (auto intro!: keeps_intros)

lemma keeps_recovery [keeps_intros]: "quiet e \<Longrightarrow> keeps (recovery execute events e t n pb)"
  by (induction n arbitrary: pb) (auto intro!: keeps_intros)

lemma keeps_demos [keeps_intros]:
  assumes "quiet e"
  shows "keeps (consumerCrashDemo e)" "keeps (disconnectDemo execute events p0 e)" "keeps (poisonDemo e)"
  unfolding consumerCrashDemo_def disconnectDemo_def poisonDemo_def Let_def
  by (auto intro!: keeps_intros keeps_modify simp: assms counters_set_var)

section \<open>Counting\<close>

lemma counted_run:
  assumes "keeps demo" and "counted demo s = (Inr u, s')"
  shows "\<exists>ok. fst (demo s) = Inr ok \<and>
    counters (snd s') = (fst (counters (snd s)) + (if ok then 1 else 0), snd (counters (snd s)) + (if ok then 0 else 1))"
proof -
  obtain r w l where d: "demo s = (r, w, l)" by (metis prod_cases3)
  with assms(2) obtain ok where r: "r = Inr ok" by (cases r) (simp_all add: counted_def and_then_def)
  from keepsD [OF assms(1), of s] d have "counters l = counters (snd s)" by simp
  with assms(2) d r show ?thesis
    by (auto simp: counted_def and_then_def modify_def counters_def add_var_def num_var_def get_var_def set_var_def)
qed

lemma and_then_Inr:
  assumes "and_then m f s = (Inr y, s')"
  obtains x t where "m s = (Inr x, t)" and "f x t = (Inr y, s')"
  using assms by (cases "m s"; cases "fst (m s)") (auto simp: and_then_def split: sum.splits)

lemma keeps_footer [keeps_intros]: "keeps (n_footer d f)" "keeps (n_header title)"
  by (auto simp: n_footer_def n_header_def intro!: keeps_intros)

lemma finally_Inr:
  assumes "finally_do p c s = (Inr y, s')"
  obtains t u where "p s = (Inr y, t)" and "c t = (Inr u, s')"
  using assms by (cases "p s"; cases "c (snd (p s))") (auto simp: finally_do_def split: sum.splits)

lemma skipped_poison: "\<not> supportsDeadLetter (ad_busCapabilities (en_port e)) \<Longrightarrow> fst (poisonDemo e s) = Inr False"
  by (cases s) (simp add: poisonDemo_def and_then_def n_step_def say_def modify_def gives_def)

lemma three_demos:
  assumes "quiet e" and "counters (snd s) = (0, 0)"
    and "and_then (counted (consumerCrashDemo e)) (\<lambda>_. and_then (counted (disconnectDemo execute events p0 e)) (\<lambda>_.
      and_then (counted (poisonDemo e)) (\<lambda>_. reads (num_var ''failed'')))) s = (Inr n, s')"
  shows "0 \<le> n \<and> counters (snd s') = (3 - n, n) \<and> (\<not> supportsDeadLetter (ad_busCapabilities (en_port e)) \<longrightarrow> 1 \<le> n)"
proof -
  note demos = keeps_demos [OF assms(1)]
  from assms(3) obtain u1 s1 where 1: "counted (consumerCrashDemo e) s = (Inr u1, s1)"
    and r1: "and_then (counted (disconnectDemo execute events p0 e)) (\<lambda>_.
      and_then (counted (poisonDemo e)) (\<lambda>_. reads (num_var ''failed''))) s1 = (Inr n, s')"
    by (rule and_then_Inr)
  from r1 obtain u2 s2 where 2: "counted (disconnectDemo execute events p0 e) s1 = (Inr u2, s2)"
    and r2: "and_then (counted (poisonDemo e)) (\<lambda>_. reads (num_var ''failed'')) s2 = (Inr n, s')" by (rule and_then_Inr)
  from r2 obtain u3 s3 where 3: "counted (poisonDemo e) s2 = (Inr u3, s3)" "reads (num_var ''failed'') s3 = (Inr n, s')"
    by (rule and_then_Inr)
  have last: "s' = s3" "n = snd (counters (snd s3))" using 3(2) by (auto simp: reads_def counters_def split: prod.splits)
  from counted_run [OF demos(1) 1] counted_run [OF demos(2) 2] counted_run [OF demos(3) 3(1)] assms(2) last skipped_poison [of e s2]
  show ?thesis by (auto split: if_splits)
qed


definition once :: "(js_error \<Rightarrow> bool) \<Rightarrow> ResilienceOptions \<Rightarrow> ('w, 'sub) operation \<Rightarrow> (unit \<times> 'w, 'sub) operation" where
  "once policy options op = (\<lambda>(p, w). case op w of (r, w') \<Rightarrow> (r, (), w'))"

text \<open>The in-process adapter with a clock that jumps, in which no handler runs.\<close>

definition still_env :: "(InMemoryScheduler, nat \<times> handler) Env" where
  "still_env = \<lparr>en_port = memory_adapter, en_now = is_now, en_elapse = (\<lambda>ms (w, l). (w\<lparr>is_now := is_now w + 10000\<rparr>, l)),
     en_stopConsume = (\<lambda>_ w. (Inr (), w)), en_stopSubscribe = (\<lambda>_ w. (Inr (), w)), en_random = (\<lambda>_. [])\<rparr>"

text \<open>Programs that do not fail there.\<close>

named_theorems total_intros \<open>programs that return\<close>

definition total :: "('w, 'a) prog \<Rightarrow> bool" where
  "total p \<longleftrightarrow> (\<forall>s. \<not> isl (fst (p s)))"

lemma totalD: "total p \<Longrightarrow> \<not> isl (fst (p s))"
  unfolding total_def by blast

lemma total_and_then [total_intros]:
  assumes "total m" and "\<And>x. total (f x)"
  shows "total (and_then m f)"
  unfolding total_def
proof
  fix s
  obtain r t where m: "m s = (r, t)" by (meson surj_pair)
  with totalD [OF assms(1), of s] obtain x where "r = Inr x" by (cases r) auto
  with m totalD [OF assms(2)] show "\<not> isl (fst (and_then m f s))" by simp
qed

lemma total_finally [total_intros]:
  assumes "total p" and "total c"
  shows "total (finally_do p c)"
  unfolding total_def
proof
  fix s
  obtain r t where p: "p s = (r, t)" by (meson surj_pair)
  obtain r' t' where c: "c t = (r', t')" by (meson surj_pair)
  from totalD [OF assms(1), of s] totalD [OF assms(2), of t] p c show "\<not> isl (fst (finally_do p c s))"
    by (cases r') (simp_all add: finally_do_def)
qed

lemma total_simple [total_intros]:
  "total (gives x)" "total (clock e)" "total (reads g)" "total (modify f)" "total (nonce e)" "total (delay e ms)"
  "total (waitUntil e p limit)" "total (say line)" "total (resilient_publish execute events e t payload pb)"
  by (auto simp: total_def gives_def clock_def reads_def modify_def nonce_def delay_def waitUntil_def say_def
      resilient_publish_def Let_def split: prod.splits)

lemma total_narrator [total_intros]:
  "total (n_step text)" "total (n_ok text)" "total (n_recover text)" "total (n_dead text)" "total (n_footer d f)" "total (n_header text)"
  by (auto simp: n_step_def n_ok_def n_recover_def n_dead_def n_footer_def n_header_def intro!: total_intros)

lemma total_ports [total_intros]:
  "total (do_publish still_env t p rk o')" "total (do_subscribe still_env t h so)" "total (stop_subscribe still_env sub)"
  "total (port_call still_env unit_of (ad_dispose memory_adapter))" "total (AckCollector_start still_env h t so)"
  "total (port_call still_env unit_of (ad_connect memory_adapter))" "total (do_connectBus still_env)"
  by (auto simp: total_def do_publish_def do_subscribe_def stop_subscribe_def AckCollector_start_def do_connectBus_def
      port_call_def await_op_def and_then_def modify_def still_env_def memory_adapter_def returns_def split: prod.splits)

lemma total_if [total_intros]: "total p \<Longrightarrow> total q \<Longrightarrow> total (if b then p else q)"
  by simp

lemma total_prod [total_intros]: "(\<And>x y. total (f x y)) \<Longrightarrow> total (case z of (x, y) \<Rightarrow> f x y)"
  by (cases z) simp

lemma total_loops [total_intros]: "total (outage execute events e t n pb)" "total (recovery execute events e t n pb)"
  by (induction n arbitrary: pb) (auto intro!: total_intros)

lemma total_demos [total_intros]:
  "total (consumerCrashDemo still_env)" "total (disconnectDemo execute events p0 still_env)" "total (poisonDemo still_env)"
  unfolding consumerCrashDemo_def disconnectDemo_def poisonDemo_def Let_def by (auto intro!: total_intros)

lemma total_run: "total (runFaultDemos execute events p0 still_env)"
  unfolding total_def
proof
  fix s
  let ?connect = "and_then (port_call still_env unit_of (ad_connect (en_port still_env))) (\<lambda>_. do_connectBus still_env)"
  obtain r t where c: "?connect s = (r, t)" by (meson surj_pair)
  have "total (and_then (n_header (ad_name (en_port still_env))) (\<lambda>_.
      and_then (modify (set_vars [(''demonstrated'', JNum 0), (''failed'', JNum 0)])) (\<lambda>_.
      finally_do
        (and_then (counted (consumerCrashDemo still_env)) (\<lambda>_.
         and_then (counted (disconnectDemo execute events p0 still_env)) (\<lambda>_.
         and_then (counted (poisonDemo still_env)) (\<lambda>_. reads (num_var ''failed'')))))
        (and_then (reads (\<lambda>l. (num_var ''demonstrated'' l, num_var ''failed'' l))) (\<lambda>(demonstrated, failed).
         and_then (n_footer demonstrated failed) (\<lambda>_. port_call still_env unit_of (ad_dispose (en_port still_env))))))))"
    by (auto simp: counted_def still_env_def [THEN arg_cong [of _ _ en_port]] intro!: total_intros)
  from totalD [OF this, of t] c show "\<not> isl (fst (runFaultDemos execute events p0 still_env s))"
    by (cases r) (simp_all add: runFaultDemos_def)
qed


end
