(* ===== verification/Interactive.thy ===== *)
theory Interactive
  imports Fault_Demo Complex_Main "HOL-Library.Word"
begin

text \<open>
  The command-line clients (\<open>interactive/common.ts\<close>, \<open>publish.ts\<close>, \<open>schedule.ts\<close>, \<open>subscribe.ts\<close>, \<open>worker.ts\<close>):
  the parser of their arguments, and what they do on a connected adapter, with the lines they write to the console.
  \<open>Number(text)\<close> is the parameter \<open>number\<close>, \<^term>\<open>None\<close> where it is \<open>NaN\<close>, and \<open>shown\<close> is how such a number prints.
\<close>

unbundle bit_operations_syntax

section \<open>Arguments\<close>

record Cli =
  cli_broker :: string
  cli_positionals :: "string list"
  cli_flags :: "(string \<times> string) list"
  cli_bools :: "string list"

definition is_option :: "string \<Rightarrow> bool" where
  "is_option a \<longleftrightarrow> take 2 a = ''--''"

definition add_last :: "'a \<Rightarrow> 'a list \<Rightarrow> 'a list" where
  "add_last x xs = (if x \<in> set xs then xs else xs @ [x])"

text \<open>The loop over \<open>argv\<close>; the sets are in order of insertion.\<close>

function scan_args :: "string list \<Rightarrow> string list \<times> (string \<times> string) list \<times> string list \<Rightarrow>
    string list \<times> (string \<times> string) list \<times> string list" where
  "scan_args [] acc = acc"
| "scan_args (a # rest) (ps, fs, bs) =
     (if is_option a then
        (if rest \<noteq> [] \<and> \<not> is_option (hd rest) then scan_args (tl rest) (ps, js_map_set fs (drop 2 a) (hd rest), bs)
         else scan_args rest (ps, fs, add_last (drop 2 a) bs))
      else scan_args rest (ps @ [a], fs, bs))"
  by pat_completeness auto
termination
  by (relation "measure (\<lambda>(as, acc). length as)") (auto simp: neq_Nil_conv)

text \<open>\<open>None\<close> is the exit with code 2, after \<open>usage_lines\<close>.\<close>

definition usage_lines :: "string \<Rightarrow> string list" where
  "usage_lines usage = [c_red @ ''Usage:'' @ c_reset @ '' '' @ usage,
     ''First argument must be a broker: '' @ join_strings '' | '' KNOWN_BROKERS]"

definition parseCli :: "string list \<Rightarrow> Cli option" where
  "parseCli argv =
     (case scan_args argv ([], [], []) of
        (ps, fs, bs) \<Rightarrow>
          let broker = (case ps of [] \<Rightarrow> [] | p # _ \<Rightarrow> p)
          in if broker \<notin> set KNOWN_BROKERS then None
             else Some \<lparr>cli_broker = broker, cli_positionals = tl ps, cli_flags = fs, cli_bools = bs\<rparr>)"

definition cli_flag :: "string \<Rightarrow> Cli \<Rightarrow> string option" where
  "cli_flag name cli = js_map_get (cli_flags cli) name"

definition cli_bool :: "string \<Rightarrow> Cli \<Rightarrow> bool" where
  "cli_bool name cli \<longleftrightarrow> name \<in> set (cli_bools cli)"

definition cli_num :: "(string \<Rightarrow> rat option) \<Rightarrow> string \<Rightarrow> rat \<Rightarrow> Cli \<Rightarrow> rat option" where
  "cli_num number name fallback cli = (case cli_flag name cli of None \<Rightarrow> Some fallback | Some v \<Rightarrow> number v)"

definition positional :: "string \<Rightarrow> Cli \<Rightarrow> string" where
  "positional fallback cli = (case cli_positionals cli of [] \<Rightarrow> fallback | p # _ \<Rightarrow> p)"

text \<open>Comparisons with \<open>NaN\<close> are false.\<close>

definition below :: "rat \<Rightarrow> rat option \<Rightarrow> bool" where
  "below x y = (case y of None \<Rightarrow> False | Some r \<Rightarrow> x < r)"

text \<open>The delay of a timer, in whole milliseconds and at least one.\<close>

definition timer_ms :: "rat option \<Rightarrow> int" where
  "timer_ms x = (case x of None \<Rightarrow> 1 | Some r \<Rightarrow> max 1 \<lfloor>r\<rfloor>)"

text \<open>\<open>ts()\<close>: the part of \<open>toISOString()\<close> from the hour to the millisecond, for years of four digits.\<close>

definition pad_zeros :: "nat \<Rightarrow> nat \<Rightarrow> string" where
  "pad_zeros n k = replicate (n - length (show_nat k)) CHR ''0'' @ show_nat k"

definition ts :: "millis \<Rightarrow> string" where
  "ts now =
     (let ms = nat (now mod 86400000)
      in pad_zeros 2 (ms div 3600000) @ '':'' @ pad_zeros 2 (ms div 60000 mod 60) @ '':'' @
         pad_zeros 2 (ms div 1000 mod 60) @ ''.'' @ pad_zeros 3 (ms mod 1000))"

definition emph :: "string \<Rightarrow> string" where
  "emph text = c_bold @ text @ c_reset"

definition label :: "string \<Rightarrow> string" where
  "label text = c_bold @ c_cyan @ text @ c_reset"

definition stop_hint :: string where
  "stop_hint = c_dim @ ''Ctrl-C to stop'' @ c_reset"

text \<open>\<open>m.deliveryCount ? ... : ''\<close>\<close>

definition delivery_note :: "string \<Rightarrow> IncomingMessage \<Rightarrow> string" where
  "delivery_note word m =
     (case im_deliveryCount m of
        None \<Rightarrow> []
      | Some n \<Rightarrow> if n = 0 then [] else '' '' @ c_dim @ ''('' @ word @ '' '' @ show_nat n @ '')'' @ c_reset)"

text \<open>A line of a handler that is written at the time the action runs; all clocks show the same time.\<close>

definition log_at :: "(string \<Rightarrow> string) \<Rightarrow> act" where
  "log_at line = Update (\<lambda>l. push_var ''console'' (JStr (line (ts (ms_now (lo_store l))))) l)"

definition say_now :: "('w, 'sub) Env \<Rightarrow> (string \<Rightarrow> string) \<Rightarrow> ('w, unit) prog" where
  "say_now e line = and_then (clock e) (\<lambda>now. say (line (ts now)))"

definition connect_both :: "('w, 'sub) Env \<Rightarrow> ('w, unit) prog" where
  "connect_both e = and_then (port_call e unit_of (ad_connect (en_port e))) (\<lambda>_. do_connectBus e)"

section \<open>Publisher\<close>

text \<open>The iterations of \<open>for (let i = 1; i <= count; i++)\<close>, for a finite count.\<close>

definition rounds :: "rat option \<Rightarrow> nat list" where
  "rounds last_round = (case last_round of None \<Rightarrow> [] | Some r \<Rightarrow> [1 ..< Suc (nat \<lfloor>r\<rfloor>)])"

definition publish_main :: "(string \<Rightarrow> rat option) \<Rightarrow> (rat option \<Rightarrow> string) \<Rightarrow> Cli \<Rightarrow> ('w, 'sub) Env \<Rightarrow> ('w, unit) prog" where
  "publish_main number shown cli e =
     (let topic = positional ''orders'' cli;
          last_round = cli_num number ''count'' 1 cli;
          kind = coalesce (cli_flag ''kind'' cli) ''topic'';
          rate = cli_num number ''rate'' 250 cli;
          key = coalesce (cli_flag ''key'' cli) topic
      in and_then (connect_both e) (\<lambda>_.
         and_then (say (label (ad_name (en_port e)) @ ''  publishing '' @ shown last_round @ '' message(s) to '' @ emph topic @
             '' (kind='' @ kind @ '', key='' @ key @ '')'')) (\<lambda>_.
         and_then (each (\<lambda>i.
             let body = topic @ ''#'' @ show_nat i in
             and_then (do_publish e topic body (if kind = ''topic'' then Some key else None) None) (\<lambda>_.
             and_then (say_now e (\<lambda>t. glyph_line c_green [CHR 0xE2, CHR 0x86, CHR 0x91] (t @ ''  sent '' @ emph body))) (\<lambda>_.
             if below (of_nat i) last_round \<and> below 0 rate then delay e (timer_ms rate) else gives ()))) (rounds last_round)) (\<lambda>_.
         port_call e unit_of (ad_dispose (en_port e))))))"

section \<open>Scheduling\<close>

text \<open>
  The consumer 400 collects what arrives; the line it writes for a message is \<open>arrival_line\<close>. The result is whether the
  message arrived and whether the run was to show a cancellation. The model is for an \<open>--in\<close> that is a number: otherwise
  the program ends on an invalid date.
\<close>

definition arrival_line :: "string \<Rightarrow> string \<Rightarrow> string" where
  "arrival_line t body = glyph_line c_green [CHR 0xE2, CHR 0x86, CHR 0x93] (t @ ''  delivered '' @ emph body)"

definition reportUnsupported :: "string \<Rightarrow> js_error \<Rightarrow> ('w, unit) prog" where
  "reportUnsupported op err =
     (if is_NotSupported err
      then say (''  '' @ c_yellow @ [CHR 0xE2, CHR 0x8A, CHR 0x98] @ '' '' @ op @ '' is not supported by this broker'' @ c_reset)
      else raise err)"

definition outcome_line :: "bool \<Rightarrow> bool \<Rightarrow> string" where
  "outcome_line doCancel arrived =
     (let cross = [CHR 0xE2, CHR 0x9C, CHR 0x97]; tick = [CHR 0xE2, CHR 0x9C, CHR 0x93]
      in ''  '' @
         (if doCancel then
            (if arrived
             then c_red @ cross @ '' cancel failed '' @ [CHR 0xE2, CHR 0x80, CHR 0x94] @ '' message was delivered anyway''
             else c_green @ tick @ '' cancelled message never arrived'')
          else
            (if arrived then c_green @ tick @ '' scheduled message delivered on time''
             else c_red @ cross @ '' scheduled message never arrived'')) @ c_reset)"

definition list_line :: "ScheduledInfo list \<Rightarrow> string" where
  "list_line pending = ''  '' @ c_dim @ ''list '' @ arrow @ c_reset @ '' '' @ show_nat (length pending) @ '' pending: '' @
     join_strings '', '' (map si_id pending)"

definition schedule_main :: "(string \<Rightarrow> rat option) \<Rightarrow> (rat option \<Rightarrow> string) \<Rightarrow> Cli \<Rightarrow> ('w, 'sub) Env \<Rightarrow>
    ('w, bool \<times> bool) prog" where
  "schedule_main number shown cli e =
     (let dest = positional ''reminders'' cli;
          seconds = coalesce (cli_num number ''in'' 5 cli) 0;
          doCancel = cli_bool ''cancel'' cli; doList = cli_bool ''list'' cli
      in and_then (connect_both e) (\<lambda>_.
         and_then (say (label (ad_name (en_port e)) @ ''  scheduling on '' @ emph dest @ '' (+'' @ shown (Some seconds) @ ''s)'')) (\<lambda>_.
         and_then (MessageCollector_start e 400 dest) (\<lambda>sub.
         and_then (clock e) (\<lambda>t.
         let body = ''reminder-'' @ show_int t in
         and_then (clock e) (\<lambda>t'.
         let deliverAt = t' + \<lfloor>seconds * 1000\<rfloor> in
         and_then (do_schedule e dest body deliverAt) (\<lambda>handle.
         and_then (say_now e (\<lambda>t. glyph_line c_cyan [CHR 0xE2, CHR 0x8F, CHR 0xB0]
             (t @ ''  scheduled '' @ emph body @ '' for '' @ take 8 (ts deliverAt)))) (\<lambda>_.
         and_then (if doList then
             and_then (attempt (do_listScheduled e dest)) (\<lambda>r. case r of
               Inl err \<Rightarrow> reportUnsupported ''list'' err
             | Inr pending \<Rightarrow> say (list_line pending))
           else gives ()) (\<lambda>_.
         and_then (if doCancel then
             and_then (attempt (do_cancel e handle)) (\<lambda>r. case r of
               Inl err \<Rightarrow> reportUnsupported ''cancel'' err
             | Inr _ \<Rightarrow> say_now e (\<lambda>t. glyph_line c_yellow [CHR 0xE2, CHR 0x9C, CHR 0x96] (t @ ''  cancelled '' @ emph body)))
           else gives ()) (\<lambda>_.
         and_then (delay e \<lfloor>seconds * 1000 + 2500\<rfloor>) (\<lambda>_.
         and_then (reads (\<lambda>l. body \<in> set (plain_bodies 400 l))) (\<lambda>arrived.
         and_then (say (outcome_line doCancel arrived)) (\<lambda>_.
         and_then (stop_consume e sub) (\<lambda>_.
         and_then (port_call e unit_of (ad_dispose (en_port e))) (\<lambda>_. gives (arrived, doCancel))))))))))))))))"

section \<open>Subscriber\<close>

datatype decision = Crash | Requeue_it | Acknowledge

text \<open>What the handler does after the pause \<open>--work\<close>, where \<open>n\<close> messages have arrived by then.\<close>

definition multiple_of :: "nat \<Rightarrow> rat option \<Rightarrow> bool" where
  "multiple_of n every =
     (case every of None \<Rightarrow> False | Some r \<Rightarrow> 0 < r \<and> of_int \<lfloor>of_nat n / r\<rfloor> = of_nat n / r)"

definition subscriber_decision :: "(string \<Rightarrow> rat option) \<Rightarrow> Cli \<Rightarrow> nat \<Rightarrow> decision" where
  "subscriber_decision number cli n =
     (let nackEvery = cli_num number ''nack-every'' 0 cli; crashAfter = cli_num number ''crash-after'' 0 cli
      in if below 0 crashAfter \<and> \<not> below (of_nat n) crashAfter then Crash
         else if multiple_of n nackEvery then Requeue_it
         else Acknowledge)"

definition subscriber_options :: "string \<Rightarrow> Cli \<Rightarrow> SubscribeOptions" where
  "subscriber_options sid cli = no_subscribe_options\<lparr>
     so_kind := Some (if coalesce (cli_flag ''kind'' cli) ''topic'' = ''fanout'' then Fanout else Topic),
     so_subscriberId := Some sid, so_routingKey := cli_flag ''key'' cli\<rparr>"

section \<open>Worker\<close>

text \<open>The hash of \<open>pseudoRandom\<close> in thousandths, for texts in ASCII.\<close>

definition fnv_step :: "char \<Rightarrow> 32 word \<Rightarrow> 32 word" where
  "fnv_step ch h = (h XOR word_of_nat (of_char ch)) * 16777619"

definition pseudoRandom :: "string \<Rightarrow> rat" where
  "pseudoRandom s = of_nat (unat (fold fnv_step s 2166136261) mod 1000) / 1000"

definition verdict_line :: "string \<Rightarrow> IncomingMessage \<Rightarrow> bool \<Rightarrow> string \<Rightarrow> string" where
  "verdict_line wid m fail t =
     ''  '' @ (if fail then c_yellow @ [CHR 0xE2, CHR 0x86, CHR 0xBA] else c_green @ [CHR 0xE2, CHR 0x9C, CHR 0x93]) @ c_reset @
     '' '' @ t @ '' ['' @ wid @ ''] '' @ rm_body m @ delivery_note ''attempt'' m @ '' '' @ arrow @
     (if fail then '' nack'' else '' ack'')"

definition worker_handler :: "(string \<Rightarrow> rat option) \<Rightarrow> string \<Rightarrow> Cli \<Rightarrow> closure" where
  "worker_handler number wid cli m now l =
     (let failRate = cli_num number ''fail-rate'' 1 cli; work = cli_num number ''work'' 100 cli;
          fail = below (pseudoRandom (rm_body m)) failRate
      in (if below 0 work then [Sleep (timer_ms work)] else []) @
         [log_at (verdict_line wid m fail), Settle (if fail then CallNack True else CallAck)])"

text \<open>For a \<open>--max\<close> that is a natural number.\<close>

definition worker_options :: "(string \<Rightarrow> rat option) \<Rightarrow> string \<Rightarrow> Cli \<Rightarrow> SubscribeOptions" where
  "worker_options number sid cli = no_subscribe_options\<lparr>so_subscriberId := Some sid, so_deadLetter := Some True,
     so_maxDeliveries := Some (nat \<lfloor>coalesce (cli_num number ''max'' (of_nat DEFAULT_MAX_DELIVERIES) cli) 0\<rfloor>)\<rparr>"

section \<open>Long-running clients\<close>

text \<open>
  \<open>keepAlive\<close>: on a signal the process stops what it runs, and exits with 0 also when that fails. \<open>rnd\<close> are the random
  characters of a default name.
\<close>

definition keepAlive :: "('w, unit) prog \<Rightarrow> ('w, nat) prog" where
  "keepAlive onStop =
     and_then (say ([CHR 0x0A] @ c_dim @ ''shutting down'' @ [CHR 0xE2, CHR 0x80, CHR 0xA6] @ c_reset)) (\<lambda>_.
     and_then (attempt onStop) (\<lambda>_. gives 0))"

definition client_id :: "string \<Rightarrow> string \<Rightarrow> Cli \<Rightarrow> string" where
  "client_id prefix rnd cli = coalesce (cli_flag ''id'' cli) (prefix @ rnd)"

definition client_stop :: "('w, 'sub) Env \<Rightarrow> 'sub \<Rightarrow> ('w, nat) prog" where
  "client_stop e sub = keepAlive (and_then (stop_subscribe e sub) (\<lambda>_. port_call e unit_of (ad_dispose (en_port e))))"

text \<open>
  The subscriber's handler, for a broker that gives it one message at a time. A crash ends the process: nothing is
  settled and the counter is all that changes.
\<close>

definition received_line :: "string \<Rightarrow> IncomingMessage \<Rightarrow> string \<Rightarrow> string" where
  "received_line sid m t = glyph_line c_green [CHR 0xE2, CHR 0x86, CHR 0x93]
     (t @ ''  '' @ emph (''['' @ sid @ '']'') @ '' '' @ rm_body m @ delivery_note ''delivery'' m)"

definition crash_line :: "string \<Rightarrow> string" where
  "crash_line sid = ''  '' @ c_red @ [CHR 0xE2, CHR 0x9C, CHR 0x96] @ '' ['' @ sid @ ''] crashing (leaving msg un-acked)'' @ c_reset"

definition requeue_line :: "string \<Rightarrow> string" where
  "requeue_line sid = ''  '' @ c_yellow @ [CHR 0xE2, CHR 0x86, CHR 0xBA] @ '' ['' @ sid @ ''] nack (requeue)'' @ c_reset"

definition subscriber_handler :: "(string \<Rightarrow> rat option) \<Rightarrow> string \<Rightarrow> Cli \<Rightarrow> closure" where
  "subscriber_handler number sid cli m now l =
     (let work = cli_num number ''work'' 0 cli; n = nat (num_var ''n'' l + 1)
      in [Update (add_var ''n'' 1), log_at (received_line sid m)] @ (if below 0 work then [Sleep (timer_ms work)] else []) @
         (case subscriber_decision number cli n of
            Crash \<Rightarrow> [log_at (\<lambda>_. crash_line sid)]
          | Requeue_it \<Rightarrow> [log_at (\<lambda>_. requeue_line sid), Settle (CallNack True)]
          | Acknowledge \<Rightarrow> [Settle CallAck]))"

text \<open>What the clients do until they wait for a signal; the handler is the closure \<open>500\<close> or \<open>501\<close>.\<close>

definition subscriber_main :: "string \<Rightarrow> Cli \<Rightarrow> ('w, 'sub) Env \<Rightarrow> ('w, 'sub) prog" where
  "subscriber_main rnd cli e =
     (let topic = positional ''orders'' cli; sid = client_id ''sub-'' rnd cli;
          kind = coalesce (cli_flag ''kind'' cli) ''topic'';
          key = (case cli_flag ''key'' cli of None \<Rightarrow> [] | Some k \<Rightarrow> if k = [] then [] else '', key='' @ k)
      in and_then (connect_both e) (\<lambda>_.
         and_then (modify (set_var ''n'' (JNum 0))) (\<lambda>_.
         and_then (do_subscribe e topic 500 (subscriber_options sid cli)) (\<lambda>sub.
         and_then (say (label (ad_name (en_port e)) @ ''  '' @ emph (''['' @ sid @ '']'') @ '' subscribed to '' @ emph topic @
             '' (kind='' @ kind @ key @ '')  '' @ stop_hint)) (\<lambda>_. gives sub)))))"

definition worker_main :: "(string \<Rightarrow> rat option) \<Rightarrow> (rat option \<Rightarrow> string) \<Rightarrow> string \<Rightarrow> Cli \<Rightarrow> ('w, 'sub) Env \<Rightarrow>
    ('w, 'sub) prog" where
  "worker_main number shown rnd cli e =
     (let topic = positional ''orders'' cli; wid = client_id ''worker-'' rnd cli;
          failRate = cli_num number ''fail-rate'' 1 cli; maximum = cli_num number ''max'' (of_nat DEFAULT_MAX_DELIVERIES) cli
      in and_then (connect_both e) (\<lambda>_.
         and_then (do_subscribe e topic 501 (worker_options number wid cli)) (\<lambda>sub.
         and_then (say (label (ad_name (en_port e)) @ ''  '' @ emph (''['' @ wid @ '']'') @ '' working '' @ emph topic @
             '' (fail-rate='' @ shown failRate @ '', max='' @ shown maximum @ '' '' @ arrow @ '' '' @ deadLetterAddress topic @
             '')  '' @ stop_hint)) (\<lambda>_. gives sub))))"

definition interactive_closures :: "(string \<Rightarrow> rat option) \<Rightarrow> string \<Rightarrow> Cli \<Rightarrow> handler \<Rightarrow> closure" where
  "interactive_closures number rnd cli h =
     (if h = 500 then subscriber_handler number (client_id ''sub-'' rnd cli) cli
      else if h = 501 then worker_handler number (client_id ''worker-'' rnd cli) cli
      else (\<lambda>m now l. []))"

section \<open>Properties\<close>

definition render_args :: "Cli \<Rightarrow> string list" where
  "render_args cli = cli_broker cli # cli_positionals cli @
     concat (map (\<lambda>(k, v). [''--'' @ k, v]) (cli_flags cli)) @ map (\<lambda>b. ''--'' @ b) (cli_bools cli)"

lemma is_option_dashes [simp]: "is_option (''--'' @ k)"
  by (simp add: is_option_def)

lemma scan_words:
  "\<forall>p \<in> set ps'. \<not> is_option p \<Longrightarrow> scan_args (ps' @ rest) (ps, fs, bs) = scan_args rest (ps @ ps', fs, bs)"
  by (induction ps' arbitrary: ps) auto

lemma scan_flags:
  "\<forall>(k, v) \<in> set fs'. \<not> is_option v \<Longrightarrow> distinct (map fst (fs @ fs')) \<Longrightarrow>
   scan_args (concat (map (\<lambda>(k, v). [''--'' @ k, v]) fs') @ rest) (ps, fs, bs) = scan_args rest (ps, fs @ fs', bs)"
proof (induction fs' arbitrary: fs)
  case (Cons f fs')
  obtain k v where f: "f = (k, v)" by (cases f)
  with Cons.prems have "js_map_set fs k v = fs @ [(k, v)]"
    by (intro js_map_set_fresh) (auto simp: js_map_get_None_iff)
  with Cons f is_option_dashes [of k] show ?case by (simp del: is_option_dashes)
qed simp

lemma scan_bools:
  "distinct (bs @ bs') \<Longrightarrow> scan_args (map (\<lambda>b. ''--'' @ b) bs') (ps, fs, bs) = (ps, fs, bs @ bs')"
proof (induction bs' arbitrary: bs)
  case (Cons b bs')
  have "bs' \<noteq> [] \<Longrightarrow> is_option (hd (map (\<lambda>b. ''--'' @ b) bs'))"
    by (cases bs') (simp_all add: is_option_def)
  with Cons is_option_dashes [of b] show ?case by (auto simp: add_last_def simp del: is_option_dashes)
qed simp

text \<open>What the usage lines of the clients ask for: words before options, no value that looks like an option.\<close>

definition well_formed_cli :: "Cli \<Rightarrow> bool" where
  "well_formed_cli cli \<longleftrightarrow> cli_broker cli \<in> set KNOWN_BROKERS \<and> list_all (\<lambda>p. \<not> is_option p) (cli_positionals cli) \<and>
     list_all (\<lambda>(k, v). \<not> is_option v) (cli_flags cli) \<and> distinct (map fst (cli_flags cli)) \<and> distinct (cli_bools cli)"

lemma broker_is_no_option: "b \<in> set KNOWN_BROKERS \<Longrightarrow> \<not> is_option b"
  by (auto simp: KNOWN_BROKERS_def is_option_def)

text \<open>
  C39. The argument parser inverts the command line: the words, the options with a value and the options without, given
  in that order for a known broker, come back as they were given.
\<close>

theorem parseCli_roundtrip:
  assumes "well_formed_cli cli"
  shows "parseCli (render_args cli) = Some cli"
proof -
  let ?flags = "concat (map (\<lambda>(k, v). [''--'' @ k, v]) (cli_flags cli))"
  let ?bools = "map (\<lambda>b. ''--'' @ b) (cli_bools cli)"
  have broker: "cli_broker cli \<in> set KNOWN_BROKERS" and words: "\<forall>p \<in> set (cli_broker cli # cli_positionals cli). \<not> is_option p"
    and flags: "\<forall>(k, v) \<in> set (cli_flags cli). \<not> is_option v" "distinct (map fst ([] @ cli_flags cli))"
    and bools: "distinct ([] @ cli_bools cli)"
    using assms broker_is_no_option by (auto simp: well_formed_cli_def list_all_iff)
  have "scan_args (render_args cli) ([], [], []) = (cli_broker cli # cli_positionals cli, cli_flags cli, cli_bools cli)"
    using scan_words [OF words, of "?flags @ ?bools" "[]" "[]" "[]"] scan_flags [OF flags, of ?bools _ "[]"]
      scan_bools [OF bools, of _ "cli_flags cli"]
    by (simp add: render_args_def)
  then show ?thesis
    using broker by (simp add: parseCli_def Let_def)
qed

lemma parseCli_roundtrip_witness:
  "parseCli [''rabbitmq'', ''orders'', ''--count'', ''3'', ''--list''] =
   Some \<lparr>cli_broker = ''rabbitmq'', cli_positionals = [''orders''], cli_flags = [(''count'', ''3'')], cli_bools = [''list'']\<rparr>"
  using parseCli_roundtrip [of "\<lparr>cli_broker = ''rabbitmq'', cli_positionals = [''orders''],
    cli_flags = [(''count'', ''3'')], cli_bools = [''list'']\<rparr>"]
  by (simp add: well_formed_cli_def render_args_def KNOWN_BROKERS_def is_option_def)

text \<open>
  An option without a value takes the word after it: given before the destination, \<open>--cancel\<close> is not seen and the
  destination is lost.
\<close>

lemma option_takes_the_next_word:
  "parseCli [''in-memory'', ''--cancel'', ''reminders''] =
   Some \<lparr>cli_broker = ''in-memory'', cli_positionals = [], cli_flags = [(''cancel'', ''reminders'')], cli_bools = []\<rparr>"
  by (simp add: parseCli_def KNOWN_BROKERS_def is_option_def)

lemma pseudoRandom_bounds: "0 \<le> pseudoRandom s" "pseudoRandom s < 1"
proof -
  have "unat (fold fnv_step s 2166136261) mod 1000 < 1000"
    by simp
  then have "(of_nat (unat (fold fnv_step s 2166136261) mod 1000) :: rat) < of_nat 1000"
    by (rule of_nat_less_iff [THEN iffD2])
  then show "pseudoRandom s < 1"
    by (simp add: pseudoRandom_def)
  show "0 \<le> pseudoRandom s"
    by (simp add: pseudoRandom_def)
qed

text \<open>The demonstration worker fails by the content of the message alone: every delivery of a message ends the same
  way, a failure rate of one or more (the default is one) rejects every message for redelivery, and a rate of zero or
  less acknowledges every message.
\<close>

theorem worker_fails_by_content:
  assumes "cli_num number ''fail-rate'' 1 cli = Some rate"
  shows "last (worker_handler number wid cli m now l) =
           Settle (if pseudoRandom (rm_body m) < rate then CallNack True else CallAck) \<and>
         (1 \<le> rate \<longrightarrow> pseudoRandom (rm_body m) < rate) \<and> (rate \<le> 0 \<longrightarrow> \<not> pseudoRandom (rm_body m) < rate)"
  using assms pseudoRandom_bounds [of "rm_body m"] by (auto simp: worker_handler_def below_def Let_def)

lemma worker_fails_by_content_witness:
  "last (worker_handler (\<lambda>_. None) ''w'' \<lparr>cli_broker = ''rabbitmq'', cli_positionals = [], cli_flags = [], cli_bools = []\<rparr>
     \<lparr>rm_id = ''1'', rm_destination = ''orders'', rm_body = ''poison'', rm_headers = [], im_deliveryCount = Some 1,
     im_replyTo = None, im_correlationId = None, im_groupId = None, im_priority = None\<rparr> 0 no_locals) = Settle (CallNack True)"
  using worker_fails_by_content [of "\<lambda>_. None" "\<lparr>cli_broker = ''rabbitmq'', cli_positionals = [], cli_flags = [], cli_bools = []\<rparr>"
    1 "''w''" "\<lparr>rm_id = ''1'', rm_destination = ''orders'', rm_body = ''poison'', rm_headers = [], im_deliveryCount = Some 1,
     im_replyTo = None, im_correlationId = None, im_groupId = None, im_priority = None\<rparr>" 0 no_locals]
  by (simp add: cli_num_def cli_flag_def)

end
