(* ===== verification/Registry.thy ===== *)
theory Registry
  imports Rabbit_Mq Artemis Kafka
begin

text \<open>
  The registry of brokers (\<open>adapters/index.ts\<close>): a factory per broker, which reads its configuration from the
  environment, and \<open>createScheduler\<close>. The adapters are objects of different classes; what is created is the object in
  its initial state, bare or wrapped in \<open>ResilientScheduler\<close>. A name is looked up among the registered ones (names of
  the members that every JavaScript object inherits are not considered).
\<close>

section \<open>Factories\<close>

datatype BrokerScheduler =
    ArtemisBroker Artemis
  | RabbitMqBroker RabbitMq
  | KafkaBroker Kafka
  | InMemoryBroker InMemoryScheduler

definition REGISTRY :: "(string \<times> ((string \<rightharpoonup> string) \<Rightarrow> BrokerScheduler)) list" where
  "REGISTRY =
     [(''artemis'', \<lambda>env. ArtemisBroker (artemis_init (artemisConfigFromEnv env))),
      (''rabbitmq'', \<lambda>env. RabbitMqBroker (rabbit_init (rabbitConfigFromEnv env))),
      (''kafka'', \<lambda>env. KafkaBroker (kafka_init (kafkaConfigFromEnv env))),
      (''in-memory'', \<lambda>env. InMemoryBroker is_init)]"

datatype Created = Raw BrokerScheduler | Resilient ResilienceOptions BrokerScheduler

definition createScheduler :: "(string \<rightharpoonup> string) \<Rightarrow> string \<Rightarrow> bool \<Rightarrow> js_error + Created" where
  "createScheduler env broker resilient =
     (case js_map_get REGISTRY broker of
        None \<Rightarrow> Inl (Error (''Unknown broker '' @ quoted broker @ ''. Known: '' @ join_strings '', '' KNOWN_BROKERS))
      | Some factory \<Rightarrow>
          (let scheduler = factory env
           in Inr (if resilient then Resilient DEFAULT_RESILIENCE scheduler else Raw scheduler)))"

section \<open>What is created\<close>

text \<open>\<open>name\<close> and \<open>capabilities\<close>; the decorator forwards both to the adapter inside.\<close>

fun broker_name :: "BrokerScheduler \<Rightarrow> string" where
  "broker_name (ArtemisBroker a) = artemis_name"
| "broker_name (RabbitMqBroker r) = rabbit_name"
| "broker_name (KafkaBroker k) = kafka_name"
| "broker_name (InMemoryBroker s) = ad_name memory_adapter"

fun broker_capabilities :: "BrokerScheduler \<Rightarrow> Capabilities" where
  "broker_capabilities (ArtemisBroker a) = artemis_capabilities"
| "broker_capabilities (RabbitMqBroker r) = rabbit_capabilities"
| "broker_capabilities (KafkaBroker k) = kafka_capabilities"
| "broker_capabilities (InMemoryBroker s) = is_capabilities"

fun created_scheduler :: "Created \<Rightarrow> BrokerScheduler" where
  "created_scheduler (Raw s) = s"
| "created_scheduler (Resilient opts s) = s"

lemma known_brokers_registered: "map fst REGISTRY = KNOWN_BROKERS"
  by (simp add: REGISTRY_def KNOWN_BROKERS_def)

lemma createScheduler_known: "isl (createScheduler env broker resilient) \<longleftrightarrow> broker \<notin> set KNOWN_BROKERS"
  by (auto simp: createScheduler_def REGISTRY_def KNOWN_BROKERS_def Let_def split: option.split)

lemma createScheduler_InrD:
  assumes "createScheduler env b r = Inr c"
  obtains factory where "(b, factory) \<in> set REGISTRY" and "created_scheduler c = factory env"
proof -
  from assms obtain factory where "js_map_get REGISTRY b = Some factory"
    by (cases "js_map_get REGISTRY b") (simp_all add: createScheduler_def)
  moreover from this assms have "created_scheduler c = factory env"
    by (auto simp: createScheduler_def Let_def)
  ultimately show thesis by (auto simp: js_map_get_map_of intro: that dest: map_of_SomeD)
qed

text \<open>Every broker has a bus, and the resilient and the raw form of an id have the same adapter inside.\<close>

lemma registered_has_bus: "\<forall>(b, factory) \<in> set REGISTRY. cap_bus (broker_capabilities (factory env)) \<noteq> None"
  by (simp add: REGISTRY_def artemis_capabilities_def rabbit_capabilities_def kafka_capabilities_def is_capabilities_def)

lemma createScheduler_has_bus:
  assumes "createScheduler env b r = Inr c"
  shows "cap_bus (broker_capabilities (created_scheduler c)) \<noteq> None"
  using registered_has_bus [of env] by (rule_tac createScheduler_InrD [OF assms]) auto

lemma createScheduler_same:
  "createScheduler env b True = Inr c \<Longrightarrow> createScheduler env b False = Inr (Raw (created_scheduler c))"
  by (auto simp: createScheduler_def Let_def split: option.splits)

end
