(* ===== verification/Spec2Isabelle.thy ===== *)
theory Spec2Isabelle
  imports Bus_Properties Scheduler_Properties Idempotency_Properties Decorator_Properties
    Rabbit_Topology Artemis_Properties Kafka_Runs Runner_Properties Conformance
    Sse_Broker Sse_Port Sse_Launcher Sse_Docs Fault_Properties Interactive Registry
begin

text \<open>
  A verification library for the TypeScript half of this repository (\<open>src/typescript/src\<close>): a messaging port with four
  broker adapters, the decorators and stores around them, the twenty scenarios that compare the brokers, and three
  programs built on the port, an SSE cluster, a fault-tolerance demonstration and command-line clients.

  \<^bold>\<open>The program and its parts.\<close> An adapter implements two ports, \<open>IMessageScheduler\<close> (send, schedule, cancel, list,
  consume) and \<open>IMessageBus\<close> (publish, subscribe, acknowledge), and declares what it supports. Decorators
  (\<open>FaultInjectingBus\<close>, \<open>ResilientScheduler\<close>) are adapters over adapters; an idempotent handler wraps a consumer over a
  store. The runner executes scenarios against an adapter and reports verdicts. The SSE cluster publishes and subscribes
  through an adapter and serves HTTP; the demonstration and the clients drive an adapter directly.

  \<^bold>\<open>Which theory models what.\<close>
  \<^item> \<open>Prelude\<close>: JavaScript's maps, arrays and strings as lists, and the lemmas on them. \<open>Js_Value\<close>: dynamically typed values.
    \<open>Json\<close>, \<open>Json_Roundtrip\<close>: \<open>JSON.stringify\<close> and \<open>JSON.parse\<close>, and that the second inverts the first.
  \<^item> \<open>Abstractions\<close>: \<open>abstractions/*.ts\<close>, the shared types, errors and address conventions. \<open>Scheduler_Port\<close> and
    \<open>Settlement_Port\<close>: the contracts of a scheduler (an operation is unsupported exactly if its capability is not declared)
    and of \<open>ack\<close>/\<open>nack\<close> (the first call settles) as locales, interpreted on each adapter.
  \<^item> \<open>Topic_Match\<close>, \<open>Bus_Queue\<close>, \<open>Queue_Pump\<close>, \<open>In_Memory_Bus\<close>: \<open>adapters/in-memory-bus.ts\<close>: the wildcard matcher, class
    \<open>BusQueue\<close>, the loop of \<open>pump\<close>, class \<open>InMemoryBus\<close> with its microtasks and timers, and its runs as a step relation.
    \<open>Bus_Invariants\<close>, \<open>Bus_Settlement\<close>, \<open>Bus_Steps\<close>, \<open>Bus_Laws\<close>, \<open>Bus_Progress\<close>, \<open>Bus_Effects\<close> carry the proofs: well-formedness
    of every reachable bus, conservation of messages per operation, laws on messages, saturation of queues, and what an
    operation does to each queue. \<open>Bus_Properties\<close> states the results.
  \<^item> \<open>In_Memory_Scheduler\<close>, \<open>Scheduler_Properties\<close>: \<open>adapters/in-memory.ts\<close>, class \<open>InMemoryScheduler\<close>.
  \<^item> \<open>Idempotency\<close>, \<open>Idempotency_Properties\<close>: \<open>idempotency/*.ts\<close>; the store is a locale, with the in-memory store as its
    interpretation and the Redis store as a refinement of it.
  \<^item> \<open>Decorators\<close>, \<open>Decorator_Properties\<close>: the port as the record \<open>Adapter\<close>, \<open>fault/fault-injecting-bus.ts\<close> and
    \<open>resilience/resilient-scheduler.ts\<close>. \<open>Registry\<close>: \<open>adapters/index.ts\<close>.
  \<^item> \<open>Rabbit_Mq\<close>, \<open>Artemis\<close>, \<open>Kafka\<close> with their \<open>_Properties\<close>: the broker adapters. An adapter's state is its fields, and
    what it does to the broker is the log of its client-library calls, any of which the broker may refuse. \<open>Rabbit_Topology\<close>
    and \<open>Kafka_Runs\<close> are about runs of an adapter under refusals, by a contract per operation and a step relation.
  \<^item> \<open>Scenario_Port\<close>, \<open>Scenarios_Scheduling\<close>, \<open>Scenarios_Delivery\<close>, \<open>Scenarios_Reliability\<close>, \<open>Scenarios_Lifecycle\<close>:
    \<open>scenarios/*.ts\<close> as programs over any adapter, their handlers as closures that yield actions. \<open>Event_Loop\<close>: the event
    loop over the in-process adapter. \<open>Runner\<close>, \<open>Runner_Properties\<close>, \<open>Conformance\<close>: \<open>runner.ts\<close>, \<open>ansi.ts\<close>, \<open>index.ts\<close>, and
    runs of scenarios.
  \<^item> \<open>Sse_Hub\<close>: \<open>sse/domain/*.ts\<close>, \<open>sse/ports.ts\<close> and \<open>sse/adapters/bus-message-port.ts\<close>, with the contract of the broker
    port as a locale, in which the hub is shown to bind what it promises; \<open>Sse_Port\<close>: the in-process broker keeps the
    contract. \<open>Sse_Http\<close>: \<open>sse/adapters/http-server.ts\<close>. \<open>Sse_Properties\<close>: single requests and streams. \<open>Sse_Cluster\<close>: a
    running cluster, and a specification of it without a broker. \<open>Sse_Lanes\<close>, \<open>Sse_Simulation\<close>, \<open>Sse_Delivery\<close>: the cluster
    implements the specification. \<open>Sse_Broker\<close>: its broker is a reachable bus. \<open>Sse_Server\<close>, \<open>Sse_Launcher\<close>: \<open>sse/server.ts\<close>
    and \<open>sse/cluster.ts\<close>, instances, their shutdown, and the launcher over them. \<open>Sse_Docs\<close>: \<open>sse/docs/generate.ts\<close> and the
    contract it renders; evaluated, the two renderers yield the committed \<open>docs/sse-events.md\<close> and
    \<open>docs/sse-asyncapi.yaml\<close>.
  \<^item> \<open>Fault_Demo\<close>, \<open>Fault_Properties\<close>: \<open>fault.ts\<close>, \<open>fault/fault-narrator.ts\<close>. \<open>Interactive\<close>: \<open>interactive/*.ts\<close>.

  \<^bold>\<open>What the lemmas show.\<close> On the bus: messages are neither lost nor duplicated by a settlement, attempts are bounded, a
  consumer holds one message, groups stay with one consumer, order is by priority and arrival, no consumer idles while a
  message it may take waits. On the scheduler: schedules are delivered when due and not after being cancelled. On the
  adapters: budgets, bindings, selectors and offsets against the in-process reference, with the cases in which they
  differ; and whatever the broker refuses, exchanges and queues are declared before they are used and consumers are
  stopped. On the runner: every scenario is reported, and verdicts follow the declared capabilities. On the SSE cluster: an
  open stream receives every post addressed to it exactly once and in order, every request is answered once, and no
  message breaks the framing of a stream. Where the code does not do what it says, a theorem states what it does: a TTL
  that strands a message, a connect that succeeds on a cluster that is down, a wildcard as a user id, a client that leaves while its stream is set up, a shutdown that waits
  for the browsers.

  \<^bold>\<open>How the code is modelled.\<close>
  \<^item> Objects shared by reference live in stores and are referred to by number: queue objects by their index, messages by
    \<open>bm_ref\<close>, handlers, links, channels and subscriptions by numbers.
  \<^item> Asynchrony is explicit: microtasks, timers and scheduled deliveries are lists in the state, a clock is a field. A
    handler runs without interruption up to a pause. \<open>Promise.all\<close> runs its promises in their order.
  \<^item> Numbers are \<open>nat\<close>, \<open>int\<close> or \<open>rat\<close> where the code computes within the exact range of doubles; the 32-bit arithmetic of
    \<open>pseudoRandom\<close> is on words, and the 32-bit limit of \<open>setTimeout\<close> is written out. Strings are lists of the bytes of UTF-8.
    \<open>Map\<close> and plain objects with a visible order are association lists.
  \<^item> Errors are values: \<open>js_error\<close> on the left of a sum. A switch of behaviour on an exception is a branch. Whether a
    broker accepts a call is an oracle in the state of the adapter (\<open>rb_refuses\<close>, \<open>ar_refuses\<close>, \<open>kf_refuses\<close>), indexed by
    the position of the call in the log: a call that is refused is in the log, and its error ends the operation.
  \<^item> Code that is not in the repository is a parameter or a log of calls: the broker client libraries, the Redis client, the
    retry and circuit-breaker pipeline (\<open>execute\<close>, \<open>events\<close>), random characters, \<open>Number(text)\<close>, the URL parser, the file
    with the front end. Facts about it that a theorem needs are hypotheses with their own names.

  \<^bold>\<open>Bounds and fuel.\<close> \<open>event_loop\<close> runs at most 1000 jobs per pause, and gives \<open>None\<close> beyond; the runs evaluated in
  \<open>Conformance\<close> stay within it. The fuel of \<open>waitUntil\<close> is the number of its polls, timeout/50 + 1, and \<open>waitUntil_ends\<close>
  shows that it is enough. The fuel of the JSON parser is the length of the text, which \<open>parse_enough\<close> and
  \<open>json_parse_bound\<close> show to be enough. All other recursions are structural or have a termination proof.

  \<^bold>\<open>Not modelled.\<close> The platform is left out: sockets, the file system, how a signal reaches a process and how \<open>Number\<close>
  parses and prints; so are the console lines of the SSE processes. The registry creates adapters of different classes,
  so a run over several brokers takes what a run against each gives (\<open>broker_run\<close>). What a plain consumer prints is
  given per message (\<open>arrival_line\<close>). Opening a stream is one event in \<open>Sse_Cluster\<close>; a client that leaves meanwhile is
  treated in \<open>Sse_Http\<close>. Invalid UTF-8 in a request body is not distinguished. The .NET half of the repository is outside
  this library.
\<close>

end
